(* ===== verification/Prelude.thy ===== *)
theory Prelude
  imports Main "HOL-Library.Word"
begin

text \<open>
  Shared vocabulary of the development: the byte and integer types of the C sources, byte
  order (\<^verbatim>\<open>htonl\<close>, \<^verbatim>\<open>htobe64\<close> and their inverses on a host of either byte order), the
  interface of a fixed-width binary codec, the integer codecs that implement it, and the
  fact collections the component theories add to.
\<close>

section \<open>Fact collections\<close>

named_theorems frame_simps \<open>which parts of the state an operation leaves alone\<close>
named_theorems size_simps \<open>lengths of encodings and buffers\<close>
named_theorems size_consts \<open>the numeric constants of the headers\<close>

section \<open>Machine integers and buffers\<close>

type_synonym byte = "8 word"
type_synonym u16 = "16 word"
type_synonym u32 = "32 word"
type_synonym u64 = "64 word"
type_synonym bytes = "8 word list"

text \<open>
  The functions of the sources return \<^verbatim>\<open>int\<close>: 0 for success, 1 (or -1 in the internal
  socket loops) for failure.
\<close>

type_synonym rc = int

definition zeros :: "nat \<Rightarrow> bytes" where
  "zeros n = replicate n 0"

lemma length_zeros [simp, size_simps]: "length (zeros n) = n"
  by (simp add: zeros_def)

lemma take_append_exact [simp]: "length xs = n \<Longrightarrow> take n (xs @ ys) = xs"
  by simp

lemma drop_append_exact [simp]: "length xs = n \<Longrightarrow> drop n (xs @ ys) = ys"
  by simp

lemma take_drop_append: "take n (drop k xs) @ drop (k + n) xs = drop k xs"
  by (metis add.commute append_take_drop_id drop_drop)

lemma append_prefix_inject:
  "length xs = length ys \<Longrightarrow> xs @ us = ys @ vs \<longleftrightarrow> xs = ys \<and> us = vs"
  by simp

lemma unat_of_nat_small: "n < 2 ^ LENGTH('a) \<Longrightarrow> unat (of_nat n :: 'a::len word) = n"
  by (simp add: unsigned_of_nat take_bit_nat_eq_self)

section \<open>Words and their bytes\<close>

text \<open>
  \<open>bytes_le n x\<close> are the \<open>n\<close> low bytes of a word, least significant first;
  \<open>word_le\<close> reads them back.
\<close>

primrec bytes_le :: "nat \<Rightarrow> 'a::len word \<Rightarrow> bytes" where
  "bytes_le 0 x = []"
| "bytes_le (Suc n) x = ucast x # bytes_le n (drop_bit 8 x)"

primrec word_le :: "bytes \<Rightarrow> 'a::len word" where
  "word_le [] = 0"
| "word_le (b # bs) = or (ucast b) (push_bit 8 (word_le bs))"

lemma length_bytes_le [simp, size_simps]: "length (bytes_le n x) = n"
  by (induction n arbitrary: x) auto

lemma word_le_bytes_le: "word_le (bytes_le n x) = take_bit (8 * n) (x :: 'a::len word)"
proof (induction n arbitrary: x)
  case 0
  then show ?case by simp
next
  case (Suc n)
  show ?case
    by (rule bit_word_eqI)
      (auto simp: Suc bit_simps not_less less_diff_conv add.commute
        intro: order_less_le_trans dest: leI)
qed

lemma word_le_bytes_le_full: "LENGTH('a) = 8 * n \<Longrightarrow> word_le (bytes_le n x) = (x :: 'a::len word)"
  by (metis word_le_bytes_le take_bit_length_eq)

lemma bit_word_le: "bit (word_le bs :: 'a::len word) k \<Longrightarrow> k < 8 * length bs"
proof (induction bs arbitrary: k)
  case Nil
  then show ?case by simp
next
  case (Cons b bs)
  show ?case
  proof (cases "k < 8")
    case True
    then show ?thesis by simp
  next
    case False
    with Cons.prems have "bit (word_le bs :: 'a word) (k - 8)"
      by (auto simp: bit_simps dest: bit_imp_le_length)
    from Cons.IH [OF this] False show ?thesis by simp
  qed
qed

lemma bytes_le_word_le:
  "length bs = n \<Longrightarrow> 8 * n \<le> LENGTH('a::len) \<Longrightarrow> bytes_le n (word_le bs :: 'a word) = bs"
proof (induction bs arbitrary: n)
  case Nil
  then show ?case by simp
next
  case (Cons b bs)
  then obtain m where m: "n = Suc m" "length bs = m" by (cases n) auto
  have low: "ucast (word_le (b # bs) :: 'a word) = b"
    using Cons.prems m by (intro bit_word_eqI) (auto simp: bit_simps)
  have high: "drop_bit 8 (word_le (b # bs) :: 'a word) = word_le bs"
    using Cons.prems m by (intro bit_word_eqI) (auto simp: bit_simps dest: bit_word_le bit_imp_le_length)
  show ?case
    using Cons m low high by simp
qed

lemma bytes_le_inject:
  fixes x y :: "'a::len word"
  shows "LENGTH('a) = 8 * n \<Longrightarrow> bytes_le n x = bytes_le n y \<longleftrightarrow> x = y"
  by (metis word_le_bytes_le_full)

text \<open>Network (big-endian) order is the reverse.\<close>

definition bytes_be :: "nat \<Rightarrow> 'a::len word \<Rightarrow> bytes" where
  "bytes_be n x = rev (bytes_le n x)"

definition word_be :: "bytes \<Rightarrow> 'a::len word" where
  "word_be bs = word_le (rev bs)"

lemma length_bytes_be [simp, size_simps]: "length (bytes_be n x) = n"
  by (simp add: bytes_be_def)

lemma word_be_bytes_be: "LENGTH('a) = 8 * n \<Longrightarrow> word_be (bytes_be n x) = (x :: 'a::len word)"
  by (simp add: word_be_def bytes_be_def word_le_bytes_le_full)

lemma bytes_be_word_be:
  "length bs = n \<Longrightarrow> 8 * n \<le> LENGTH('a::len) \<Longrightarrow> bytes_be n (word_be bs :: 'a word) = bs"
  by (simp add: word_be_def bytes_be_def bytes_le_word_le)

section \<open>Byte order of the host\<close>

text \<open>
  The sources convert integers with \<^verbatim>\<open>htonl\<close>, \<^verbatim>\<open>htobe32\<close>, \<^verbatim>\<open>htobe64\<close> and copy the
  result into a buffer with \<^verbatim>\<open>memcpy\<close>. What a copy writes depends on the host, and
  so does what the conversion does: \<open>mem_bytes\<close> is the object representation of an
  integer, \<open>to_be\<close> the conversion (the identity on a big-endian host, a byte swap on a
  little-endian one).
\<close>

datatype endian = LittleEndian | BigEndian

definition mem_bytes :: "endian \<Rightarrow> nat \<Rightarrow> 'a::len word \<Rightarrow> bytes" where
  "mem_bytes e n x = (case e of LittleEndian \<Rightarrow> bytes_le n x | BigEndian \<Rightarrow> bytes_be n x)"

definition mem_word :: "endian \<Rightarrow> bytes \<Rightarrow> 'a::len word" where
  "mem_word e bs = (case e of LittleEndian \<Rightarrow> word_le bs | BigEndian \<Rightarrow> word_be bs)"

definition bswap :: "nat \<Rightarrow> 'a::len word \<Rightarrow> 'a word" where
  "bswap n x = word_le (bytes_be n x)"

definition to_be :: "endian \<Rightarrow> nat \<Rightarrow> 'a::len word \<Rightarrow> 'a word" where
  "to_be e n x = (case e of LittleEndian \<Rightarrow> bswap n x | BigEndian \<Rightarrow> x)"

lemma length_mem_bytes [simp, size_simps]: "length (mem_bytes e n x) = n"
  by (simp add: mem_bytes_def split: endian.split)

lemma mem_word_mem_bytes: "LENGTH('a) = 8 * n \<Longrightarrow> mem_word e (mem_bytes e n x) = (x :: 'a::len word)"
  by (simp add: mem_word_def mem_bytes_def word_le_bytes_le_full word_be_bytes_be split: endian.split)

lemma mem_bytes_mem_word:
  "length bs = n \<Longrightarrow> 8 * n \<le> LENGTH('a::len) \<Longrightarrow> mem_bytes e n (mem_word e bs :: 'a word) = bs"
  by (simp add: mem_word_def mem_bytes_def bytes_le_word_le bytes_be_word_be split: endian.split)

text \<open>
  Converting and then copying writes network order whatever the host, and copying and
  then converting reads it back: the conversion is its own inverse.
\<close>

lemma mem_bytes_to_be:
  "LENGTH('a) = 8 * n \<Longrightarrow> mem_bytes e n (to_be e n (x :: 'a::len word)) = bytes_be n x"
  by (simp add: mem_bytes_def to_be_def bswap_def bytes_le_word_le split: endian.split)

lemma to_be_mem_word:
  "LENGTH('a) = 8 * n \<Longrightarrow> length bs = n \<Longrightarrow> to_be e n (mem_word e bs) = (word_be bs :: 'a::len word)"
  by (simp add: mem_word_def to_be_def bswap_def word_be_def bytes_be_def bytes_le_word_le
      split: endian.split)

abbreviation htonl :: "endian \<Rightarrow> u32 \<Rightarrow> u32" where "htonl e \<equiv> to_be e 4"
abbreviation ntohl :: "endian \<Rightarrow> u32 \<Rightarrow> u32" where "ntohl e \<equiv> to_be e 4"
abbreviation htobe32 :: "endian \<Rightarrow> u32 \<Rightarrow> u32" where "htobe32 e \<equiv> to_be e 4"
abbreviation be32toh :: "endian \<Rightarrow> u32 \<Rightarrow> u32" where "be32toh e \<equiv> to_be e 4"
abbreviation htobe64 :: "endian \<Rightarrow> u64 \<Rightarrow> u64" where "htobe64 e \<equiv> to_be e 8"
abbreviation be64toh :: "endian \<Rightarrow> u64 \<Rightarrow> u64" where "be64toh e \<equiv> to_be e 8"

section \<open>Fixed-width codecs\<close>

text \<open>
  Every wire structure of the program is a fixed-width encoding: a run of bytes of known
  length from which the value is read back. The component theories interpret this
  interface on the structures they define; what a reader of a buffer needs (where the
  next field starts, that two encodings never overlap) is proved here once.
\<close>

locale fixed_codec =
  fixes enc :: "'a \<Rightarrow> bytes"
    and dec :: "bytes \<Rightarrow> 'a"
    and width :: nat
    and valid :: "'a \<Rightarrow> bool"
  assumes enc_length: "valid x \<Longrightarrow> length (enc x) = width"
    and dec_enc: "valid x \<Longrightarrow> dec (enc x) = x"
begin

lemma enc_inject: "valid x \<Longrightarrow> valid y \<Longrightarrow> enc x = enc y \<longleftrightarrow> x = y"
  by (metis dec_enc)

lemma take_enc: "valid x \<Longrightarrow> take width (enc x @ rest) = enc x"
  by (simp add: enc_length)

lemma drop_enc: "valid x \<Longrightarrow> drop width (enc x @ rest) = rest"
  by (simp add: enc_length)

lemma dec_prefix: "valid x \<Longrightarrow> dec (take width (enc x @ rest)) = x"
  by (simp add: enc_length dec_enc)

lemma dec_slice: "valid x \<Longrightarrow> length pre = k \<Longrightarrow> dec (take width (drop k (pre @ enc x @ rest))) = x"
  by (simp add: enc_length dec_enc)

lemma framing_unique:
  "valid x \<Longrightarrow> valid y \<Longrightarrow> enc x @ r = enc y @ r' \<longleftrightarrow> x = y \<and> r = r'"
  by (metis append_prefix_inject enc_inject enc_length)

end

interpretation be32: fixed_codec "bytes_be 4 :: u32 \<Rightarrow> bytes" word_be 4 "\<lambda>_. True"
  by unfold_locales (simp_all add: word_be_bytes_be)

interpretation be64: fixed_codec "bytes_be 8 :: u64 \<Rightarrow> bytes" word_be 8 "\<lambda>_. True"
  by unfold_locales (simp_all add: word_be_bytes_be)

interpretation mem64: fixed_codec "mem_bytes e 8 :: u64 \<Rightarrow> bytes" "mem_word e" 8 "\<lambda>_. True" for e
  by unfold_locales (simp_all add: mem_word_mem_bytes)

section \<open>Byte streams\<close>

text \<open>
  What the packet layer needs of a transport. A reader delivers exactly the next \<open>n\<close> bytes
  of its input or fails; a writer appends to its output, and what a failing write leaves
  there is a prefix of the data. Neither says how the bytes travel: the interpretation on
  chunked sockets is in \<^verbatim>\<open>Packet\<close>.
\<close>

locale byte_reader =
  fixes get :: "nat \<Rightarrow> 's \<Rightarrow> bytes option \<times> 's"
    and inp :: "'s \<Rightarrow> bytes"
  assumes get_enough:
      "n \<le> length (inp s) \<Longrightarrow> get n s = (r, s') \<Longrightarrow> r = Some (take n (inp s)) \<and> inp s' = drop n (inp s)"
    and get_short: "length (inp s) < n \<Longrightarrow> get n s = (r, s') \<Longrightarrow> r = None"
begin

lemma get_length: "get n s = (Some bs, s') \<Longrightarrow> length bs = n"
  using get_enough [of n s "Some bs" s'] get_short [of s n "Some bs" s']
  by (cases "n \<le> length (inp s)") auto

lemma get_Some: "get n s = (Some bs, s') \<Longrightarrow> inp s = bs @ inp s'"
  using get_enough [of n s "Some bs" s'] get_short [of s n "Some bs" s']
  by (cases "n \<le> length (inp s)") (auto simp: append_take_drop_id)

lemma get_append: "length bs = n \<Longrightarrow> inp s = bs @ rest \<Longrightarrow> get n s = (r, s') \<Longrightarrow> r = Some bs \<and> inp s' = rest"
  using get_enough [of n s r s'] by simp

lemma get_exact: "length bs = n \<Longrightarrow> inp s = bs \<Longrightarrow> get n s = (r, s') \<Longrightarrow> r = Some bs \<and> inp s' = []"
  using get_append [of bs n s "[]"] by simp

end

locale byte_writer =
  fixes put :: "bytes \<Rightarrow> 's \<Rightarrow> rc \<times> 's"
    and out :: "'s \<Rightarrow> bytes"
    and ready :: "'s \<Rightarrow> bool"
  assumes put_ready: "ready s \<Longrightarrow> put b s = (r, s') \<Longrightarrow> r = 0 \<and> ready s' \<and> out s' = out s @ b"
    and put_prefix: "put b s = (r, s') \<Longrightarrow>
      (\<exists>k \<le> length b. out s' = out s @ take k b \<and> (r = 0 \<longrightarrow> k = length b)) \<and> (r = 0 \<or> r = -1)"
begin

lemma put_ok: "put b s = (0, s') \<Longrightarrow> out s' = out s @ b"
  using put_prefix [of b s 0 s'] by auto

lemma put_put:
  "ready s \<Longrightarrow> put b s = (r, s') \<Longrightarrow> put c s' = (r', s'') \<Longrightarrow>
   r = 0 \<and> r' = 0 \<and> ready s'' \<and> out s'' = out s @ b @ c"
  using put_ready [of s b r s'] put_ready [of s' c r' s''] by simp

end

text \<open>Reading a value of a codec from a stream.\<close>

locale framed_reader = byte_reader get inp + fixed_codec enc dec width valid
  for get :: "nat \<Rightarrow> 's \<Rightarrow> bytes option \<times> 's" and inp :: "'s \<Rightarrow> bytes"
    and enc :: "'a \<Rightarrow> bytes" and dec :: "bytes \<Rightarrow> 'a" and width :: nat and valid :: "'a \<Rightarrow> bool"
begin

lemma get_enc:
  "valid x \<Longrightarrow> inp s = enc x @ rest \<Longrightarrow> get width s = (r, s') \<Longrightarrow> r = Some (enc x) \<and> inp s' = rest"
  by (rule get_append) (auto simp: enc_length)

lemma get_dec:
  "valid x \<Longrightarrow> inp s = enc x @ rest \<Longrightarrow> get width s = (r, s') \<Longrightarrow>
   \<exists>bs. r = Some bs \<and> dec bs = x \<and> inp s' = rest"
  using get_enc dec_enc by blast

end

end
