(* ===== verification/World.thy ===== *)
theory World
  imports Prelude
begin

text \<open>
  The environment the program runs in, as an explicit state. Every call into the operating
  system or the C library that has an effect is a function on \<open>world\<close>; what such a call
  answers is scripted by fields of the world that no theorem fixes unless it says so: the
  chunks in which TCP data arrives, how many bytes each \<^verbatim>\<open>send\<close> accepts, which allocations
  succeed, which random bytes are drawn. A statement for all worlds is a statement for
  every behaviour of the environment.

  A read from a TCP socket for which no data has arrived does not return. The model marks a
  world in which that has happened as \<open>stalled\<close>: what an operation returns together with a
  stalled world is not a result yet, since the operation is still waiting in that read.
  The step relations of the server and the client take no such step.
\<close>

section \<open>The state of the environment\<close>

text \<open>
  A TCP socket: the chunks that have arrived and are still to be delivered (an empty chunk
  stands for a \<^verbatim>\<open>recv\<close> that returns 0 or -1; after the last chunk a \<^verbatim>\<open>recv\<close> waits), the bytes
  sent so far, and how many bytes the kernel takes in the i-th call of \<^verbatim>\<open>send\<close> (0 stands for a
  failing call).
\<close>

record sock =
  rx_chunks :: "bytes list"
  tx_bytes :: bytes
  send_quota :: "nat \<Rightarrow> nat"
  send_calls :: nat

record disk_file =
  contents :: bytes
  owner_only :: bool

record sockaddr_in =
  sin_addr :: u32
  sin_port :: u16

text \<open>A network interface as \<^verbatim>\<open>ioctl\<close> configures it.\<close>

record iface =
  if_addr :: u32
  if_netmask :: u32
  if_up :: bool

record world =
  socks :: "int \<Rightarrow> sock option"
  stalled :: bool
  closed :: "int list"
  bad_closes :: "int list"
  fd_script :: "nat \<Rightarrow> int"
  sock_script :: "nat \<Rightarrow> sock"
  peer_script :: "nat \<Rightarrow> sockaddr_in"
  fd_calls :: nat
  net_ok :: "nat \<Rightarrow> bool"
  net_calls :: nat
  udp_in :: "int \<Rightarrow> (sockaddr_in \<times> bytes) list"
  udp_out :: "(int \<times> sockaddr_in option \<times> bytes) list"
  tun_out :: "bytes list"
  ifaces :: "string \<Rightarrow> iface option"
  heap :: int
  malloc_ok :: "nat \<Rightarrow> bool"
  malloc_calls :: nat
  rng :: "nat \<Rightarrow> byte"
  rng_pos :: nat
  files :: "string \<Rightarrow> disk_file option"
  readable :: "string \<Rightarrow> bool"
  writable :: "string \<Rightarrow> bool"
  write_quota :: "nat \<Rightarrow> nat"
  write_calls :: nat
  home_env :: "string option"
  pw_dir :: "string option"
  dirs :: "string list"
  other_names :: "string \<Rightarrow> bool"
  mkdir_ok :: "string \<Rightarrow> bool"
  idle_f :: bool
  force_logs :: bool
  console :: "string list"
  stdin_buf :: string
  tty_raw :: bool
  sodium_ready :: bool
  exit_code :: "int option"
  host :: endian
  pad_bytes :: "byte \<times> byte"

text \<open>
  An environment in which every call succeeds at once; concrete examples are built from it.
\<close>

definition fresh_sock :: sock where
  "fresh_sock = \<lparr>rx_chunks = [], tx_bytes = [], send_quota = (\<lambda>_. 65536), send_calls = 0\<rparr>"

definition calm_world :: world where
  "calm_world =
     \<lparr>socks = (\<lambda>_. None), stalled = False, closed = [], bad_closes = [],
      fd_script = (\<lambda>n. int n + 3), sock_script = (\<lambda>_. fresh_sock),
      peer_script = (\<lambda>_. \<lparr>sin_addr = 0x7F000001, sin_port = 40000\<rparr>), fd_calls = 0, net_ok = (\<lambda>_. True), net_calls = 0,
      udp_in = (\<lambda>_. []), udp_out = [], tun_out = [], ifaces = (\<lambda>_. None),
      heap = 0, malloc_ok = (\<lambda>_. True), malloc_calls = 0,
      rng = of_nat, rng_pos = 0,
      files = (\<lambda>_. None), readable = (\<lambda>_. True), writable = (\<lambda>_. True), write_quota = (\<lambda>_. 4096), write_calls = 0,
      home_env = Some ''/root'', pw_dir = Some ''/root'', dirs = [], other_names = (\<lambda>_. False), mkdir_ok = (\<lambda>_. True),
      idle_f = False, force_logs = False, console = [],
      stdin_buf = [], tty_raw = False,
      sodium_ready = False, exit_code = None,
      host = LittleEndian, pad_bytes = (0, 0)\<rparr>"

section \<open>Memory and randomness\<close>

text \<open>
  \<^verbatim>\<open>malloc\<close> and \<^verbatim>\<open>free\<close>: \<open>heap\<close> counts the blocks that are allocated and not yet
  freed. \<^verbatim>\<open>free(NULL)\<close> does nothing.
\<close>

definition sys_malloc :: "world \<Rightarrow> bool \<times> world" where
  "sys_malloc w =
     (let got = malloc_ok w (malloc_calls w)
      in (got, w\<lparr>malloc_calls := Suc (malloc_calls w),
                 heap := heap w + (if got then 1 else 0)\<rparr>))"

definition sys_free :: "bool \<Rightarrow> world \<Rightarrow> world" where
  "sys_free present w = (if present then w\<lparr>heap := heap w - 1\<rparr> else w)"

text \<open>\<^verbatim>\<open>randombytes_buf\<close> draws the next \<open>n\<close> bytes of the entropy the world holds.\<close>

definition rand_bytes :: "nat \<Rightarrow> world \<Rightarrow> bytes" where
  "rand_bytes n w = map (\<lambda>i. rng w (rng_pos w + i)) [0..<n]"

definition sys_random :: "nat \<Rightarrow> world \<Rightarrow> bytes \<times> world" where
  "sys_random n w = (rand_bytes n w, w\<lparr>rng_pos := rng_pos w + n\<rparr>)"

lemma length_rand_bytes [simp, size_simps]: "length (rand_bytes n w) = n"
  by (simp add: rand_bytes_def)

section \<open>Sockets\<close>

definition sys_close :: "int \<Rightarrow> world \<Rightarrow> world" where
  "sys_close fd w =
     (case socks w fd of
        None \<Rightarrow> w\<lparr>bad_closes := bad_closes w @ [fd]\<rparr>
      | Some s \<Rightarrow> w\<lparr>socks := (socks w)(fd := None), closed := closed w @ [fd]\<rparr>)"

lemma socks_close: "socks (sys_close fd w) = (socks w)(fd := None)"
  by (auto simp: sys_close_def split: option.splits)

text \<open>
  One call of \<^verbatim>\<open>send\<close>: the number of bytes taken, 0 for every non-positive return value.
\<close>

definition sys_send :: "int \<Rightarrow> bytes \<Rightarrow> world \<Rightarrow> nat \<times> world" where
  "sys_send fd buf w =
     (case socks w fd of
        None \<Rightarrow> (0, w)
      | Some s \<Rightarrow>
          (let n = min (send_quota s (send_calls s)) (length buf)
           in (n, w\<lparr>socks := (socks w)(fd \<mapsto>
                     s\<lparr>tx_bytes := tx_bytes s @ take n buf, send_calls := Suc (send_calls s)\<rparr>)\<rparr>)))"

text \<open>
  One call of \<^verbatim>\<open>recv\<close> for at most \<open>n\<close> bytes: the bytes delivered, none for every
  non-positive return value. What does not fit stays queued. With nothing queued the call
  waits.
\<close>

fun take_chunk :: "nat \<Rightarrow> bytes list \<Rightarrow> bytes \<times> bytes list" where
  "take_chunk n [] = ([], [])"
| "take_chunk n (c # cs) = (take n c, if length c \<le> n then cs else drop n c # cs)"

definition sys_recv :: "int \<Rightarrow> nat \<Rightarrow> world \<Rightarrow> bytes \<times> world" where
  "sys_recv fd n w =
     (case socks w fd of
        None \<Rightarrow> ([], w)
      | Some s \<Rightarrow>
          (if rx_chunks s = [] then ([], w\<lparr>stalled := True\<rparr>)
           else
             (case take_chunk n (rx_chunks s) of (bs, cs) \<Rightarrow>
                (bs, w\<lparr>socks := (socks w)(fd \<mapsto> s\<lparr>rx_chunks := cs\<rparr>)\<rparr>))))"

lemma length_take_chunk: "length (fst (take_chunk n cs)) \<le> n"
  by (cases cs) auto

lemma length_sys_recv: "length (fst (sys_recv fd n w)) \<le> n"
  using length_take_chunk [of n] by (auto simp: sys_recv_def split: option.split prod.split)
    (metis fst_conv)

text \<open>
  \<^verbatim>\<open>socket\<close> and \<^verbatim>\<open>accept\<close> return the next descriptor of the script, a negative one when
  they fail; what will be received on it is scripted as well. \<^verbatim>\<open>bind\<close>, \<^verbatim>\<open>listen\<close>,
  \<^verbatim>\<open>connect\<close> and \<^verbatim>\<open>setsockopt\<close> take their results from \<open>net_ok\<close>.
\<close>

definition sys_socket :: "world \<Rightarrow> int \<times> world" where
  "sys_socket w =
     (let fd = fd_script w (fd_calls w); s = sock_script w (fd_calls w);
          w = w\<lparr>fd_calls := Suc (fd_calls w)\<rparr>
      in if fd < 0 then (-1, w) else (fd, w\<lparr>socks := (socks w)(fd \<mapsto> s)\<rparr>))"

definition sys_net :: "world \<Rightarrow> bool \<times> world" where
  "sys_net w = (net_ok w (net_calls w), w\<lparr>net_calls := Suc (net_calls w)\<rparr>)"

text \<open>A datagram that is handed to the kernel; the program ignores whether it leaves.\<close>

definition sys_send_datagram :: "int \<Rightarrow> sockaddr_in option \<Rightarrow> bytes \<Rightarrow> world \<Rightarrow> world" where
  "sys_send_datagram fd peer data w = w\<lparr>udp_out := udp_out w @ [(fd, peer, data)]\<rparr>"

text \<open>
  A datagram that has arrived, with its sender: what does not fit the buffer is lost, and an
  empty one stands for every non-positive return value. The same for \<^verbatim>\<open>read\<close> on a TUN
  device, which delivers one packet per call.
\<close>

definition sys_recvfrom :: "int \<Rightarrow> nat \<Rightarrow> world \<Rightarrow> (sockaddr_in \<times> bytes) option \<times> world" where
  "sys_recvfrom fd n w =
     (case udp_in w fd of
        [] \<Rightarrow> (None, w)
      | (from_addr, data) # rest \<Rightarrow>
          (if data = [] then None else Some (from_addr, take n data), w\<lparr>udp_in := (udp_in w)(fd := rest)\<rparr>))"

definition sys_read_packet :: "int \<Rightarrow> nat \<Rightarrow> world \<Rightarrow> bytes \<times> world" where
  "sys_read_packet fd n w =
     (case socks w fd of
        None \<Rightarrow> ([], w)
      | Some s \<Rightarrow>
          (case rx_chunks s of
             [] \<Rightarrow> ([], w)
           | c # cs \<Rightarrow> (take n c, w\<lparr>socks := (socks w)(fd \<mapsto> s\<lparr>rx_chunks := cs\<rparr>)\<rparr>)))"

text \<open>\<^verbatim>\<open>accept\<close> also yields the address of the peer.\<close>

definition sys_accept :: "world \<Rightarrow> int \<times> sockaddr_in \<times> world" where
  "sys_accept w = (case sys_socket w of (fd, w') \<Rightarrow> (fd, peer_script w (fd_calls w), w'))"

text \<open>\<^verbatim>\<open>inet_pton\<close> for IPv4: four decimal octets without leading zeros.\<close>

fun split_dots :: "string \<Rightarrow> string \<times> string list" where
  "split_dots [] = ([], [])"
| "split_dots (c # cs) =
     (case split_dots cs of (w, ws) \<Rightarrow>
        if c = CHR ''.'' then ([], w # ws) else (c # w, ws))"

definition is_digit :: "char \<Rightarrow> bool" where
  "is_digit c = (48 \<le> (of_char c :: nat) \<and> (of_char c :: nat) \<le> 57)"

definition decimal_value :: "string \<Rightarrow> nat" where
  "decimal_value s = foldl (\<lambda>n c. 10 * n + (of_char c - 48)) 0 s"

definition parse_octet :: "string \<Rightarrow> u32 option" where
  "parse_octet s =
     (if s \<noteq> [] \<and> length s \<le> 3 \<and> list_all is_digit s \<and> (length s > 1 \<longrightarrow> hd s \<noteq> CHR ''0'') \<and>
         decimal_value s \<le> 255
      then Some (of_nat (decimal_value s)) else None)"

definition inet_pton :: "string \<Rightarrow> u32 option" where
  "inet_pton s =
     (case map parse_octet (fst (split_dots s) # snd (split_dots s)) of
        [Some a, Some b, Some c, Some d] \<Rightarrow>
          Some (push_bit 24 a + push_bit 16 b + push_bit 8 c + d)
      | _ \<Rightarrow> None)"

text \<open>
  What the program will still read from a socket: everything up to the first call that fails
  or waits.
\<close>

definition stream :: "bytes list \<Rightarrow> bytes" where
  "stream cs = concat (takeWhile (\<lambda>c. c \<noteq> []) cs)"

definition pending :: "int \<Rightarrow> world \<Rightarrow> bytes" where
  "pending fd w = (case socks w fd of None \<Rightarrow> [] | Some s \<Rightarrow> stream (rx_chunks s))"

definition sent_on :: "int \<Rightarrow> world \<Rightarrow> bytes" where
  "sent_on fd w = (case socks w fd of None \<Rightarrow> [] | Some s \<Rightarrow> tx_bytes s)"

text \<open>A socket whose \<^verbatim>\<open>send\<close> calls always make progress.\<close>

definition accepts_data :: "int \<Rightarrow> world \<Rightarrow> bool" where
  "accepts_data fd w = (case socks w fd of None \<Rightarrow> False | Some s \<Rightarrow> (\<forall>i. 0 < send_quota s i))"

lemma take_chunk_stream:
  "0 < n \<Longrightarrow> take_chunk n cs = (bs, cs') \<Longrightarrow> bs \<noteq> [] \<Longrightarrow> stream cs = bs @ stream cs'"
  by (cases cs) (auto simp: stream_def split: if_splits)

lemma take_chunk_stuck: "0 < n \<Longrightarrow> take_chunk n cs = ([], cs') \<Longrightarrow> stream cs = []"
  by (cases cs) (auto simp: stream_def)

section \<open>Files and directories\<close>

text \<open>
  \<^verbatim>\<open>fopen\<close> for reading opens a file that exists and that may be read.
  \<^verbatim>\<open>fopen\<close> for writing creates or truncates the file; a new one is readable by others
  until \<^verbatim>\<open>chmod\<close> restricts it. The program does not look at the result of
  \<^verbatim>\<open>fwrite\<close>: how many bytes the i-th call stores is scripted.
\<close>

definition sys_fopen_rb :: "string \<Rightarrow> world \<Rightarrow> disk_file option" where
  "sys_fopen_rb path w = (if readable w path then files w path else None)"

definition sys_fopen_wb :: "string \<Rightarrow> world \<Rightarrow> bool \<times> world" where
  "sys_fopen_wb path w =
     (if writable w path then
        (True, w\<lparr>files := (files w)(path \<mapsto>
           \<lparr>contents = [],
            owner_only = (case files w path of None \<Rightarrow> False | Some f \<Rightarrow> owner_only f)\<rparr>)\<rparr>)
      else (False, w))"

definition sys_fwrite :: "string \<Rightarrow> bytes \<Rightarrow> world \<Rightarrow> world" where
  "sys_fwrite path buf w =
     w\<lparr>write_calls := Suc (write_calls w),
       files := (files w)(path := map_option
         (\<lambda>f. f\<lparr>contents := contents f @ take (write_quota w (write_calls w)) buf\<rparr>) (files w path))\<rparr>"

definition sys_chmod :: "string \<Rightarrow> world \<Rightarrow> world" where
  "sys_chmod path w =
     w\<lparr>files := (files w)(path := map_option (\<lambda>f. f\<lparr>owner_only := True\<rparr>) (files w path))\<rparr>"

text \<open>
  \<^verbatim>\<open>mkdir\<close> reports that the name exists for a directory, a file, and anything else that has
  the name, such as a symbolic link that leads nowhere.
\<close>

datatype mkdir_result = MkdirCreated | MkdirExists | MkdirFailed

definition name_taken :: "string \<Rightarrow> world \<Rightarrow> bool" where
  "name_taken path w \<longleftrightarrow> path \<in> set (dirs w) \<or> files w path \<noteq> None \<or> other_names w path"

definition sys_mkdir :: "string \<Rightarrow> world \<Rightarrow> mkdir_result \<times> world" where
  "sys_mkdir path w =
     (if name_taken path w then (MkdirExists, w)
      else if mkdir_ok w path then (MkdirCreated, w\<lparr>dirs := path # dirs w\<rparr>)
      else (MkdirFailed, w))"

section \<open>Input and output leave the rest of the world alone\<close>

text \<open>
  \<open>io_frame w w'\<close>: from \<open>w\<close> to \<open>w'\<close> only the contents of open sockets, the allocator
  and the console may have changed; no socket was opened or closed.
\<close>

definition io_frame :: "world \<Rightarrow> world \<Rightarrow> bool" where
  "io_frame w w' \<longleftrightarrow>
     (\<forall>fd. socks w' fd = None \<longleftrightarrow> socks w fd = None) \<and>
     closed w' = closed w \<and> bad_closes w' = bad_closes w \<and>
     fd_script w' = fd_script w \<and> sock_script w' = sock_script w \<and>
     peer_script w' = peer_script w \<and> fd_calls w' = fd_calls w \<and>
     net_ok w' = net_ok w \<and> net_calls w' = net_calls w \<and>
     udp_in w' = udp_in w \<and> udp_out w' = udp_out w \<and> tun_out w' = tun_out w \<and> ifaces w' = ifaces w \<and>
     malloc_ok w' = malloc_ok w \<and> rng w' = rng w \<and> rng_pos w' = rng_pos w \<and>
     files w' = files w \<and> writable w' = writable w \<and>
     write_quota w' = write_quota w \<and> write_calls w' = write_calls w \<and>
     home_env w' = home_env w \<and> pw_dir w' = pw_dir w \<and>
     dirs w' = dirs w \<and> mkdir_ok w' = mkdir_ok w \<and> readable w' = readable w \<and> other_names w' = other_names w \<and>
     idle_f w' = idle_f w \<and> force_logs w' = force_logs w \<and>
     stdin_buf w' = stdin_buf w \<and> tty_raw w' = tty_raw w \<and>
     sodium_ready w' = sodium_ready w \<and> exit_code w' = exit_code w \<and>
     host w' = host w \<and> pad_bytes w' = pad_bytes w"

lemma io_frame_refl [simp, intro]: "io_frame w w"
  by (simp add: io_frame_def)

lemma io_frame_trans [trans]: "io_frame u v \<Longrightarrow> io_frame v w \<Longrightarrow> io_frame u w"
  by (simp add: io_frame_def)

lemma io_frame_rand: "io_frame w w' \<Longrightarrow> rand_bytes n w' = rand_bytes n w"
  by (simp add: io_frame_def rand_bytes_def)

lemma sys_malloc_io: "sys_malloc w = (g, w') \<Longrightarrow> io_frame w w'"
  by (auto simp: sys_malloc_def io_frame_def Let_def)

lemma sys_free_io [simp]: "io_frame w (sys_free b w)"
  by (simp add: sys_free_def io_frame_def)

lemma sys_send_io: "sys_send fd b w = (n, w') \<Longrightarrow> io_frame w w'"
  by (auto simp: sys_send_def io_frame_def Let_def split: option.splits if_splits)

lemma sys_recv_io: "sys_recv fd n w = (b, w') \<Longrightarrow> io_frame w w'"
  by (auto simp: sys_recv_def io_frame_def split: option.splits prod.splits if_splits)

text \<open>
  The weaker frame of operations that also draw random bytes or write files: the entropy,
  the files and the directories may have changed as well.
\<close>

definition env_frame :: "world \<Rightarrow> world \<Rightarrow> bool" where
  "env_frame w w' \<longleftrightarrow>
     (\<forall>fd. socks w' fd = None \<longleftrightarrow> socks w fd = None) \<and>
     closed w' = closed w \<and> bad_closes w' = bad_closes w \<and>
     fd_script w' = fd_script w \<and> sock_script w' = sock_script w \<and>
     peer_script w' = peer_script w \<and> fd_calls w' = fd_calls w \<and>
     net_ok w' = net_ok w \<and> net_calls w' = net_calls w \<and>
     udp_in w' = udp_in w \<and> udp_out w' = udp_out w \<and> tun_out w' = tun_out w \<and> ifaces w' = ifaces w \<and>
     malloc_ok w' = malloc_ok w \<and> rng w' = rng w \<and>
     writable w' = writable w \<and> write_quota w' = write_quota w \<and>
     home_env w' = home_env w \<and> pw_dir w' = pw_dir w \<and> mkdir_ok w' = mkdir_ok w \<and>
     readable w' = readable w \<and> other_names w' = other_names w \<and>
     idle_f w' = idle_f w \<and> force_logs w' = force_logs w \<and>
     stdin_buf w' = stdin_buf w \<and> tty_raw w' = tty_raw w \<and>
     sodium_ready w' = sodium_ready w \<and> exit_code w' = exit_code w \<and>
     host w' = host w \<and> pad_bytes w' = pad_bytes w"

lemma env_frame_refl [simp, intro]: "env_frame w w"
  by (simp add: env_frame_def)

lemma env_frame_trans [trans]: "env_frame u v \<Longrightarrow> env_frame v w \<Longrightarrow> env_frame u w"
  by (simp add: env_frame_def)

lemma io_env_frame: "io_frame w w' \<Longrightarrow> env_frame w w'"
  by (simp add: io_frame_def env_frame_def)

lemma sys_random_env: "sys_random n w = (b, w') \<Longrightarrow> env_frame w w'"
  by (auto simp: sys_random_def env_frame_def)

lemma sys_random_frame:
  assumes "sys_random n w = (b, w')"
  shows "socks w' = socks w" "files w' = files w" "b = rand_bytes n w" "length b = n"
    "console w' = console w" "heap w' = heap w" "dirs w' = dirs w"
  using assms by (auto simp: sys_random_def)

section \<open>Console\<close>

text \<open>\<^verbatim>\<open>getchar\<close>: the next character of the standard input, none at its end.\<close>

definition sys_getchar :: "world \<Rightarrow> char option \<times> world" where
  "sys_getchar w =
     (case stdin_buf w of
        [] \<Rightarrow> (None, w)
      | c # cs \<Rightarrow> (Some c, w\<lparr>stdin_buf := cs\<rparr>))"

definition printf :: "string \<Rightarrow> world \<Rightarrow> world" where
  "printf s w = w\<lparr>console := console w @ [s]\<rparr>"

text \<open>
  \<^verbatim>\<open>fgets\<close> with a buffer of \<open>n\<close> bytes: the characters up to and including the next
  newline, at most \<open>n - 1\<close> of them; none at the end of the input. The callers then cut the
  text at its newline.
\<close>

fun line_of :: "nat \<Rightarrow> string \<Rightarrow> string \<times> string" where
  "line_of 0 cs = ([], cs)"
| "line_of (Suc n) [] = ([], [])"
| "line_of (Suc n) (c # cs) =
     (if c = CHR 0x0A then ([c], cs) else (case line_of n cs of (line, rest) \<Rightarrow> (c # line, rest)))"

definition sys_fgets :: "nat \<Rightarrow> world \<Rightarrow> string option \<times> world" where
  "sys_fgets n w =
     (if stdin_buf w = [] then (None, w)
      else (case line_of (n - 1) (stdin_buf w) of (line, rest) \<Rightarrow> (Some line, w\<lparr>stdin_buf := rest\<rparr>)))"

definition cut_newline :: "string \<Rightarrow> string" where
  "cut_newline s = takeWhile (\<lambda>c. c \<noteq> CHR 0x0A) s"

text \<open>\<^verbatim>\<open>atoi\<close>, on numbers that fit an \<^verbatim>\<open>int\<close>.\<close>

definition atoi :: "string \<Rightarrow> int" where
  "atoi s =
     (let s = dropWhile (\<lambda>c. c \<in> {CHR '' '', CHR 0x09, CHR 0x0A, CHR 0x0B, CHR 0x0C, CHR 0x0D}) s;
          negative = (s \<noteq> [] \<and> hd s = CHR ''-'');
          s = (if s \<noteq> [] \<and> (hd s = CHR ''-'' \<or> hd s = CHR ''+'') then tl s else s);
          n = int (decimal_value (takeWhile is_digit s))
      in if negative then - n else n)"

section \<open>The environment between two steps\<close>

text \<open>
  The environment: input arrives, and what later calls will answer changes. Nothing that the
  program has done or holds is touched. A read that waits may find data now.
\<close>

definition input_change :: "world \<Rightarrow> world \<Rightarrow> bool" where
  "input_change w w' \<longleftrightarrow>
     (\<forall>fd. socks w' fd = None \<longleftrightarrow> socks w fd = None) \<and>
     (stalled w' \<longrightarrow> stalled w) \<and>
     udp_out w' = udp_out w \<and> tun_out w' = tun_out w \<and> closed w' = closed w \<and> bad_closes w' = bad_closes w \<and>
     heap w' = heap w \<and> console w' = console w \<and> files w' = files w \<and> ifaces w' = ifaces w \<and> host w' = host w"

end
