(* ===== verification/Logs.thy ===== *)
theory Logs
  imports World
begin

text \<open>
  The console: \<^verbatim>\<open>src/debug/logs.c\<close> (\<open>log_msg\<close>), \<^verbatim>\<open>src/server/serverinit/idle.c\<close>
  (idle mode, which lets server messages through) and
  \<^verbatim>\<open>src/commands/utility/clear.c\<close>. \<open>log_msg\<close> allocates the formatted message and
  never frees it; \<open>leaked\<close> is the number of live blocks that this does not account for, so
  that the other components can be shown to free what they allocate.
\<close>

section \<open>Formatting and printing (logs.c)\<close>

datatype msg_t = INFO_MSG | SUCCESS_MSG | WARN_MSG | ERROR_MSG

datatype runtime_t = SERVER_RT | CLIENT_RT | OTHER_RT

datatype fmt_arg = FmtString string | FmtUnsigned nat

fun decimal :: "nat \<Rightarrow> string" where
  "decimal n = (if n < 10 then [char_of (48 + n)] else decimal (n div 10) @ [char_of (48 + n mod 10)])"

declare decimal.simps [simp del]

text \<open>The conversions that the messages of the sources use: \<^verbatim>\<open>%s\<close> and \<^verbatim>\<open>%u\<close>.\<close>

fun vsnprintf :: "string \<Rightarrow> fmt_arg list \<Rightarrow> string" where
  "vsnprintf (p # d # cs) (FmtString s # as) =
     (if p = CHR ''%'' \<and> d = CHR ''s'' then s @ vsnprintf cs as
      else p # vsnprintf (d # cs) (FmtString s # as))"
| "vsnprintf (p # d # cs) (FmtUnsigned n # as) =
     (if p = CHR ''%'' \<and> d = CHR ''u'' then decimal n @ vsnprintf cs as
      else p # vsnprintf (d # cs) (FmtUnsigned n # as))"
| "vsnprintf cs as = cs"

lemma vsnprintf_plain [simp]: "vsnprintf cs [] = cs"
  by (cases cs; cases "tl cs") auto

definition ansi :: "string \<Rightarrow> string" where
  "ansi code = CHR 0x1B # CHR ''['' # code @ ''m''"

definition WHITE :: string where "WHITE = ansi ''97''"
definition BLUE :: string where "BLUE = ansi ''94''"
definition GREEN :: string where "GREEN = ansi ''32''"
definition YELLOW :: string where "YELLOW = ansi ''93''"
definition RED :: string where "RED = ansi ''31''"
definition RESET :: string where "RESET = ansi ''0''"

primrec asterisk_color :: "msg_t \<Rightarrow> string" where
  "asterisk_color INFO_MSG = BLUE"
| "asterisk_color SUCCESS_MSG = GREEN"
| "asterisk_color WARN_MSG = YELLOW"
| "asterisk_color ERROR_MSG = RED"

primrec runtime_label :: "runtime_t \<Rightarrow> string" where
  "runtime_label SERVER_RT = ''SERVER''"
| "runtime_label CLIENT_RT = ''CLIENT''"
| "runtime_label OTHER_RT = ''OTHER''"

definition log_line :: "msg_t \<Rightarrow> runtime_t \<Rightarrow> string \<Rightarrow> string" where
  "log_line message_t runtime_t text =
     ''['' @ asterisk_color message_t @ ''*'' @ RESET @ ''] ['' @ runtime_label runtime_t
       @ '']: '' @ text @ [CHR 0x0A]"

definition log_failure :: string where
  "log_failure = CHR 0x27 # ''log_msg'' @ CHR 0x27 # '' failed to format the string''"

definition is_idle :: "world \<Rightarrow> bool" where
  "is_idle w = idle_f w"

definition log_msg :: "msg_t \<Rightarrow> runtime_t \<Rightarrow> string \<Rightarrow> fmt_arg list \<Rightarrow> world \<Rightarrow> world" where
  "log_msg message_t runtime_t message args w =
     (if (runtime_t = SERVER_RT \<or> runtime_t = OTHER_RT) \<and> \<not> is_idle w \<and> \<not> force_logs w then w
      else
        (case sys_malloc w of (got, w) \<Rightarrow>
           if \<not> got then printf log_failure w
           else printf (log_line message_t runtime_t (vsnprintf message args)) w))"

section \<open>What a log call leaves alone\<close>

lemmas log_unfold = log_msg_def sys_malloc_def printf_def Let_def

lemma log_msg_frame [simp, frame_simps]:
  "socks (log_msg m r f as w) = socks w"
  "stalled (log_msg m r f as w) = stalled w"
  "closed (log_msg m r f as w) = closed w"
  "bad_closes (log_msg m r f as w) = bad_closes w"
  "fd_script (log_msg m r f as w) = fd_script w"
  "sock_script (log_msg m r f as w) = sock_script w"
  "peer_script (log_msg m r f as w) = peer_script w"
  "fd_calls (log_msg m r f as w) = fd_calls w"
  "net_ok (log_msg m r f as w) = net_ok w"
  "net_calls (log_msg m r f as w) = net_calls w"
  "udp_in (log_msg m r f as w) = udp_in w"
  "udp_out (log_msg m r f as w) = udp_out w"
  "tun_out (log_msg m r f as w) = tun_out w"
  "ifaces (log_msg m r f as w) = ifaces w"
  "malloc_ok (log_msg m r f as w) = malloc_ok w"
  "rng (log_msg m r f as w) = rng w"
  "rng_pos (log_msg m r f as w) = rng_pos w"
  "files (log_msg m r f as w) = files w"
  "writable (log_msg m r f as w) = writable w"
  "write_quota (log_msg m r f as w) = write_quota w"
  "write_calls (log_msg m r f as w) = write_calls w"
  "home_env (log_msg m r f as w) = home_env w"
  "pw_dir (log_msg m r f as w) = pw_dir w"
  "dirs (log_msg m r f as w) = dirs w"
  "mkdir_ok (log_msg m r f as w) = mkdir_ok w"
  "readable (log_msg m r f as w) = readable w"
  "other_names (log_msg m r f as w) = other_names w"
  "idle_f (log_msg m r f as w) = idle_f w"
  "force_logs (log_msg m r f as w) = force_logs w"
  "stdin_buf (log_msg m r f as w) = stdin_buf w"
  "tty_raw (log_msg m r f as w) = tty_raw w"
  "sodium_ready (log_msg m r f as w) = sodium_ready w"
  "exit_code (log_msg m r f as w) = exit_code w"
  "host (log_msg m r f as w) = host w"
  "pad_bytes (log_msg m r f as w) = pad_bytes w"
  by (simp_all add: log_unfold)

lemma log_msg_streams [simp, frame_simps]:
  "pending fd (log_msg m r f as w) = pending fd w"
  "sent_on fd (log_msg m r f as w) = sent_on fd w"
  "accepts_data fd (log_msg m r f as w) = accepts_data fd w"
  "rand_bytes n (log_msg m r f as w) = rand_bytes n w"
  by (simp_all add: pending_def sent_on_def accepts_data_def rand_bytes_def)

lemma log_msg_io [simp]: "io_frame w (log_msg m r f as w)"
  by (simp add: io_frame_def)

lemma log_msg_silent: "r \<noteq> CLIENT_RT \<Longrightarrow> \<not> idle_f w \<Longrightarrow> \<not> force_logs w \<Longrightarrow> log_msg m r f as w = w"
  by (cases r) (simp_all add: log_msg_def is_idle_def)

text \<open>Lines that \<open>log_msg\<close> printed, and the live blocks beyond one per such line.\<close>

definition is_log_line :: "string \<Rightarrow> bool" where
  "is_log_line s = (s \<noteq> [] \<and> hd s = CHR ''['')"

definition log_lines :: "world \<Rightarrow> nat" where
  "log_lines w = length (filter is_log_line (console w))"

definition leaked :: "world \<Rightarrow> int" where
  "leaked w = heap w - int (log_lines w)"

lemma is_log_line_text [simp]: "is_log_line (log_line m r t)" "\<not> is_log_line log_failure"
  by (simp_all add: is_log_line_def log_line_def log_failure_def)

lemma leaked_log_msg [simp, frame_simps]: "leaked (log_msg m r f as w) = leaked w"
  by (simp add: leaked_def log_lines_def log_unfold)

lemma leaked_malloc: "sys_malloc w = (g, w') \<Longrightarrow> leaked w' = leaked w + (if g then 1 else 0)"
  by (auto simp: sys_malloc_def leaked_def log_lines_def Let_def)

lemma leaked_free: "leaked (sys_free b w) = leaked w - (if b then 1 else 0)"
  by (simp add: sys_free_def leaked_def log_lines_def)

text \<open>
  \<open>log_frame w w'\<close>: nothing but log calls happened between \<open>w\<close> and \<open>w'\<close>.
  \<open>local_frame\<close> is the same for an operation that may also draw random bytes and use the
  file system, but touches no socket.
\<close>

definition log_frame :: "world \<Rightarrow> world \<Rightarrow> bool" where
  "log_frame w w' \<longleftrightarrow> io_frame w w' \<and> socks w' = socks w \<and> stalled w' = stalled w \<and> leaked w' = leaked w"

definition local_frame :: "world \<Rightarrow> world \<Rightarrow> bool" where
  "local_frame w w' \<longleftrightarrow> env_frame w w' \<and> socks w' = socks w \<and> stalled w' = stalled w \<and> leaked w' = leaked w"

lemma log_frame_refl [simp, intro]: "log_frame w w"
  by (simp add: log_frame_def)

lemma local_frame_refl [simp, intro]: "local_frame w w"
  by (simp add: local_frame_def)

lemma log_frame_log_msg [simp, intro]: "log_frame w (log_msg m r f as w)"
  by (simp add: log_frame_def)

lemma log_frame_trans [trans]: "log_frame u v \<Longrightarrow> log_frame v w \<Longrightarrow> log_frame u w"
  by (auto simp: log_frame_def intro: io_frame_trans)

lemma local_frame_trans [trans]: "local_frame u v \<Longrightarrow> local_frame v w \<Longrightarrow> local_frame u w"
  by (auto simp: local_frame_def intro: env_frame_trans)

lemma log_local_frame: "log_frame w w' \<Longrightarrow> local_frame w w'"
  by (simp add: log_frame_def local_frame_def io_env_frame)

lemma local_frame_log_msg [intro]: "local_frame v w \<Longrightarrow> local_frame v (log_msg m r f as w)"
  using local_frame_trans log_local_frame by blast

lemma leaked_cong: "heap w' = heap w \<Longrightarrow> console w' = console w \<Longrightarrow> leaked w' = leaked w"
  by (simp add: leaked_def log_lines_def)

lemma sys_random_local: "sys_random n w = (b, w') \<Longrightarrow> local_frame w w'"
  by (auto simp: local_frame_def leaked_def log_lines_def sys_random_def env_frame_def)

lemma sys_fopen_wb_local: "sys_fopen_wb p w = (r, w') \<Longrightarrow> local_frame w w'"
  by (auto simp: local_frame_def leaked_def log_lines_def sys_fopen_wb_def env_frame_def split: if_splits)

lemma sys_fwrite_local: "local_frame w (sys_fwrite p b w)"
  by (simp add: local_frame_def leaked_def log_lines_def sys_fwrite_def env_frame_def)

lemma sys_chmod_local: "local_frame w (sys_chmod p w)"
  by (simp add: local_frame_def leaked_def log_lines_def sys_chmod_def env_frame_def)

lemma sys_mkdir_local: "sys_mkdir p w = (r, w') \<Longrightarrow> local_frame w w'"
  by (auto simp: local_frame_def leaked_def log_lines_def sys_mkdir_def env_frame_def split: if_splits)

lemma local_frame_streams:
  assumes "local_frame w w'"
  shows "pending fd w' = pending fd w" "sent_on fd w' = sent_on fd w"
    "accepts_data fd w' = accepts_data fd w" "leaked w' = leaked w"
  using assms by (simp_all add: local_frame_def pending_def sent_on_def accepts_data_def)

section \<open>Idle mode (idle.c)\<close>

definition EXIT_KEY :: char where
  "EXIT_KEY = char_of (24 :: nat)"

definition cmd_clear :: "world \<Rightarrow> world" where
  "cmd_clear w = printf (CHR 0x1B # ''[1;1H'' @ CHR 0x1B # ''[2J'') w"

definition enable_raw_mode :: "world \<Rightarrow> bool \<times> world" where
  "enable_raw_mode w = (tty_raw w, w\<lparr>tty_raw := True\<rparr>)"

definition disable_raw_mode :: "bool \<Rightarrow> world \<Rightarrow> world" where
  "disable_raw_mode old w = w\<lparr>tty_raw := old\<rparr>"

text \<open>
  The loop reads characters until the exit key. At the end of the input \<^verbatim>\<open>getchar\<close>
  keeps returning \<^verbatim>\<open>EOF\<close>, so the loop need not end: its result is an option.
\<close>

partial_function (option) idle_loop :: "world \<Rightarrow> world option" where
  "idle_loop w =
     (case sys_getchar w of (c, w') \<Rightarrow>
        if c = Some EXIT_KEY then Some w' else idle_loop w')"

definition idle_mode :: "world \<Rightarrow> world option" where
  "idle_mode w =
     (case enable_raw_mode w of (old, w) \<Rightarrow>
      let w = w\<lparr>idle_f := True\<rparr>;
          w = cmd_clear w;
          w = printf (''C-x to exit'' @ [CHR 0x0A, CHR 0x0A]) w
      in (case idle_loop w of
            None \<Rightarrow> None
          | Some w \<Rightarrow>
              (let w = w\<lparr>idle_f := False\<rparr>;
                   w = disable_raw_mode old w
               in Some (cmd_clear w))))"

end
