(* ===== verification/Packet.thy ===== *)
theory Packet
  imports Logs
begin

text \<open>
  The control protocol's packets, \<^verbatim>\<open>src/shared/packet.h\<close> and
  \<^verbatim>\<open>src/shared/packet.c\<close>: an 8-byte header (payload length in network order, protocol
  version, packet type, two padding bytes) followed by the payload, sent and received over
  a TCP socket that may split the stream anywhere.
\<close>

section \<open>Constants and types (packet.h)\<close>

definition CURRENT_PROTOCOL_VERSION :: byte where
  "CURRENT_PROTOCOL_VERSION = 1"

definition MAX_PACKET_SIZE :: u32 where
  "MAX_PACKET_SIZE = 0x1000000"

datatype packet_header_t =
    PACKET_CLIENT_HELLO
  | PACKET_SERVER_HELLO
  | PACKET_AUTH_REQUEST
  | PACKET_AUTH_RESPONSE
  | PACKET_AUTH_SUCCESS
  | PACKET_AUTH_FAIL
  | PACKET_KEY_EXCHANGE
  | PACKET_KEY_CONFIRM
  | PACKET_PING
  | PACKET_PONG
  | PACKET_TUNNEL_DATA
  | PACKET_DISCONNECT
  | PACKET_ERROR

primrec type_code :: "packet_header_t \<Rightarrow> byte" where
  "type_code PACKET_CLIENT_HELLO = 0"
| "type_code PACKET_SERVER_HELLO = 1"
| "type_code PACKET_AUTH_REQUEST = 2"
| "type_code PACKET_AUTH_RESPONSE = 3"
| "type_code PACKET_AUTH_SUCCESS = 4"
| "type_code PACKET_AUTH_FAIL = 5"
| "type_code PACKET_KEY_EXCHANGE = 6"
| "type_code PACKET_KEY_CONFIRM = 7"
| "type_code PACKET_PING = 8"
| "type_code PACKET_PONG = 9"
| "type_code PACKET_TUNNEL_DATA = 10"
| "type_code PACKET_DISCONNECT = 11"
| "type_code PACKET_ERROR = 12"

lemma type_code_inject [simp]: "type_code s = type_code t \<longleftrightarrow> s = t"
  by (cases s; cases t) simp_all

text \<open>The enumeration is ordered as C orders it, by its values.\<close>

instantiation packet_header_t :: linorder
begin

definition less_eq_packet_header_t :: "packet_header_t \<Rightarrow> packet_header_t \<Rightarrow> bool" where
  "less_eq_packet_header_t s t \<longleftrightarrow> type_code s \<le> type_code t"

definition less_packet_header_t :: "packet_header_t \<Rightarrow> packet_header_t \<Rightarrow> bool" where
  "less_packet_header_t s t \<longleftrightarrow> type_code s < type_code t"

instance
  by intro_classes (auto simp: less_eq_packet_header_t_def less_packet_header_t_def order_less_le)

end

lemma packet_type_le_error: "t \<le> PACKET_ERROR"
  by (cases t) (simp_all add: less_eq_packet_header_t_def)

lemma type_code_le [simp]: "type_code t \<le> type_code PACKET_ERROR"
  using packet_type_le_error [of t] by (simp add: less_eq_packet_header_t_def)

record packet_header =
  payload_length :: u32
  version :: byte
  ptype :: byte

record packet =
  payload :: "bytes option"
  header :: packet_header

record packet_constructor_t =
  c_payload :: "bytes option"
  c_payload_length :: u32
  header_type :: packet_header_t
  header_version :: byte

definition empty_packet :: packet where
  "empty_packet = \<lparr>payload = None, header = \<lparr>payload_length = 0, version = 0, ptype = 0\<rparr>\<rparr>"

definition payload_bytes :: "packet \<Rightarrow> bytes" where
  "payload_bytes p = (case payload p of None \<Rightarrow> [] | Some b \<Rightarrow> b)"

section \<open>Socket loops\<close>

text \<open>
  \<^verbatim>\<open>send_all\<close> and \<^verbatim>\<open>recv_all\<close>: the loops end because every pass that does not fail
  moves at least one byte.
\<close>

function send_loop :: "int \<Rightarrow> bytes \<Rightarrow> nat \<Rightarrow> nat \<Rightarrow> world \<Rightarrow> rc \<times> world" where
  "send_loop sock_fd buffer len total_sent w =
     (if total_sent < len then
        (case sys_send sock_fd (take (len - total_sent) (drop total_sent buffer)) w of (sent, w) \<Rightarrow>
           if sent = 0 then (-1, w)
           else send_loop sock_fd buffer len (total_sent + sent) w)
      else (0, w))"
  by pat_completeness auto
termination
  by (relation "measure (\<lambda>(sock_fd, buffer, len, total_sent, w). len - total_sent)") auto

declare send_loop.simps [simp del]

definition send_all :: "int \<Rightarrow> bytes \<Rightarrow> nat \<Rightarrow> world \<Rightarrow> rc \<times> world" where
  "send_all sock_fd buffer len w = send_loop sock_fd buffer len 0 w"

function recv_loop :: "int \<Rightarrow> nat \<Rightarrow> bytes \<Rightarrow> world \<Rightarrow> bytes option \<times> world" where
  "recv_loop sock_fd len got w =
     (if length got < len then
        (case sys_recv sock_fd (len - length got) w of (bs, w) \<Rightarrow>
           if bs = [] then (None, w)
           else recv_loop sock_fd len (got @ bs) w)
      else (Some got, w))"
  by pat_completeness auto
termination
  by (relation "measure (\<lambda>(sock_fd, len, got, w). len - length got)") (auto intro!: diff_less_mono2)

declare recv_loop.simps [simp del]

text \<open>\<open>None\<close> is the return value -1; on success the buffer is full.\<close>

definition recv_all :: "int \<Rightarrow> nat \<Rightarrow> world \<Rightarrow> bytes option \<times> world" where
  "recv_all sock_fd len w = recv_loop sock_fd len [] w"

section \<open>Packets (packet.c)\<close>

text \<open>
  The object representation of \<^verbatim>\<open>PACKET_HEADER\<close>, as the socket calls copy it: 8 bytes,
  the last two of them padding.
\<close>

definition PACKET_HEADER_SIZE :: nat where
  "PACKET_HEADER_SIZE = 8"

definition header_mem :: "endian \<Rightarrow> byte \<times> byte \<Rightarrow> packet_header \<Rightarrow> bytes" where
  "header_mem e pad h =
     mem_bytes e 4 (payload_length h) @ [version h, ptype h, fst pad, snd pad]"

definition header_of_mem :: "endian \<Rightarrow> bytes \<Rightarrow> packet_header" where
  "header_of_mem e bs =
     \<lparr>payload_length = mem_word e (take 4 bs), version = bs ! 4, ptype = bs ! 5\<rparr>"

definition packet_init :: packet where
  "packet_init = empty_packet"

definition packet_destroy :: "packet \<Rightarrow> world \<Rightarrow> packet \<times> world" where
  "packet_destroy p w = (empty_packet, sys_free (payload p \<noteq> None) w)"

definition packet_send :: "int \<Rightarrow> packet \<Rightarrow> world \<Rightarrow> rc \<times> world" where
  "packet_send sock_fd p w =
     (let hdr = (header p)\<lparr>payload_length := htonl (host w) (payload_length (header p))\<rparr>;
          len = payload_length (header p)
      in if len > MAX_PACKET_SIZE then
           (1, log_msg ERROR_MSG OTHER_RT ''Packet exceeds maximum size, aborting...'' [] w)
         else
           (case send_all sock_fd (header_mem (host w) (pad_bytes w) hdr) PACKET_HEADER_SIZE w of (r, w) \<Rightarrow>
              if r < 0 then
                (1, log_msg ERROR_MSG OTHER_RT ''Failed to send packet, aborting...'' [] w)
              else if len > 0 then
                (case send_all sock_fd (payload_bytes p) (unat len) w of (r, w) \<Rightarrow>
                   if r < 0 then
                     (1, log_msg ERROR_MSG OTHER_RT ''Failed to send packet payload, aborting...'' [] w)
                   else (0, w))
              else (0, w)))"

text \<open>
  When the body cannot be read, the buffer is freed with whatever it holds; its contents are
  never looked at, so the model fills it with zeros.
\<close>

definition packet_receive :: "int \<Rightarrow> packet \<Rightarrow> world \<Rightarrow> rc \<times> packet \<times> world" where
  "packet_receive sock_fd p w =
     (case packet_destroy p w of (p, w) \<Rightarrow>
      case recv_all sock_fd PACKET_HEADER_SIZE w of
        (None, w) \<Rightarrow>
          (1, p, log_msg ERROR_MSG OTHER_RT ''Failed to receive packet, aborting...'' [] w)
      | (Some hb, w) \<Rightarrow>
          (let raw = header_of_mem (host w) hb;
               p = p\<lparr>header := raw\<lparr>payload_length := ntohl (host w) (payload_length raw)\<rparr>\<rparr>;
               len = payload_length (header p)
           in if version (header p) \<noteq> CURRENT_PROTOCOL_VERSION then
                (case packet_destroy p (log_msg ERROR_MSG OTHER_RT ''Unsupported protocol version'' [] w) of
                   (p, w) \<Rightarrow> (1, p, w))
              else if ptype (header p) > type_code PACKET_ERROR then
                (case packet_destroy p (log_msg ERROR_MSG OTHER_RT ''Invalid packet type'' [] w) of
                   (p, w) \<Rightarrow> (1, p, w))
              else if len > MAX_PACKET_SIZE then
                (1, p, log_msg ERROR_MSG OTHER_RT ''Packet exceeds maximum size, aborting...'' [] w)
              else if len > 0 then
                (case sys_malloc w of (got, w) \<Rightarrow>
                   if \<not> got then
                     (1, p, log_msg ERROR_MSG OTHER_RT ''Payload is NULL'' [] w)
                   else
                     (case recv_all sock_fd (unat len) w of
                        (None, w) \<Rightarrow>
                          (let p = p\<lparr>payload := Some (zeros (unat len))\<rparr>;
                               w = log_msg ERROR_MSG OTHER_RT
                                     ''Failed to receive packet payload, aborting...'' [] w
                           in (case packet_destroy p w of (p, w) \<Rightarrow> (1, p, w)))
                      | (Some body, w) \<Rightarrow> (0, p\<lparr>payload := Some body\<rparr>, w)))
              else (0, p, w)))"

definition packet_construct :: "packet_constructor_t \<Rightarrow> world \<Rightarrow> packet \<times> world" where
  "packet_construct data w =
     (let p = packet_init\<lparr>header := \<lparr>payload_length = c_payload_length data,
                version = header_version data, ptype = type_code (header_type data)\<rparr>\<rparr>
      in if c_payload_length data > 0 then
           (case sys_malloc w of (got, w) \<Rightarrow>
              if \<not> got then
                (p\<lparr>header := (header p)\<lparr>payload_length := 0\<rparr>\<rparr>,
                 log_msg WARN_MSG OTHER_RT ''Failed to allocate packet payload'' [] w)
              else
                (p\<lparr>payload := Some (take (unat (c_payload_length data))
                     (case c_payload data of None \<Rightarrow> [] | Some b \<Rightarrow> b))\<rparr>, w))
         else (p, w))"

section \<open>The socket loops are a byte stream\<close>

text \<open>
  One call of \<^verbatim>\<open>recv\<close> or \<^verbatim>\<open>send\<close>, seen from the stream.
\<close>

lemma sys_recv_step:
  assumes "sys_recv fd n w = (bs, w')" and "0 < n"
  shows "length bs \<le> n \<and> (if bs = [] then pending fd w = [] else pending fd w = bs @ pending fd w')"
proof (cases "socks w fd")
  case None
  with assms show ?thesis by (simp add: sys_recv_def pending_def)
next
  case (Some s)
  obtain b cs where tc: "take_chunk n (rx_chunks s) = (b, cs)" by force
  show ?thesis
  proof (cases "rx_chunks s = []")
    case True
    with assms Some show ?thesis by (auto simp: sys_recv_def pending_def stream_def)
  next
    case False
  with assms Some tc have eq: "b = bs" "w' = w\<lparr>socks := (socks w)(fd \<mapsto> s\<lparr>rx_chunks := cs\<rparr>)\<rparr>"
    by (auto simp: sys_recv_def)
  have "length bs \<le> n"
    using length_take_chunk [of n "rx_chunks s"] tc eq by simp
  with Some eq tc take_chunk_stream [OF assms(2) tc] take_chunk_stuck [of n "rx_chunks s" cs] assms(2)
  show ?thesis by (simp add: pending_def)
  qed
qed

text \<open>
  When a read waits: the stream is open, that is, it has not ended in a call that fails, and
  what has arrived is used up.
\<close>

definition stream_open :: "int \<Rightarrow> world \<Rightarrow> bool" where
  "stream_open fd w = (case socks w fd of None \<Rightarrow> False | Some s \<Rightarrow> [] \<notin> set (rx_chunks s))"

lemma sys_recv_wait:
  assumes "sys_recv fd n w = (bs, w')" and "0 < n"
  shows "stalled w' \<longleftrightarrow> stalled w \<or> (bs = [] \<and> stream_open fd w)"
    "bs \<noteq> [] \<Longrightarrow> stream_open fd w' = stream_open fd w"
proof (atomize (full), cases "socks w fd")
  case (Some s)
  show "(stalled w' \<longleftrightarrow> stalled w \<or> (bs = [] \<and> stream_open fd w)) \<and>
      (bs \<noteq> [] \<longrightarrow> stream_open fd w' = stream_open fd w)"
    using assms Some by (cases "rx_chunks s") (auto simp: sys_recv_def stream_open_def split: if_splits)
qed (use assms in \<open>auto simp: sys_recv_def stream_open_def\<close>)

lemma sys_recv_out:
  assumes "sys_recv fd n w = (bs, w')"
  shows "sent_on fd' w' = sent_on fd' w" "accepts_data fd' w' = accepts_data fd' w"
    "leaked w' = leaked w" "fd' \<noteq> fd \<Longrightarrow> socks w' fd' = socks w fd'"
  using assms
  by (auto simp: sys_recv_def sent_on_def accepts_data_def leaked_def log_lines_def
      split: option.splits prod.splits if_splits)

lemma sys_send_step:
  assumes "sys_send fd buf w = (n, w')"
  shows "n \<le> length buf" "sent_on fd w' = sent_on fd w @ take n buf"
    "accepts_data fd w \<Longrightarrow> buf \<noteq> [] \<Longrightarrow> 0 < n"
  using assms
  by (auto simp: sys_send_def sent_on_def accepts_data_def Let_def split: option.splits)

lemma sys_send_out:
  assumes "sys_send fd buf w = (n, w')"
  shows "pending fd' w' = pending fd' w" "accepts_data fd' w' = accepts_data fd' w"
    "leaked w' = leaked w" "fd' \<noteq> fd \<Longrightarrow> socks w' fd' = socks w fd'"
  using assms
  by (auto simp: sys_send_def pending_def accepts_data_def leaked_def log_lines_def Let_def
      split: option.splits if_splits)

text \<open>The loops, by computation induction.\<close>

lemma recv_loop_frame:
  "recv_loop fd n got w = (r, w') \<Longrightarrow>
   io_frame w w' \<and> leaked w' = leaked w \<and> sent_on fd' w' = sent_on fd' w \<and>
   accepts_data fd' w' = accepts_data fd' w \<and> (fd' \<noteq> fd \<longrightarrow> socks w' fd' = socks w fd')"
proof (induction fd n got w rule: recv_loop.induct)
  case (1 fd n got w)
  show ?case
  proof (cases "length got < n")
    case True
    obtain bs w1 where rc: "sys_recv fd (n - length got) w = (bs, w1)" by force
    note step = sys_recv_io [OF rc] sys_recv_out [OF rc]
    show ?thesis
    proof (cases "bs = []")
      case True
      with "1.prems" \<open>length got < n\<close> rc step show ?thesis
        by (simp add: recv_loop.simps [of fd n got w])
    next
      case False
      with "1.prems" \<open>length got < n\<close> rc have "recv_loop fd n (got @ bs) w1 = (r, w')"
        by (simp add: recv_loop.simps [of fd n got w])
      from "1.IH" [OF True rc [symmetric] False this] step show ?thesis
        by (auto intro: io_frame_trans)
    qed
  next
    case False
    with "1.prems" show ?thesis by (simp add: recv_loop.simps [of fd n got w])
  qed
qed

lemma recv_loop_stream:
  "recv_loop fd n got w = (r, w') \<Longrightarrow> length got \<le> n \<Longrightarrow>
   (if n - length got \<le> length (pending fd w)
    then r = Some (got @ take (n - length got) (pending fd w)) \<and>
         pending fd w' = drop (n - length got) (pending fd w)
    else r = None)"
proof (induction fd n got w rule: recv_loop.induct)
  case (1 fd n got w)
  show ?case
  proof (cases "length got < n")
    case True
    obtain bs w1 where rc: "sys_recv fd (n - length got) w = (bs, w1)" by force
    from sys_recv_step [OF rc] True
    have step: "length bs \<le> n - length got"
      "if bs = [] then pending fd w = [] else pending fd w = bs @ pending fd w1" by auto
    show ?thesis
    proof (cases "bs = []")
      case True
      with "1.prems" \<open>length got < n\<close> rc step show ?thesis
        by (simp add: recv_loop.simps [of fd n got w])
    next
      case False
      with "1.prems" \<open>length got < n\<close> rc have "recv_loop fd n (got @ bs) w1 = (r, w')"
        by (simp add: recv_loop.simps [of fd n got w])
      moreover have "length (got @ bs) \<le> n" using step(1) True by simp
      ultimately have "if n - length (got @ bs) \<le> length (pending fd w1)
         then r = Some ((got @ bs) @ take (n - length (got @ bs)) (pending fd w1)) \<and>
              pending fd w' = drop (n - length (got @ bs)) (pending fd w1)
         else r = None"
        by (rule "1.IH" [OF True rc [symmetric] False])
      with step False True show ?thesis
        by (auto split: if_splits)
    qed
  next
    case False
    with "1.prems" show ?thesis by (simp add: recv_loop.simps [of fd n got w])
  qed
qed

text \<open>The loop waits when it runs out of data on an open stream, and only then.\<close>

lemma recv_loop_wait:
  "recv_loop fd n got w = (r, w') \<Longrightarrow>
   (stalled w' \<longleftrightarrow> stalled w \<or> (r = None \<and> stream_open fd w)) \<and>
   (r \<noteq> None \<longrightarrow> stream_open fd w' = stream_open fd w)"
proof (induction fd n got w rule: recv_loop.induct)
  case (1 fd n got w)
  show ?case
  proof (cases "length got < n")
    case True
    obtain bs w1 where rc: "sys_recv fd (n - length got) w = (bs, w1)" by force
    from True have "0 < n - length got" by simp
    note wait = sys_recv_wait [OF rc this]
    show ?thesis
    proof (cases "bs = []")
      case True
      with "1.prems" \<open>length got < n\<close> rc wait(1) show ?thesis
        by (auto simp: recv_loop.simps [of fd n got w])
    next
      case False
      with "1.prems" \<open>length got < n\<close> rc have "recv_loop fd n (got @ bs) w1 = (r, w')"
        by (simp add: recv_loop.simps [of fd n got w])
      from "1.IH" [OF True rc [symmetric] False this] wait False show ?thesis by simp
    qed
  next
    case False
    with "1.prems" show ?thesis by (auto simp: recv_loop.simps [of fd n got w])
  qed
qed

lemma send_loop_frame:
  "send_loop fd buf n k w = (r, w') \<Longrightarrow>
   io_frame w w' \<and> leaked w' = leaked w \<and> pending fd' w' = pending fd' w \<and>
   accepts_data fd' w' = accepts_data fd' w \<and> (fd' \<noteq> fd \<longrightarrow> socks w' fd' = socks w fd')"
proof (induction fd buf n k w rule: send_loop.induct)
  case (1 fd buf n k w)
  show ?case
  proof (cases "k < n")
    case True
    obtain j w1 where sd: "sys_send fd (take (n - k) (drop k buf)) w = (j, w1)" by force
    note step = sys_send_io [OF sd] sys_send_out [OF sd]
    show ?thesis
    proof (cases "j = 0")
      case True
      with "1.prems" \<open>k < n\<close> sd step show ?thesis
        by (simp add: send_loop.simps [of fd buf n k w])
    next
      case False
      with "1.prems" \<open>k < n\<close> sd have "send_loop fd buf n (k + j) w1 = (r, w')"
        by (simp add: send_loop.simps [of fd buf n k w])
      from "1.IH" [OF True sd [symmetric] False this] step show ?thesis
        by (auto intro: io_frame_trans)
    qed
  next
    case False
    with "1.prems" show ?thesis by (simp add: send_loop.simps [of fd buf n k w])
  qed
qed

lemma send_loop_stream:
  "send_loop fd buf n k w = (r, w') \<Longrightarrow> k \<le> n \<Longrightarrow> n \<le> length buf \<Longrightarrow>
   (\<exists>j. k \<le> j \<and> j \<le> n \<and> sent_on fd w' = sent_on fd w @ take (j - k) (drop k buf) \<and> (r = 0 \<longrightarrow> j = n)) \<and>
   (r = 0 \<or> r = -1) \<and> (accepts_data fd w \<longrightarrow> r = 0)"
proof (induction fd buf n k w rule: send_loop.induct)
  case (1 fd buf n k w)
  show ?case
  proof (cases "k < n")
    case True
    let ?b = "take (n - k) (drop k buf)"
    obtain i w1 where sd: "sys_send fd ?b w = (i, w1)" by force
    have i: "i \<le> n - k" "sent_on fd w1 = sent_on fd w @ take i (drop k buf)"
      "accepts_data fd w \<Longrightarrow> 0 < i" "accepts_data fd w1 = accepts_data fd w"
      using sys_send_step [OF sd] sys_send_out [OF sd] True "1.prems"(3) by (auto simp: min_def split: if_splits)
    show ?thesis
    proof (cases "i = 0")
      case True
      with "1.prems" \<open>k < n\<close> sd i show ?thesis
        by (auto simp: send_loop.simps [of fd buf n k w])
    next
      case False
      with "1.prems" True sd have sl: "send_loop fd buf n (k + i) w1 = (r, w')"
        by (simp add: send_loop.simps [of fd buf n k w])
      have "k + i \<le> n" using i(1) True by simp
      from "1.IH" [OF True sd [symmetric] False sl this "1.prems"(3)] obtain j where
        j: "k + i \<le> j" "j \<le> n" "sent_on fd w' = sent_on fd w1 @ take (j - (k + i)) (drop (k + i) buf)"
          "r = 0 \<longrightarrow> j = n" and r: "r = 0 \<or> r = -1" "accepts_data fd w1 \<longrightarrow> r = 0"
        by auto
      have "take i (drop k buf) @ take (j - (k + i)) (drop (k + i) buf) = take (j - k) (drop k buf)"
        using j(1) take_add [of i "j - (k + i)" "drop k buf"] by (simp add: add.commute)
      with i(2) j(3) have "sent_on fd w' = sent_on fd w @ take (j - k) (drop k buf)" by simp
      with j r i(4) show ?thesis by (intro conjI exI [of _ j]) auto
    qed
  next
    case False
    with "1.prems" show ?thesis
      by (auto simp: send_loop.simps [of fd buf n k w] intro!: exI [of _ n])
  qed
qed

lemma send_all_frame:
  assumes "send_all fd buf n w = (r, w')"
  shows "io_frame w w'" "leaked w' = leaked w" "pending fd' w' = pending fd' w"
    "accepts_data fd' w' = accepts_data fd' w" "fd' \<noteq> fd \<Longrightarrow> socks w' fd' = socks w fd'"
  using send_loop_frame [of fd buf n 0 w r w' fd'] assms by (auto simp: send_all_def)

lemma send_all_result:
  assumes "send_all fd buf n w = (r, w')" and "n \<le> length buf"
  shows "(\<exists>j \<le> n. sent_on fd w' = sent_on fd w @ take j buf \<and> (r = 0 \<longrightarrow> j = n))"
    "r = 0 \<or> r = -1" "accepts_data fd w \<Longrightarrow> r = 0"
  using send_loop_stream [of fd buf n 0 w r w'] assms by (auto simp: send_all_def)

lemma recv_all_frame:
  assumes "recv_all fd n w = (r, w')"
  shows "io_frame w w'" "leaked w' = leaked w" "sent_on fd' w' = sent_on fd' w"
    "accepts_data fd' w' = accepts_data fd' w" "fd' \<noteq> fd \<Longrightarrow> socks w' fd' = socks w fd'"
  using recv_loop_frame [of fd n "[]" w r w' fd'] assms by (auto simp: recv_all_def)

lemma recv_all_wait:
  assumes "recv_all fd n w = (r, w')"
  shows "stalled w' \<longleftrightarrow> stalled w \<or> (r = None \<and> stream_open fd w)"
    "r \<noteq> None \<Longrightarrow> stream_open fd w' = stream_open fd w"
  using recv_loop_wait [of fd n "[]" w r w'] assms by (simp_all add: recv_all_def)

interpretation sock_in: byte_reader "recv_all fd" "pending fd" for fd
proof
  fix n w r w'
  assume "recv_all fd n w = (r, w')"
  note st = recv_loop_stream [OF this [unfolded recv_all_def]]
  show "n \<le> length (pending fd w) \<Longrightarrow> r = Some (take n (pending fd w)) \<and> pending fd w' = drop n (pending fd w)"
    and "length (pending fd w) < n \<Longrightarrow> r = None"
    using st by auto
qed

interpretation sock_out: byte_writer "\<lambda>b. send_all fd b (length b)" "sent_on fd" "accepts_data fd" for fd
proof
  fix w b r w'
  assume sa: "send_all fd b (length b) w = (r, w')"
  note res = send_all_result [OF sa order_refl] and fr = send_all_frame [OF sa]
  show "(\<exists>k \<le> length b. sent_on fd w' = sent_on fd w @ take k b \<and> (r = 0 \<longrightarrow> k = length b)) \<and> (r = 0 \<or> r = -1)"
    using res by blast
  show "accepts_data fd w \<Longrightarrow> r = 0 \<and> accepts_data fd w' \<and> sent_on fd w' = sent_on fd w @ b"
    using res fr by auto
qed

section \<open>The wire format\<close>

definition wire_header :: "byte \<times> byte \<Rightarrow> packet_header \<Rightarrow> bytes" where
  "wire_header pad h = bytes_be 4 (payload_length h) @ [version h, ptype h, fst pad, snd pad]"

definition parse_header :: "endian \<Rightarrow> bytes \<Rightarrow> packet_header" where
  "parse_header e bs =
     (let raw = header_of_mem e bs
      in raw\<lparr>payload_length := ntohl e (payload_length raw)\<rparr>)"

definition wire_packet :: "byte \<times> byte \<Rightarrow> packet \<Rightarrow> bytes" where
  "wire_packet pad p = wire_header pad (header p) @ payload_bytes p"

text \<open>What the sender writes does not depend on its byte order.\<close>

lemma header_mem_wire:
  "header_mem e pad (h\<lparr>payload_length := htonl e (payload_length h)\<rparr>) = wire_header pad h"
  by (simp add: header_mem_def wire_header_def mem_bytes_to_be)

lemma length_wire_header [simp, size_simps]: "length (wire_header pad h) = PACKET_HEADER_SIZE"
  by (simp add: wire_header_def PACKET_HEADER_SIZE_def)

lemma parse_wire_header: "parse_header e (wire_header pad h) = h"
  by (simp add: parse_header_def header_of_mem_def wire_header_def Let_def to_be_mem_word
      word_be_bytes_be nth_append)

interpretation hdr: fixed_codec "wire_header pad" "parse_header e" PACKET_HEADER_SIZE "\<lambda>_. True"
  for pad e
  by unfold_locales (simp_all add: parse_wire_header)

interpretation hdr_in: framed_reader "recv_all fd" "pending fd" "wire_header pad" "parse_header e"
  PACKET_HEADER_SIZE "\<lambda>_. True" for fd pad e
  by unfold_locales

text \<open>
  Any 8 bytes are the encoding of the header read from them, with some padding.
\<close>

lemma wire_parse_header:
  assumes "length bs = PACKET_HEADER_SIZE"
  shows "wire_header (bs ! 6, bs ! 7) (parse_header e bs) = bs"
proof -
  have "bs = take 4 bs @ [bs ! 4, bs ! 5, bs ! 6, bs ! 7]"
    using assms unfolding PACKET_HEADER_SIZE_def
    by (intro nth_equalityI) (auto simp: nth_append less_Suc_eq numeral_eq_Suc)
  then show ?thesis
    using assms
    by (simp add: wire_header_def parse_header_def header_of_mem_def Let_def to_be_mem_word
        bytes_be_word_be PACKET_HEADER_SIZE_def)
qed

text \<open>
  A packet whose payload has the length its header states, and one the receiver accepts.
\<close>

definition wf_packet :: "packet \<Rightarrow> bool" where
  "wf_packet p \<longleftrightarrow>
     (payload p = None \<longleftrightarrow> payload_length (header p) = 0) \<and>
     length (payload_bytes p) = unat (payload_length (header p))"

definition acceptable :: "packet \<Rightarrow> bool" where
  "acceptable p \<longleftrightarrow>
     wf_packet p \<and> version (header p) = CURRENT_PROTOCOL_VERSION \<and>
     ptype (header p) \<le> type_code PACKET_ERROR \<and> payload_length (header p) \<le> MAX_PACKET_SIZE"

definition blocks :: "packet \<Rightarrow> int" where
  "blocks p = (if payload p = None then 0 else 1)"

lemma blocks_empty [simp]: "blocks empty_packet = 0" "payload empty_packet = None"
  by (simp_all add: blocks_def empty_packet_def)

section \<open>Sending a packet\<close>

lemma packet_send_unfold:
  "packet_send fd p w =
     (if payload_length (header p) > MAX_PACKET_SIZE then
        (1, log_msg ERROR_MSG OTHER_RT ''Packet exceeds maximum size, aborting...'' [] w)
      else
        (case send_all fd (wire_header (pad_bytes w) (header p)) PACKET_HEADER_SIZE w of (r, w) \<Rightarrow>
           if r < 0 then (1, log_msg ERROR_MSG OTHER_RT ''Failed to send packet, aborting...'' [] w)
           else if payload_length (header p) > 0 then
             (case send_all fd (payload_bytes p) (unat (payload_length (header p))) w of (r, w) \<Rightarrow>
                if r < 0 then
                  (1, log_msg ERROR_MSG OTHER_RT ''Failed to send packet payload, aborting...'' [] w)
                else (0, w))
           else (0, w)))"
  by (simp add: packet_send_def Let_def header_mem_wire)

lemma packet_send_frame:
  assumes "packet_send fd p w = (r, w')"
  shows "io_frame w w'" "leaked w' = leaked w" "pending fd' w' = pending fd' w"
    "accepts_data fd' w' = accepts_data fd' w" "fd' \<noteq> fd \<Longrightarrow> socks w' fd' = socks w fd'"
proof -
  obtain r1 w1 where s1: "send_all fd (wire_header (pad_bytes w) (header p)) PACKET_HEADER_SIZE w = (r1, w1)"
    by force
  obtain r2 w2 where s2: "send_all fd (payload_bytes p) (unat (payload_length (header p))) w1 = (r2, w2)"
    by force
  note f1 = send_all_frame(1,2) [OF s1] send_all_frame(3-5) [OF s1, of fd']
    and f2 = send_all_frame(1,2) [OF s2] send_all_frame(3-5) [OF s2, of fd']
  have io: "io_frame w w2" by (rule io_frame_trans [OF f1(1) f2(1)])
  have "\<exists>v \<in> {w, w1, w2}. w' = v \<or> (\<exists>m. w' = log_msg ERROR_MSG OTHER_RT m [] v)"
    using assms s1 s2 by (auto simp: packet_send_unfold split: if_splits)
  then show "io_frame w w'" "leaked w' = leaked w" "pending fd' w' = pending fd' w"
    "accepts_data fd' w' = accepts_data fd' w" "fd' \<noteq> fd \<Longrightarrow> socks w' fd' = socks w fd'"
    using f1 f2 io by (auto intro: io_frame_trans [OF _ log_msg_io])
qed

lemma packet_send_rc: "packet_send fd p w = (r, w') \<Longrightarrow> r = 0 \<or> r = 1"
  by (auto simp: packet_send_unfold split: if_splits prod.splits)

lemma packet_send_oversize:
  assumes "MAX_PACKET_SIZE < payload_length (header p)"
  shows "fst (packet_send fd p w) = 1" "sent_on fd (snd (packet_send fd p w)) = sent_on fd w"
  using assms by (simp_all add: packet_send_unfold)

text \<open>Whatever happens, what was sent is a prefix of the encoding; on success, all of it.\<close>

lemma packet_send_prefix:
  assumes snd: "packet_send fd p w = (r, w')" and wf: "wf_packet p"
  shows "\<exists>k \<le> length (wire_packet (pad_bytes w) p).
    sent_on fd w' = sent_on fd w @ take k (wire_packet (pad_bytes w) p) \<and>
    (r = 0 \<longrightarrow> k = length (wire_packet (pad_bytes w) p))"
proof (cases "payload_length (header p) > MAX_PACKET_SIZE")
  case True
  with snd show ?thesis by (auto simp: packet_send_unfold)
next
  case False
  let ?h = "wire_header (pad_bytes w) (header p)"
  obtain r1 w1 where s1: "send_all fd ?h PACKET_HEADER_SIZE w = (r1, w1)" by force
  obtain k1 where k1: "k1 \<le> PACKET_HEADER_SIZE" "sent_on fd w1 = sent_on fd w @ take k1 ?h"
      "r1 = 0 \<longrightarrow> k1 = PACKET_HEADER_SIZE" and r1: "r1 = 0 \<or> r1 = -1"
    using send_all_result [OF s1] by auto
  obtain r2 w2 where s2: "send_all fd (payload_bytes p) (unat (payload_length (header p))) w1 = (r2, w2)"
    by force
  have len: "unat (payload_length (header p)) = length (payload_bytes p)"
    using wf by (simp add: wf_packet_def)
  obtain k2 where k2: "k2 \<le> length (payload_bytes p)" "sent_on fd w2 = sent_on fd w1 @ take k2 (payload_bytes p)"
      "r2 = 0 \<longrightarrow> k2 = length (payload_bytes p)" and r2: "r2 = 0 \<or> r2 = -1"
    using send_all_result [OF s2] len by auto
  consider (header_fails) "r1 = -1" | (no_payload) "r1 = 0" "payload_length (header p) = 0"
    | (payload) "r1 = 0" "payload_length (header p) > 0"
    using r1 by (auto simp: word_neq_0_conv [symmetric])
  then show ?thesis
  proof cases
    case header_fails
    with snd False s1 k1 show ?thesis
      by (intro exI [of _ k1]) (auto simp: packet_send_unfold wire_packet_def)
  next
    case no_payload
    with snd False s1 k1 len show ?thesis
      by (intro exI [of _ PACKET_HEADER_SIZE]) (auto simp: packet_send_unfold wire_packet_def)
  next
    case payload
    with snd False s1 s2 k1 k2 r2 show ?thesis
      by (intro exI [of _ "PACKET_HEADER_SIZE + k2"])
        (auto simp: packet_send_unfold wire_packet_def split: if_splits)
  qed
qed

lemma packet_send_sent:
  "packet_send fd p w = (0, w') \<Longrightarrow> wf_packet p \<Longrightarrow>
   sent_on fd w' = sent_on fd w @ wire_packet (pad_bytes w) p"
  using packet_send_prefix [of fd p w 0 w'] by auto

lemma packet_send_ok:
  assumes snd: "packet_send fd p w = (r, w')" and acc: "accepts_data fd w"
    and wf: "wf_packet p" and sz: "payload_length (header p) \<le> MAX_PACKET_SIZE"
  shows "r = 0"
proof -
  let ?h = "wire_header (pad_bytes w) (header p)"
  obtain r1 w1 where s1: "send_all fd ?h PACKET_HEADER_SIZE w = (r1, w1)" by force
  obtain r2 w2 where s2: "send_all fd (payload_bytes p) (unat (payload_length (header p))) w1 = (r2, w2)"
    by force
  have "r1 = 0" using send_all_result(3) [OF s1] acc by simp
  moreover have "r2 = 0"
    using send_all_result(3) [OF s2] send_all_frame(4) [OF s1, of fd] acc wf by (simp add: wf_packet_def)
  ultimately show ?thesis
    using snd sz s1 s2 by (auto simp: packet_send_unfold not_less [symmetric] split: if_splits)
qed

section \<open>Receiving a packet\<close>

lemma sys_malloc_streams:
  assumes "sys_malloc w = (g, w')"
  shows "socks w' = socks w" "pending fd w' = pending fd w" "sent_on fd w' = sent_on fd w"
    "accepts_data fd w' = accepts_data fd w"
  using assms
  by (auto simp: sys_malloc_def Let_def pending_def sent_on_def accepts_data_def)

lemma sys_free_streams [simp, frame_simps]:
  "socks (sys_free b w) = socks w" "pending fd (sys_free b w) = pending fd w"
  "sent_on fd (sys_free b w) = sent_on fd w" "accepts_data fd (sys_free b w) = accepts_data fd w"
  "host (sys_free b w) = host w" "malloc_ok (sys_free b w) = malloc_ok w"
  by (simp_all add: sys_free_def pending_def sent_on_def accepts_data_def)

lemma packet_destroy_eq [simp]:
  "packet_destroy p w = (empty_packet, sys_free (payload p \<noteq> None) w)"
  by (simp add: packet_destroy_def)

lemma sys_free_False [simp]: "sys_free False w = w"
  by (simp add: sys_free_def)

lemma packet_receive_unfold:
  "packet_receive fd q w =
     (case recv_all fd PACKET_HEADER_SIZE (sys_free (payload q \<noteq> None) w) of
        (None, w1) \<Rightarrow>
          (1, empty_packet, log_msg ERROR_MSG OTHER_RT ''Failed to receive packet, aborting...'' [] w1)
      | (Some hb, w1) \<Rightarrow>
          (let h = parse_header (host w) hb; p = \<lparr>payload = None, header = h\<rparr>
           in if version h \<noteq> CURRENT_PROTOCOL_VERSION then
                (1, empty_packet, log_msg ERROR_MSG OTHER_RT ''Unsupported protocol version'' [] w1)
              else if ptype h > type_code PACKET_ERROR then
                (1, empty_packet, log_msg ERROR_MSG OTHER_RT ''Invalid packet type'' [] w1)
              else if payload_length h > MAX_PACKET_SIZE then
                (1, p, log_msg ERROR_MSG OTHER_RT ''Packet exceeds maximum size, aborting...'' [] w1)
              else if payload_length h = 0 then (0, p, w1)
              else
                (case sys_malloc w1 of (got, w2) \<Rightarrow>
                   if \<not> got then (1, p, log_msg ERROR_MSG OTHER_RT ''Payload is NULL'' [] w2)
                   else
                     (case recv_all fd (unat (payload_length h)) w2 of
                        (None, w3) \<Rightarrow>
                          (1, empty_packet, sys_free True (log_msg ERROR_MSG OTHER_RT
                             ''Failed to receive packet payload, aborting...'' [] w3))
                      | (Some body, w3) \<Rightarrow> (0, p\<lparr>payload := Some body\<rparr>, w3)))))"
proof -
  let ?v = "sys_free (payload q \<noteq> None) w"
  obtain hb w1 where rc: "recv_all fd PACKET_HEADER_SIZE ?v = (hb, w1)" by force
  have "host w1 = host w"
    using recv_all_frame(1) [OF rc] by (simp add: io_frame_def)
  then show ?thesis
    using rc by (simp add: packet_receive_def parse_header_def empty_packet_def Let_def word_neq_0_conv
        split: option.split prod.split)
qed

lemma packet_receive_frame:
  assumes "packet_receive fd q w = (r, p, w')"
  shows "io_frame w w'" "sent_on fd' w' = sent_on fd' w" "accepts_data fd' w' = accepts_data fd' w"
    "fd' \<noteq> fd \<Longrightarrow> socks w' fd' = socks w fd'"
    "leaked w' - blocks p = leaked w - blocks q"
proof -
  let ?v = "sys_free (payload q \<noteq> None) w"
  obtain hb w1 where s1: "recv_all fd PACKET_HEADER_SIZE ?v = (hb, w1)" by force
  obtain g w2 where s2: "sys_malloc w1 = (g, w2)" by force
  obtain b w3 where s3: "recv_all fd (unat (payload_length (parse_header (host w) (the hb)))) w2 = (b, w3)"
    by force
  note f1 = recv_all_frame(1,2) [OF s1] recv_all_frame(3-5) [OF s1, of fd']
    and f2 = sys_malloc_io [OF s2] leaked_malloc [OF s2] sys_malloc_streams(1) [OF s2]
      sys_malloc_streams(2-4) [OF s2, of fd']
    and f3 = recv_all_frame(1,2) [OF s3] recv_all_frame(3-5) [OF s3, of fd']
  have io1: "io_frame w w1" by (rule io_frame_trans [OF sys_free_io f1(1)])
  have io2: "io_frame w w2" by (rule io_frame_trans [OF io1 f2(1)])
  have io3: "io_frame w w3" by (rule io_frame_trans [OF io2 f3(1)])
  have io: "io_frame w v \<Longrightarrow> io_frame w (sys_free t (log_msg m rt f as v))" for m rt f as v t
    by (blast intro: io_frame_trans log_msg_io sys_free_io)
  note outcome = assms [unfolded packet_receive_unfold Let_def, simplified s1]
  show "io_frame w w'"
    using outcome io1 io2 io3 s2 s3 io [where t = False] io [where t = True]
    by (auto split: if_splits option.splits)
  show "sent_on fd' w' = sent_on fd' w" "accepts_data fd' w' = accepts_data fd' w"
    "fd' \<noteq> fd \<Longrightarrow> socks w' fd' = socks w fd'"
    using outcome f1 f2 f3 s2 s3 by (auto split: if_splits option.splits)
  show "leaked w' - blocks p = leaked w - blocks q"
    using outcome f1 f2 f3 s2 s3
    by (auto simp: leaked_free blocks_def split: if_splits option.splits)
qed

lemma packet_receive_rc: "packet_receive fd q w = (r, p, w') \<Longrightarrow> r = 0 \<or> r = 1"
  by (auto simp: packet_receive_unfold Let_def split: if_splits option.splits prod.splits)

text \<open>A packet that was received is well formed, and it is what the stream held.\<close>

lemma packet_receive_sound:
  assumes rcv: "packet_receive fd q w = (0, p, w')"
  shows "acceptable p" "\<exists>pad. pending fd w = wire_packet pad p @ pending fd w'"
proof -
  let ?v = "sys_free (payload q \<noteq> None) w"
  obtain hb w1 where s1: "recv_all fd PACKET_HEADER_SIZE ?v = (hb, w1)" by force
  with rcv obtain bs where hb: "hb = Some bs"
    by (auto simp: packet_receive_unfold split: option.splits)
  let ?h = "parse_header (host w) bs"
  have bs: "length bs = PACKET_HEADER_SIZE" "pending fd w = bs @ pending fd w1"
    using sock_in.get_length sock_in.get_Some s1 hb by fastforce+
  have wire: "wire_header (bs ! 6, bs ! 7) ?h = bs"
    using bs(1) by (rule wire_parse_header)
  have h: "version ?h = CURRENT_PROTOCOL_VERSION" "ptype ?h \<le> type_code PACKET_ERROR"
    "payload_length ?h \<le> MAX_PACKET_SIZE"
    using rcv s1 hb by (auto simp: packet_receive_unfold Let_def not_less split: if_splits)
  show "acceptable p" "\<exists>pad. pending fd w = wire_packet pad p @ pending fd w'"
  proof (atomize (full), cases "payload_length ?h = 0")
    case True
    with rcv s1 hb h have "p = \<lparr>payload = None, header = ?h\<rparr>" "w' = w1"
      by (auto simp: packet_receive_unfold Let_def not_less split: if_splits)
    with True h bs(2) wire have "acceptable p \<and> pending fd w = wire_packet (bs ! 6, bs ! 7) p @ pending fd w'"
      by (simp add: acceptable_def wf_packet_def wire_packet_def payload_bytes_def)
    then show "acceptable p \<and> (\<exists>pad. pending fd w = wire_packet pad p @ pending fd w')"
      by blast
  next
    case False
    obtain g w2 where s2: "sys_malloc w1 = (g, w2)" by force
    obtain b w3 where s3: "recv_all fd (unat (payload_length ?h)) w2 = (b, w3)" by force
    from rcv s1 hb h False s2 s3 obtain body where
      p: "b = Some body" "p = \<lparr>payload = Some body, header = ?h\<rparr>" "w' = w3"
      by (auto simp: packet_receive_unfold Let_def not_less split: if_splits option.splits)
    have "length body = unat (payload_length ?h)" "pending fd w1 = body @ pending fd w3"
      using sock_in.get_length sock_in.get_Some s3 p(1) sys_malloc_streams(2) [OF s2, of fd] by metis+
    with False h bs(2) wire p have "acceptable p \<and> pending fd w = wire_packet (bs ! 6, bs ! 7) p @ pending fd w'"
      by (simp add: acceptable_def wf_packet_def wire_packet_def payload_bytes_def)
    then show "acceptable p \<and> (\<exists>pad. pending fd w = wire_packet pad p @ pending fd w')"
      by blast
  qed
qed

text \<open>A packet the receiver accepts is received, however the stream was cut into chunks.\<close>

lemma packet_receive_complete:
  assumes rcv: "packet_receive fd q w = (r, p', w')"
    and acc: "acceptable p" and inp: "pending fd w = wire_packet pad p @ rest"
    and mem: "\<And>i. malloc_ok w i"
  shows "r = 0 \<and> p' = p \<and> pending fd w' = rest"
proof -
  let ?v = "sys_free (payload q \<noteq> None) w"
  obtain hb w1 where s1: "recv_all fd PACKET_HEADER_SIZE ?v = (hb, w1)" by force
  have "pending fd ?v = wire_header pad (header p) @ payload_bytes p @ rest"
    using inp by (simp add: wire_packet_def)
  from hdr_in.get_enc [OF TrueI this s1]
  have hb: "hb = Some (wire_header pad (header p))" and w1: "pending fd w1 = payload_bytes p @ rest"
    by auto
  have mem1: "malloc_ok w1 i" for i
    using recv_all_frame(1) [OF s1] mem by (simp add: io_frame_def)
  show ?thesis
  proof (cases "payload_length (header p) = 0")
    case True
    with acc have "p = \<lparr>payload = None, header = header p\<rparr>" "payload_bytes p = []"
      by (auto simp: acceptable_def wf_packet_def)
    with True rcv s1 hb w1 acc show ?thesis
      by (auto simp: packet_receive_unfold Let_def parse_wire_header acceptable_def not_less split: if_splits)
  next
    case False
    obtain g w2 where s2: "sys_malloc w1 = (g, w2)" by force
    have g: "g" using s2 mem1 by (auto simp: sys_malloc_def Let_def)
    obtain b w3 where s3: "recv_all fd (unat (payload_length (header p))) w2 = (b, w3)" by force
    have len: "length (payload_bytes p) = unat (payload_length (header p))"
      and pl: "payload p = Some (payload_bytes p)"
      using acc False by (auto simp: acceptable_def wf_packet_def payload_bytes_def split: option.splits)
    have "b = Some (payload_bytes p) \<and> pending fd w3 = rest"
      using sock_in.get_append [OF len _ s3] w1 sys_malloc_streams(2) [OF s2, of fd] by simp
    with False rcv s1 hb s2 g s3 acc pl show ?thesis
      by (auto simp: packet_receive_unfold Let_def parse_wire_header acceptable_def not_less split: if_splits)
  qed
qed

section \<open>Constructing a packet\<close>

text \<open>The arguments of \<^verbatim>\<open>packet_construct\<close> agree with each other.\<close>

definition wf_constructor :: "packet_constructor_t \<Rightarrow> bool" where
  "wf_constructor d \<longleftrightarrow>
     (c_payload_length d = 0 \<or>
      (\<exists>b. c_payload d = Some b \<and> length b = unat (c_payload_length d)))"

text \<open>The packet the sender means to send.\<close>

definition packet_of :: "packet_constructor_t \<Rightarrow> packet" where
  "packet_of d =
     \<lparr>payload = (if c_payload_length d = 0 then None else c_payload d),
      header = \<lparr>payload_length = c_payload_length d, version = header_version d,
                ptype = type_code (header_type d)\<rparr>\<rparr>"

lemma wf_packet_of: "wf_constructor d \<Longrightarrow> wf_packet (packet_of d)"
  by (auto simp: wf_constructor_def wf_packet_def packet_of_def payload_bytes_def)

lemma packet_construct_frame:
  assumes "packet_construct d w = (p, w')"
  shows "io_frame w w'" "leaked w' - blocks p = leaked w" "socks w' = socks w"
    "header_version d = version (header p)" "ptype (header p) = type_code (header_type d)"
    "payload_length (header p) \<le> c_payload_length d"
  using assms
  by (auto simp: packet_construct_def packet_init_def blocks_def Let_def empty_packet_def
      split: if_splits prod.splits dest: sys_malloc_io leaked_malloc
      sys_malloc_streams(1) intro: io_frame_trans [OF _ log_msg_io])

lemma packet_construct_streams:
  assumes "packet_construct d w = (p, w')"
  shows "pending fd w' = pending fd w" "sent_on fd w' = sent_on fd w"
    "accepts_data fd w' = accepts_data fd w"
  using packet_construct_frame(3) [OF assms] by (simp_all add: pending_def sent_on_def accepts_data_def)

lemma packet_construct_wf:
  "packet_construct d w = (p, w') \<Longrightarrow> wf_constructor d \<Longrightarrow> wf_packet p"
  by (auto simp: packet_construct_def packet_init_def wf_constructor_def wf_packet_def payload_bytes_def
      empty_packet_def Let_def word_gt_0 split: if_splits prod.splits)

lemma packet_construct_ok:
  assumes "packet_construct d w = (p, w')" and "wf_constructor d" and "\<And>i. malloc_ok w i"
  shows "p = packet_of d"
  using assms
  by (auto simp: packet_construct_def packet_init_def packet_of_def wf_constructor_def empty_packet_def
      sys_malloc_def Let_def word_gt_0 split: if_splits)

section \<open>Whole messages\<close>

text \<open>
  The pattern all callers follow: receive a packet and free it after use, construct a
  packet, send it and free it. The two functions below are that pattern; the session
  theories rewrite their handlers with them before they reason about them.
\<close>

definition recv_msg :: "int \<Rightarrow> world \<Rightarrow> packet option \<times> world" where
  "recv_msg fd w =
     (case packet_receive fd packet_init w of (r, p, w) \<Rightarrow>
        (if r = 0 then Some p else None, snd (packet_destroy p w)))"

definition send_msg :: "int \<Rightarrow> packet_constructor_t \<Rightarrow> world \<Rightarrow> rc \<times> world" where
  "send_msg fd d w =
     (case packet_construct d w of (p, w) \<Rightarrow>
      case packet_send fd p w of (r, w) \<Rightarrow> (r, snd (packet_destroy p w)))"

text \<open>Freeing the packet before or after a message is logged makes no difference.\<close>

lemma sys_free_log_msg: "sys_free b (log_msg m r f as w) = log_msg m r f as (sys_free b w)"
  by (simp add: sys_free_def log_msg_def sys_malloc_def printf_def is_idle_def Let_def)

text \<open>
  \<open>socket_frame fd\<close>: an operation that works on one socket, draws random bytes, uses files
  and logs, opens and closes no socket, and frees all it allocates but for log lines.
\<close>

definition socket_frame :: "int \<Rightarrow> world \<Rightarrow> world \<Rightarrow> bool" where
  "socket_frame fd w w' \<longleftrightarrow>
     env_frame w w' \<and> leaked w' = leaked w \<and> accepts_data fd w' = accepts_data fd w \<and>
     (\<forall>fd'. fd' \<noteq> fd \<longrightarrow> socks w' fd' = socks w fd')"

lemma socket_frame_refl [simp, intro]: "socket_frame fd w w"
  by (simp add: socket_frame_def)

lemma socket_frame_trans [trans]: "socket_frame fd u v \<Longrightarrow> socket_frame fd v w \<Longrightarrow> socket_frame fd u w"
  by (auto simp: socket_frame_def intro: env_frame_trans)

lemma local_socket_frame: "local_frame w w' \<Longrightarrow> socket_frame fd w w'"
  using local_frame_streams(3) [of w w' fd] by (simp add: local_frame_def socket_frame_def)

lemma log_socket_frame: "log_frame w w' \<Longrightarrow> socket_frame fd w w'"
  by (simp add: local_socket_frame log_local_frame)

lemma socket_frame_log_msg [intro]: "socket_frame fd v w \<Longrightarrow> socket_frame fd v (log_msg m r f as w)"
  using socket_frame_trans log_socket_frame by blast

lemma socket_frame_env:
  assumes "socket_frame fd w w'"
  shows "malloc_ok w' = malloc_ok w" "host w' = host w" "pad_bytes w' = pad_bytes w"
    "accepts_data fd w' = accepts_data fd w" "leaked w' = leaked w" "rng w' = rng w"
  using assms by (simp_all add: socket_frame_def env_frame_def)

lemma recv_msg_frame:
  assumes "recv_msg fd w = (r, w')"
  shows "socket_frame fd w w'" "sent_on fd w' = sent_on fd w" "io_frame w w'"
proof -
  obtain c p w1 where rc: "packet_receive fd packet_init w = (c, p, w1)" by (metis prod_cases3)
  have w': "w' = sys_free (payload p \<noteq> None) w1"
    using assms rc by (auto simp: recv_msg_def)
  note fr = packet_receive_frame [OF rc]
  have "leaked w' = leaked w"
    using fr(5) w' by (simp add: leaked_free blocks_def packet_init_def empty_packet_def split: if_splits)
  moreover have io: "io_frame w w'"
    unfolding w' by (rule io_frame_trans [OF fr(1) sys_free_io])
  ultimately show "socket_frame fd w w'" "sent_on fd w' = sent_on fd w" "io_frame w w'"
    using fr(2-4) w' by (auto simp: socket_frame_def io_env_frame)
qed

lemma recv_msg_sound:
  assumes "recv_msg fd w = (Some p, w')"
  shows "acceptable p" "\<exists>pad. pending fd w = wire_packet pad p @ pending fd w'"
proof -
  obtain c q w1 where rc: "packet_receive fd packet_init w = (c, q, w1)" by (metis prod_cases3)
  with assms have "c = 0" "q = p" "w' = sys_free (payload q \<noteq> None) w1"
    by (auto simp: recv_msg_def split: if_splits)
  with packet_receive_sound [of fd packet_init w p w1] rc
  show "acceptable p" "\<exists>pad. pending fd w = wire_packet pad p @ pending fd w'" by auto
qed

lemma recv_msg_complete:
  assumes "acceptable p" and "pending fd w = wire_packet pad p @ rest" and "\<And>i. malloc_ok w i"
  shows "\<exists>w'. recv_msg fd w = (Some p, w') \<and> pending fd w' = rest"
proof -
  obtain c q w1 where rc: "packet_receive fd packet_init w = (c, q, w1)" by (metis prod_cases3)
  from packet_receive_complete [OF this assms] show ?thesis
    using rc by (simp add: recv_msg_def)
qed

lemma send_msg_frame:
  assumes "send_msg fd d w = (r, w')"
  shows "socket_frame fd w w'" "pending fd w' = pending fd w" "io_frame w w'" "r = 0 \<or> r = 1"
proof -
  obtain p w1 where pc: "packet_construct d w = (p, w1)" by force
  obtain c w2 where ps: "packet_send fd p w1 = (c, w2)" by force
  have w': "r = c" "w' = sys_free (payload p \<noteq> None) w2"
    using assms pc ps by (auto simp: send_msg_def)
  note f1 = packet_construct_frame [OF pc] packet_construct_streams [OF pc]
    and f2 = packet_send_frame(1,2) [OF ps] packet_send_frame(3-5) [OF ps]
  have "leaked w' = leaked w"
    using f1(2) f2(2) w' by (simp add: leaked_free blocks_def split: if_splits)
  moreover have io: "io_frame w w'"
    unfolding w' by (blast intro: io_frame_trans sys_free_io f1(1) f2(1))
  ultimately show "socket_frame fd w w'" "pending fd w' = pending fd w" "io_frame w w'"
    using f1 f2 w' by (auto simp: socket_frame_def io_env_frame)
  show "r = 0 \<or> r = 1" using packet_send_rc [OF ps] w' by simp
qed

lemma send_msg_ok:
  assumes acc: "accepts_data fd w" and mem: "\<And>i. malloc_ok w i"
    and wf: "wf_constructor d" and sz: "c_payload_length d \<le> MAX_PACKET_SIZE"
  shows "\<exists>w'. send_msg fd d w = (0, w') \<and> sent_on fd w' = sent_on fd w @ wire_packet (pad_bytes w) (packet_of d)"
proof -
  obtain p w1 where pc: "packet_construct d w = (p, w1)" by force
  obtain c w2 where ps: "packet_send fd p w1 = (c, w2)" by force
  have p: "p = packet_of d" by (rule packet_construct_ok [OF pc wf mem])
  note f1 = packet_construct_frame [OF pc] packet_construct_streams [OF pc]
  have acc1: "accepts_data fd w1" and out1: "sent_on fd w1 = sent_on fd w"
    using f1(7-9) acc by simp_all
  have pad: "pad_bytes w1 = pad_bytes w" using f1(1) by (simp add: io_frame_def)
  have "c = 0"
    using packet_send_ok [OF ps acc1] wf_packet_of [OF wf] p sz by (simp add: packet_of_def)
  moreover from this have "sent_on fd w2 = sent_on fd w @ wire_packet (pad_bytes w) (packet_of d)"
    using packet_send_sent [of fd p w1 w2] ps wf_packet_of [OF wf] p out1 pad by simp
  ultimately show ?thesis
    using ps pc by (simp add: send_msg_def)
qed

text \<open>On every path, what was sent is a prefix of the encoding of one packet of that type.\<close>

lemma send_msg_sent:
  assumes "send_msg fd d w = (0, w')" and "wf_constructor d"
  shows "\<exists>p. wf_packet p \<and> ptype (header p) = type_code (header_type d) \<and>
    version (header p) = header_version d \<and>
    sent_on fd w' = sent_on fd w @ wire_packet (pad_bytes w) p"
proof -
  obtain p w1 where pc: "packet_construct d w = (p, w1)" by force
  obtain c w2 where ps: "packet_send fd p w1 = (c, w2)" by force
  note f1 = packet_construct_frame [OF pc] packet_construct_streams [OF pc]
  have pad: "pad_bytes w1 = pad_bytes w" using f1(1) by (simp add: io_frame_def)
  from assms(1) pc ps have w': "c = 0" "w' = sys_free (payload p \<noteq> None) w2"
    by (auto simp: send_msg_def)
  have "sent_on fd w' = sent_on fd w @ wire_packet (pad_bytes w) p"
    using packet_send_sent [of fd p w1 w2] ps packet_construct_wf [OF pc assms(2)] f1(8) pad w' by simp
  then show ?thesis
    using packet_construct_wf [OF pc assms(2)] f1(4,5) by metis
qed

end
