(* ===== verification/Crypto.thy ===== *)
theory Crypto
  imports Packet
begin

text \<open>
  \<^verbatim>\<open>src/shared/security/crypto.h\<close> and \<^verbatim>\<open>crypto.c\<close>: the crypto context of a
  session, identities and trusted keys on disk, signatures, key exchange, and the packet
  encryption of the tunnel. libsodium is a parameter: a record of the functions the file
  calls, with what its documentation promises of them as named predicates.
\<close>

section \<open>libsodium\<close>

text \<open>
  The functions take their inputs as byte lists; \<open>None\<close> is a non-zero return value. A key
  pair is computed from the random bytes it is drawn from.
\<close>

record sodium =
  sodium_init :: int
  sign_keypair :: "bytes \<Rightarrow> (bytes \<times> bytes) option"
  sign_detached :: "bytes \<Rightarrow> bytes \<Rightarrow> bytes option"
  sign_verify :: "bytes \<Rightarrow> bytes \<Rightarrow> bytes \<Rightarrow> bool"
  kx_keypair :: "bytes \<Rightarrow> (bytes \<times> bytes) option"
  kx_server_session_keys :: "bytes \<Rightarrow> bytes \<Rightarrow> bytes \<Rightarrow> (bytes \<times> bytes) option"
  kx_client_session_keys :: "bytes \<Rightarrow> bytes \<Rightarrow> bytes \<Rightarrow> (bytes \<times> bytes) option"
  aead_encrypt :: "bytes \<Rightarrow> bytes \<Rightarrow> bytes \<Rightarrow> bytes option"
  aead_decrypt :: "bytes \<Rightarrow> bytes \<Rightarrow> bytes \<Rightarrow> bytes option"

definition CRYPTO_PUBLIC_KEY_SIZE :: nat where "CRYPTO_PUBLIC_KEY_SIZE = 32"
definition CRYPTO_PRIVATE_KEY_SIZE :: nat where "CRYPTO_PRIVATE_KEY_SIZE = 64"
definition CRYPTO_SESSION_KEY_SIZE :: nat where "CRYPTO_SESSION_KEY_SIZE = 32"
definition CRYPTO_SIGNATURE_SIZE :: nat where "CRYPTO_SIGNATURE_SIZE = 64"
definition KX_PUBLICKEYBYTES :: nat where "KX_PUBLICKEYBYTES = 32"
definition KX_SECRETKEYBYTES :: nat where "KX_SECRETKEYBYTES = 32"
definition KX_SEEDBYTES :: nat where "KX_SEEDBYTES = 32"
definition SIGN_SEEDBYTES :: nat where "SIGN_SEEDBYTES = 32"
definition AEAD_NPUBBYTES :: nat where "AEAD_NPUBBYTES = 12"
definition TUNNEL_AEAD_TAG_SIZE :: nat where "TUNNEL_AEAD_TAG_SIZE = 16"

lemmas crypto_sizes [size_consts] =
  CRYPTO_PUBLIC_KEY_SIZE_def CRYPTO_PRIVATE_KEY_SIZE_def CRYPTO_SESSION_KEY_SIZE_def
  CRYPTO_SIGNATURE_SIZE_def KX_PUBLICKEYBYTES_def KX_SECRETKEYBYTES_def KX_SEEDBYTES_def
  SIGN_SEEDBYTES_def AEAD_NPUBBYTES_def TUNNEL_AEAD_TAG_SIZE_def

text \<open>
  Documented behaviour: key generation succeeds and yields keys of the stated sizes, a
  signature made with the private key verifies under the public key, both sides of a key
  exchange derive the same two keys (each one's sending key is the other's receiving key),
  and the cipher is a bijection between messages and the ciphertexts it accepts, which are
  16 bytes longer.
\<close>

definition sign_correct :: "sodium \<Rightarrow> bool" where
  "sign_correct S \<longleftrightarrow>
     (\<forall>seed. length seed = SIGN_SEEDBYTES \<longrightarrow>
       (\<exists>pk sk. sign_keypair S seed = Some (pk, sk) \<and>
          length pk = CRYPTO_PUBLIC_KEY_SIZE \<and> length sk = CRYPTO_PRIVATE_KEY_SIZE \<and>
          (\<forall>m. \<exists>sig. sign_detached S m sk = Some sig \<and> length sig = CRYPTO_SIGNATURE_SIZE \<and>
             sign_verify S sig m pk)))"

definition kx_correct :: "sodium \<Rightarrow> bool" where
  "kx_correct S \<longleftrightarrow>
     (\<forall>seed. length seed = KX_SEEDBYTES \<longrightarrow>
       (\<exists>pk sk. kx_keypair S seed = Some (pk, sk) \<and>
          length pk = KX_PUBLICKEYBYTES \<and> length sk = KX_SECRETKEYBYTES)) \<and>
     (\<forall>seed seed' cpk csk spk ssk.
       kx_keypair S seed = Some (cpk, csk) \<and> kx_keypair S seed' = Some (spk, ssk) \<longrightarrow>
       (\<exists>k1 k2. kx_client_session_keys S cpk csk spk = Some (k1, k2) \<and>
          kx_server_session_keys S spk ssk cpk = Some (k2, k1) \<and>
          length k1 = CRYPTO_SESSION_KEY_SIZE \<and> length k2 = CRYPTO_SESSION_KEY_SIZE))"

definition aead_correct :: "sodium \<Rightarrow> bool" where
  "aead_correct S \<longleftrightarrow>
     (\<forall>m n k. length m < 2 ^ 32 \<and> length n = AEAD_NPUBBYTES \<and> length k = CRYPTO_SESSION_KEY_SIZE \<longrightarrow>
       (\<exists>c. aead_encrypt S m n k = Some c \<and> length c = length m + TUNNEL_AEAD_TAG_SIZE \<and>
          aead_decrypt S c n k = Some m))"

text \<open>Only what was encrypted under the key and nonce decrypts.\<close>

definition aead_authentic :: "sodium \<Rightarrow> bool" where
  "aead_authentic S \<longleftrightarrow>
     (\<forall>c n k m. aead_decrypt S c n k = Some m \<longrightarrow> aead_encrypt S m n k = Some c)"

section \<open>The crypto context\<close>

record crypto_context =
  private_key :: bytes
  eph_private_key :: bytes
  public_key :: bytes
  peer_public_key :: bytes
  tx_key :: bytes
  rx_key :: bytes
  eph_public_key :: bytes
  tx_nonce :: u64
  rx_nonce :: u64
  verified :: byte

definition crypto_context_init :: crypto_context where
  "crypto_context_init =
     \<lparr>private_key = zeros CRYPTO_PRIVATE_KEY_SIZE, eph_private_key = zeros KX_SECRETKEYBYTES,
      public_key = zeros CRYPTO_PUBLIC_KEY_SIZE, peer_public_key = zeros CRYPTO_PUBLIC_KEY_SIZE,
      tx_key = zeros CRYPTO_SESSION_KEY_SIZE, rx_key = zeros CRYPTO_SESSION_KEY_SIZE,
      eph_public_key = zeros KX_PUBLICKEYBYTES, tx_nonce = 0, rx_nonce = 0, verified = 0\<rparr>"

text \<open>The arrays of the context have their declared sizes.\<close>

definition wf_crypto :: "crypto_context \<Rightarrow> bool" where
  "wf_crypto ctx \<longleftrightarrow>
     length (private_key ctx) = CRYPTO_PRIVATE_KEY_SIZE \<and>
     length (eph_private_key ctx) = KX_SECRETKEYBYTES \<and>
     length (public_key ctx) = CRYPTO_PUBLIC_KEY_SIZE \<and>
     length (peer_public_key ctx) = CRYPTO_PUBLIC_KEY_SIZE \<and>
     length (tx_key ctx) = CRYPTO_SESSION_KEY_SIZE \<and>
     length (rx_key ctx) = CRYPTO_SESSION_KEY_SIZE \<and>
     length (eph_public_key ctx) = KX_PUBLICKEYBYTES"

lemma wf_crypto_init [simp]: "wf_crypto crypto_context_init"
  by (simp add: wf_crypto_def crypto_context_init_def)

section \<open>Operations (crypto.c)\<close>

text \<open>\<^verbatim>\<open>crypto_init\<close> ends the process when the library cannot be initialised.\<close>

definition crypto_init :: "sodium \<Rightarrow> world \<Rightarrow> world" where
  "crypto_init S w =
     (if sodium_init S < 0 then
        (log_msg ERROR_MSG OTHER_RT ''Failed to initialize libsodium'' [] w)\<lparr>exit_code := Some 1\<rparr>
      else w\<lparr>sodium_ready := True\<rparr>)"

definition crypto_generate_nonce :: "nat \<Rightarrow> world \<Rightarrow> bytes \<times> world" where
  "crypto_generate_nonce n w = sys_random n w"

definition crypto_generate_identity ::
    "sodium \<Rightarrow> crypto_context \<Rightarrow> world \<Rightarrow> rc \<times> crypto_context \<times> world" where
  "crypto_generate_identity S ctx w =
     (case sys_random SIGN_SEEDBYTES w of (seed, w) \<Rightarrow>
        case sign_keypair S seed of
          None \<Rightarrow> (1, ctx, log_msg ERROR_MSG OTHER_RT ''Failed to generate identity key pair'' [] w)
        | Some (pk, sk) \<Rightarrow> (0, ctx\<lparr>public_key := pk, private_key := sk\<rparr>, w))"

text \<open>The signature is the result; \<open>None\<close> is the return value 1.\<close>

definition crypto_sign_message ::
    "sodium \<Rightarrow> crypto_context \<Rightarrow> bytes \<Rightarrow> world \<Rightarrow> bytes option \<times> world" where
  "crypto_sign_message S ctx message w =
     (case sign_detached S message (private_key ctx) of
        None \<Rightarrow> (None, log_msg ERROR_MSG OTHER_RT ''Failed to sign message'' [] w)
      | Some sig \<Rightarrow> (Some sig, w))"

definition crypto_verify_message :: "sodium \<Rightarrow> bytes \<Rightarrow> bytes \<Rightarrow> bytes \<Rightarrow> rc" where
  "crypto_verify_message S pk message sig = (if sign_verify S sig message pk then 0 else 1)"

subsection \<open>Keys on disk\<close>

text \<open>\<^verbatim>\<open>fread\<close> into a buffer: a short read leaves the rest of the buffer as it was.\<close>

definition fread_into :: "bytes \<Rightarrow> nat \<Rightarrow> bytes \<Rightarrow> nat \<times> bytes" where
  "fread_into buf n bs = (let got = take n bs in (length got, got @ drop (length got) buf))"

text \<open>The message that probes a loaded identity, with its terminating zero.\<close>

definition identity_probe :: bytes where
  "identity_probe = map of_char ''sencd-identity-check'' @ [0]"

text \<open>
  \<^verbatim>\<open>crypto_identity_load_or_create\<close>: first its attempt to load the file (did it
  succeed?), then the whole function.
\<close>

definition crypto_identity_load ::
    "sodium \<Rightarrow> crypto_context \<Rightarrow> string \<Rightarrow> world \<Rightarrow> bool \<times> crypto_context \<times> world" where
  "crypto_identity_load S ctx path w =
     (case sys_fopen_rb path w of
        None \<Rightarrow> (False, ctx, w)
      | Some f \<Rightarrow>
          (let (pub_read, pub) = fread_into (public_key ctx) CRYPTO_PUBLIC_KEY_SIZE (contents f);
               (priv_read, priv) = fread_into (private_key ctx) CRYPTO_PRIVATE_KEY_SIZE
                                     (drop pub_read (contents f));
               ctx = ctx\<lparr>public_key := pub, private_key := priv\<rparr>
           in if pub_read = CRYPTO_PUBLIC_KEY_SIZE \<and> priv_read = CRYPTO_PRIVATE_KEY_SIZE then
                (case crypto_sign_message S ctx identity_probe w of (sig, w) \<Rightarrow>
                   if (case sig of None \<Rightarrow> False
                       | Some sg \<Rightarrow> crypto_verify_message S (public_key ctx) identity_probe sg = 0)
                   then (True, ctx, w)
                   else
                     (let w = log_msg WARN_MSG OTHER_RT
                                ''Identity file failed integrity check, regenerating'' [] w
                      in (False, ctx, log_msg WARN_MSG OTHER_RT
                            ''Identity file is corrupt, regenerating'' [] w)))
              else (False, ctx, log_msg WARN_MSG OTHER_RT
                      ''Identity file is corrupt, regenerating'' [] w)))"

definition crypto_identity_load_or_create ::
    "sodium \<Rightarrow> crypto_context \<Rightarrow> string \<Rightarrow> world \<Rightarrow> rc \<times> crypto_context \<times> world" where
  "crypto_identity_load_or_create S ctx path w =
     (case crypto_identity_load S ctx path w of (loaded, ctx, w) \<Rightarrow>
        if loaded then (0, ctx, w)
        else
          (case crypto_generate_identity S ctx w of (r, ctx, w) \<Rightarrow>
             if r \<noteq> 0 then (1, ctx, w)
             else
               (case sys_fopen_wb path w of (opened, w) \<Rightarrow>
                  if \<not> opened then
                    (1, ctx, log_msg ERROR_MSG OTHER_RT ''Failed to persist identity key'' [] w)
                  else
                    (let w = sys_fwrite path (public_key ctx) w;
                         w = sys_fwrite path (private_key ctx) w
                     in (0, ctx, sys_chmod path w)))))"

text \<open>The loaded key is the result; \<open>None\<close> is the return value 1.\<close>

definition crypto_trust_key_load :: "string \<Rightarrow> world \<Rightarrow> bytes option" where
  "crypto_trust_key_load path w =
     (case sys_fopen_rb path w of
        None \<Rightarrow> None
      | Some f \<Rightarrow>
          (let key = take CRYPTO_PUBLIC_KEY_SIZE (contents f)
           in if length key = CRYPTO_PUBLIC_KEY_SIZE then Some key else None))"

definition crypto_trust_key_save :: "string \<Rightarrow> bytes \<Rightarrow> world \<Rightarrow> rc \<times> world" where
  "crypto_trust_key_save path key w =
     (case sys_fopen_wb path w of (opened, w) \<Rightarrow>
        if \<not> opened then
          (1, log_msg ERROR_MSG OTHER_RT ''Failed to persist trusted server key'' [] w)
        else (0, sys_chmod path (sys_fwrite path key w)))"

definition SENCD_CONFIG_DIRNAME :: string where
  "SENCD_CONFIG_DIRNAME = ''.sencd-config''"

definition PATH_MAX :: nat where "PATH_MAX = 4096"

text \<open>
  The path is the result; \<open>None\<close> is the return value 1. A path that does not fit its
  buffer with the terminating zero is refused.
\<close>

definition crypto_config_path :: "string \<Rightarrow> nat \<Rightarrow> world \<Rightarrow> string option \<times> world" where
  "crypto_config_path filename out_size w =
     (case (case home_env w of None \<Rightarrow> pw_dir w
            | Some home \<Rightarrow> (if home = [] then pw_dir w else Some home)) of
        None \<Rightarrow> (None, log_msg ERROR_MSG OTHER_RT ''Could not determine home directory'' [] w)
      | Some home \<Rightarrow>
          (let dir = home @ ''/'' @ SENCD_CONFIG_DIRNAME
           in if length dir \<ge> PATH_MAX then (None, w)
              else
                (case sys_mkdir dir w of (res, w) \<Rightarrow>
                   if res = MkdirFailed then
                     (None, log_msg ERROR_MSG OTHER_RT ''Failed to create config directory'' [] w)
                   else
                     (let out_path = dir @ ''/'' @ filename
                      in if length out_path \<ge> out_size then (None, w) else (Some out_path, w)))))"

subsection \<open>Key exchange\<close>

definition crypto_generate_ephemeral ::
    "sodium \<Rightarrow> crypto_context \<Rightarrow> world \<Rightarrow> rc \<times> crypto_context \<times> world" where
  "crypto_generate_ephemeral S ctx w =
     (case sys_random KX_SEEDBYTES w of (seed, w) \<Rightarrow>
        case kx_keypair S seed of
          None \<Rightarrow> (1, ctx, log_msg ERROR_MSG OTHER_RT ''Failed to generate ephemeral key pair'' [] w)
        | Some (pk, sk) \<Rightarrow> (0, ctx\<lparr>eph_public_key := pk, eph_private_key := sk\<rparr>, w))"

definition crypto_derive_server_keys ::
    "sodium \<Rightarrow> crypto_context \<Rightarrow> bytes \<Rightarrow> world \<Rightarrow> rc \<times> crypto_context \<times> world" where
  "crypto_derive_server_keys S ctx client_eph_pub w =
     (case kx_server_session_keys S (eph_public_key ctx) (eph_private_key ctx) client_eph_pub of
        None \<Rightarrow> (1, ctx, log_msg ERROR_MSG OTHER_RT ''Failed to derive server session keys'' [] w)
      | Some (rxk, txk) \<Rightarrow> (0, ctx\<lparr>rx_key := rxk, tx_key := txk\<rparr>, w))"

definition crypto_derive_client_keys ::
    "sodium \<Rightarrow> crypto_context \<Rightarrow> bytes \<Rightarrow> world \<Rightarrow> rc \<times> crypto_context \<times> world" where
  "crypto_derive_client_keys S ctx server_eph_pub w =
     (case kx_client_session_keys S (eph_public_key ctx) (eph_private_key ctx) server_eph_pub of
        None \<Rightarrow> (1, ctx, log_msg ERROR_MSG OTHER_RT ''Failed to derive client session keys'' [] w)
      | Some (rxk, txk) \<Rightarrow> (0, ctx\<lparr>rx_key := rxk, tx_key := txk\<rparr>, w))"

subsection \<open>Packet encryption\<close>

text \<open>Four zero bytes and the counter in network order.\<close>

definition crypto_build_nonce :: "endian \<Rightarrow> u64 \<Rightarrow> bytes" where
  "crypto_build_nonce e counter =
     take (AEAD_NPUBBYTES - 8) (zeros AEAD_NPUBBYTES) @ mem_bytes e 8 (htobe64 e counter)"

text \<open>The ciphertext is the result; \<open>None\<close> is the return value 1.\<close>

definition crypto_encrypt_packet ::
    "sodium \<Rightarrow> crypto_context \<Rightarrow> u64 \<Rightarrow> bytes \<Rightarrow> world \<Rightarrow> bytes option \<times> world" where
  "crypto_encrypt_packet S ctx counter plaintext w =
     (case aead_encrypt S plaintext (crypto_build_nonce (host w) counter) (tx_key ctx) of
        None \<Rightarrow> (None, log_msg ERROR_MSG OTHER_RT ''Failed to encrypt tunnel packet'' [] w)
      | Some c \<Rightarrow> (Some c, w))"

definition crypto_decrypt_packet ::
    "sodium \<Rightarrow> endian \<Rightarrow> crypto_context \<Rightarrow> u64 \<Rightarrow> bytes \<Rightarrow> bytes option" where
  "crypto_decrypt_packet S e ctx counter ciphertext =
     aead_decrypt S ciphertext (crypto_build_nonce e counter) (rx_key ctx)"

section \<open>The hypotheses can hold\<close>

text \<open>
  A library for which everything that is assumed of libsodium is true. It is no
  cryptography: it serves to evaluate the model on concrete inputs.
\<close>

definition demo_tag :: "bytes \<Rightarrow> bytes \<Rightarrow> bytes" where
  "demo_tag n k = take 16 (n @ k @ zeros 16)"

definition demo_sodium :: sodium where
  "demo_sodium =
     \<lparr>sodium_init = 0,
      sign_keypair = (\<lambda>seed. if length seed = 32 then Some (seed, seed @ seed) else None),
      sign_detached = (\<lambda>m sk. Some (sum_list m # take 63 (sk @ zeros 63))),
      sign_verify = (\<lambda>sig m pk. sig = sum_list m # take 63 (pk @ pk @ zeros 63)),
      kx_keypair = (\<lambda>seed. if length seed = 32 then Some (seed, seed) else None),
      kx_server_session_keys = (\<lambda>spk ssk cpk. Some (map2 (+) cpk spk, map2 xor cpk spk)),
      kx_client_session_keys = (\<lambda>cpk csk spk. Some (map2 xor cpk spk, map2 (+) cpk spk)),
      aead_encrypt = (\<lambda>m n k. Some (m @ demo_tag n k)),
      aead_decrypt = (\<lambda>c n k.
        if 16 \<le> length c \<and> drop (length c - 16) c = demo_tag n k
        then Some (take (length c - 16) c) else None)\<rparr>"

lemma length_demo_tag [simp]: "length (demo_tag n k) = 16"
  by (simp add: demo_tag_def)

lemma demo_sign_correct: "sign_correct demo_sodium"
  by (auto simp: sign_correct_def demo_sodium_def size_consts)

lemma demo_kx_correct: "kx_correct demo_sodium"
  by (auto simp: kx_correct_def demo_sodium_def size_consts split: if_splits)

lemma demo_aead_correct: "aead_correct demo_sodium"
  by (auto simp: aead_correct_def demo_sodium_def size_consts)

lemma demo_aead_authentic: "aead_authentic demo_sodium"
  unfolding aead_authentic_def demo_sodium_def
  by (auto split: if_splits) (metis append_take_drop_id)

lemmas demo_correct = demo_sign_correct demo_kx_correct demo_aead_correct demo_aead_authentic

section \<open>Facts about the operations\<close>

subsection \<open>Nonces\<close>

lemma crypto_build_nonce_be: "crypto_build_nonce e c = zeros 4 @ bytes_be 8 c"
  by (simp add: crypto_build_nonce_def mem_bytes_to_be AEAD_NPUBBYTES_def zeros_def)

lemma length_crypto_build_nonce [simp]: "length (crypto_build_nonce e c) = AEAD_NPUBBYTES"
  by (simp add: crypto_build_nonce_be AEAD_NPUBBYTES_def)

lemma crypto_build_nonce_inject: "crypto_build_nonce e c = crypto_build_nonce e' c' \<longleftrightarrow> c = c'"
  by (simp add: crypto_build_nonce_be be64.enc_inject)

subsection \<open>Frames\<close>

text \<open>An update by the present values changes nothing.\<close>

lemma crypto_context_same:
  fixes ctx :: crypto_context
  shows "\<exists>pk sk. ctx = ctx\<lparr>eph_public_key := pk, eph_private_key := sk\<rparr>"
    "\<exists>k k'. ctx = ctx\<lparr>rx_key := k, tx_key := k'\<rparr>"
  by (rule exI [of _ "eph_public_key ctx"], rule exI [of _ "eph_private_key ctx"], simp)
    (rule exI [of _ "rx_key ctx"], rule exI [of _ "tx_key ctx"], simp)

lemma crypto_generate_ephemeral_frame:
  assumes "crypto_generate_ephemeral S ctx w = (r, ctx', w')"
  shows "local_frame w w'" "files w' = files w" "r = 0 \<or> r = 1"
    "\<exists>pk sk. ctx' = ctx\<lparr>eph_public_key := pk, eph_private_key := sk\<rparr>"
proof -
  obtain seed w1 where r1: "sys_random KX_SEEDBYTES w = (seed, w1)" by force
  note f1 = sys_random_local [OF r1] sys_random_frame(2) [OF r1]
  show "local_frame w w'" "files w' = files w" "r = 0 \<or> r = 1"
    using assms r1 f1 by (auto simp: crypto_generate_ephemeral_def split: option.splits)
  show "\<exists>pk sk. ctx' = ctx\<lparr>eph_public_key := pk, eph_private_key := sk\<rparr>"
    using assms r1 crypto_context_same(1) [of ctx]
    by (auto simp: crypto_generate_ephemeral_def split: option.splits)
qed

lemma crypto_generate_ephemeral_ok:
  assumes "crypto_generate_ephemeral S ctx w = (r, ctx', w')" and "kx_correct S"
  shows "r = 0 \<and> (\<exists>seed. length seed = KX_SEEDBYTES \<and>
    kx_keypair S seed = Some (eph_public_key ctx', eph_private_key ctx'))"
proof -
  obtain seed w1 where r1: "sys_random KX_SEEDBYTES w = (seed, w1)" by force
  have "length seed = KX_SEEDBYTES" using sys_random_frame(4) [OF r1] .
  with assms r1 show ?thesis
    by (auto simp: crypto_generate_ephemeral_def kx_correct_def split: option.splits)
qed

lemma crypto_sign_message_frame:
  "crypto_sign_message S ctx m w = (sig, w') \<Longrightarrow> log_frame w w' \<and> sig = sign_detached S m (private_key ctx)"
  by (auto simp: crypto_sign_message_def split: option.splits)

lemma crypto_derive_frame:
  "crypto_derive_server_keys S ctx pk w = (r, ctx', w') \<Longrightarrow>
   log_frame w w' \<and> (r = 0 \<or> r = 1) \<and> (\<exists>k k'. ctx' = ctx\<lparr>rx_key := k, tx_key := k'\<rparr>)"
  "crypto_derive_client_keys S ctx pk w = (r, ctx', w') \<Longrightarrow>
   log_frame w w' \<and> (r = 0 \<or> r = 1) \<and> (\<exists>k k'. ctx' = ctx\<lparr>rx_key := k, tx_key := k'\<rparr>)"
  using crypto_context_same(2) [of ctx]
  by (auto simp: crypto_derive_server_keys_def crypto_derive_client_keys_def split: option.splits)

lemma crypto_trust_key_save_frame:
  "crypto_trust_key_save path key w = (r, w') \<Longrightarrow> local_frame w w'"
  by (auto simp: crypto_trust_key_save_def split: prod.splits if_splits dest!: sys_fopen_wb_local
      intro: local_frame_trans [OF _ sys_chmod_local] local_frame_trans [OF _ sys_fwrite_local])

lemma crypto_config_path_frame:
  "crypto_config_path f n w = (r, w') \<Longrightarrow> local_frame w w'"
  by (auto simp: crypto_config_path_def Let_def split: option.splits prod.splits if_splits
      dest!: sys_mkdir_local)

subsection \<open>Identities on disk\<close>

text \<open>A file that holds an identity the integrity check accepts.\<close>

definition stored_identity :: "sodium \<Rightarrow> disk_file \<Rightarrow> bytes \<Rightarrow> bytes \<Rightarrow> bool" where
  "stored_identity S f pk sk \<longleftrightarrow>
     length pk = CRYPTO_PUBLIC_KEY_SIZE \<and> length sk = CRYPTO_PRIVATE_KEY_SIZE \<and>
     take (CRYPTO_PUBLIC_KEY_SIZE + CRYPTO_PRIVATE_KEY_SIZE) (contents f) = pk @ sk \<and>
     (\<exists>sig. sign_detached S identity_probe sk = Some sig \<and> sign_verify S sig identity_probe pk)"

lemma stored_identity_parts:
  assumes "stored_identity S f pk sk"
  shows "take CRYPTO_PUBLIC_KEY_SIZE (contents f) = pk"
    "take CRYPTO_PRIVATE_KEY_SIZE (drop CRYPTO_PUBLIC_KEY_SIZE (contents f)) = sk"
proof -
  have eq: "take (CRYPTO_PUBLIC_KEY_SIZE + CRYPTO_PRIVATE_KEY_SIZE) (contents f) = pk @ sk"
    and len: "length pk = CRYPTO_PUBLIC_KEY_SIZE" "length sk = CRYPTO_PRIVATE_KEY_SIZE"
    using assms by (auto simp: stored_identity_def)
  from arg_cong [OF eq, of length] len
  have "CRYPTO_PUBLIC_KEY_SIZE + CRYPTO_PRIVATE_KEY_SIZE \<le> length (contents f)" by simp
  with eq len show "take CRYPTO_PUBLIC_KEY_SIZE (contents f) = pk"
    and "take CRYPTO_PRIVATE_KEY_SIZE (drop CRYPTO_PUBLIC_KEY_SIZE (contents f)) = sk"
    by (auto simp: take_add append_eq_conv_conj)
qed

lemma sys_fopen_rb_file: "sys_fopen_rb path w = Some f \<Longrightarrow> files w path = Some f"
  by (simp add: sys_fopen_rb_def split: if_splits)

lemma crypto_identity_load_stored:
  assumes "sys_fopen_rb path w = Some f" and st: "stored_identity S f pk sk" and "wf_crypto ctx"
  shows "crypto_identity_load S ctx path w = (True, ctx\<lparr>public_key := pk, private_key := sk\<rparr>, w)"
  using assms stored_identity_parts [OF st]
  by (auto simp: crypto_identity_load_def fread_into_def wf_crypto_def stored_identity_def Let_def
      crypto_sign_message_def crypto_verify_message_def)

lemma crypto_identity_load_sound:
  assumes "crypto_identity_load S ctx path w = (True, ctx', w')" and "wf_crypto ctx"
  shows "w' = w \<and> (\<exists>f. files w path = Some f \<and> stored_identity S f (public_key ctx') (private_key ctx'))"
proof -
  obtain f where f: "sys_fopen_rb path w = Some f"
    using assms(1) by (auto simp: crypto_identity_load_def split: option.splits)
  have len: "CRYPTO_PUBLIC_KEY_SIZE + CRYPTO_PRIVATE_KEY_SIZE \<le> length (contents f)"
    using assms f
    by (auto simp: crypto_identity_load_def fread_into_def Let_def wf_crypto_def min_def
        size_consts split: if_splits option.splits prod.splits)
  then have parts: "length (take CRYPTO_PUBLIC_KEY_SIZE (contents f)) = CRYPTO_PUBLIC_KEY_SIZE"
    "length (take CRYPTO_PRIVATE_KEY_SIZE (drop CRYPTO_PUBLIC_KEY_SIZE (contents f))) = CRYPTO_PRIVATE_KEY_SIZE"
    by simp_all
  show ?thesis
    using assms f parts sys_fopen_rb_file [OF f]
    by (auto simp: crypto_identity_load_def fread_into_def Let_def wf_crypto_def stored_identity_def
        crypto_sign_message_def crypto_verify_message_def take_add
        split: if_splits option.splits prod.splits)
qed

lemma crypto_identity_load_frame:
  assumes "crypto_identity_load S ctx path w = (b, ctx', w')"
  shows "log_frame w w'"
proof -
  obtain sig w1 where sg: "\<And>c. c = ctx' \<Longrightarrow> crypto_sign_message S c identity_probe w = (sig, w1)" by force
  have "log_frame w w1" using crypto_sign_message_frame sg by blast
  then have "log_frame w (log_msg m r f as (log_msg m' r' f' as' w1))" for m r f as m' r' f' as'
    by (blast intro: log_frame_trans log_frame_log_msg)
  then show ?thesis
    using assms sg \<open>log_frame w w1\<close>
    by (auto simp: crypto_identity_load_def fread_into_def Let_def split: if_splits option.splits prod.splits)
qed

lemma sys_fwrite_stored:
  "files w path = Some f \<Longrightarrow> length b \<le> write_quota w (write_calls w) \<Longrightarrow>
   files (sys_fwrite path b w) path = Some (f\<lparr>contents := contents f @ b\<rparr>)"
  by (simp add: sys_fwrite_def)

lemma crypto_identity_create_stored:
  assumes gen: "crypto_generate_identity S ctx w = (0, ctx', w1)"
    and opn: "sys_fopen_wb path w1 = (True, w2)"
    and S: "sign_correct S" and quota: "\<And>i. CRYPTO_PRIVATE_KEY_SIZE \<le> write_quota w i"
  shows "\<exists>f. files (sys_chmod path (sys_fwrite path (private_key ctx') (sys_fwrite path (public_key ctx') w2))) path
    = Some f \<and> owner_only f \<and> stored_identity S f (public_key ctx') (private_key ctx')"
proof -
  obtain seed v where sr: "sys_random SIGN_SEEDBYTES w = (seed, v)" by force
  have "length seed = SIGN_SEEDBYTES" using sys_random_frame(4) [OF sr] .
  with S obtain pk sk where keys: "sign_keypair S seed = Some (pk, sk)" "length pk = CRYPTO_PUBLIC_KEY_SIZE"
      "length sk = CRYPTO_PRIVATE_KEY_SIZE"
      and sig: "\<And>m. \<exists>sig. sign_detached S m sk = Some sig \<and> sign_verify S sig m pk"
    unfolding sign_correct_def by blast
  have ctx': "ctx' = ctx\<lparr>public_key := pk, private_key := sk\<rparr>" "w1 = v"
    using gen sr keys by (auto simp: crypto_generate_identity_def)
  have "write_quota w2 i = write_quota w i" for i
    using opn sys_random_env [OF sr] ctx'(2) by (auto simp: sys_fopen_wb_def env_frame_def split: if_splits)
  with quota have q: "64 \<le> write_quota w2 i" for i by (simp add: size_consts)
  from q have q': "32 \<le> write_quota w2 i" for i
    using order_trans [of 32 64 "write_quota w2 i"] by simp
  obtain f0 where f0: "files w2 path = Some f0" "contents f0 = []"
    using opn by (auto simp: sys_fopen_wb_def split: if_splits)
  have f1: "files (sys_fwrite path pk w2) path = Some (f0\<lparr>contents := pk\<rparr>)"
    using sys_fwrite_stored [OF f0(1), of pk] f0(2) keys(2) q' by (simp add: size_consts)
  have f2: "files (sys_fwrite path sk (sys_fwrite path pk w2)) path = Some (f0\<lparr>contents := pk @ sk\<rparr>)"
    using sys_fwrite_stored [OF f1, of sk] keys(3) q by (simp add: size_consts sys_fwrite_def)
  show ?thesis
    using f2 keys sig [of identity_probe] ctx'
    by (simp add: sys_chmod_def stored_identity_def)
qed

text \<open>After a successful start the file holds the identity in use.\<close>

lemma crypto_identity_stored:
  assumes run: "crypto_identity_load_or_create S ctx path w = (0, ctx', w')"
    and S: "sign_correct S" and wf: "wf_crypto ctx"
    and quota: "\<And>i. CRYPTO_PRIVATE_KEY_SIZE \<le> write_quota w i"
  shows "\<exists>f. files w' path = Some f \<and> stored_identity S f (public_key ctx') (private_key ctx')"
proof -
  obtain loaded ctx1 w1 where ld: "crypto_identity_load S ctx path w = (loaded, ctx1, w1)"
    by (metis prod_cases3)
  show ?thesis
  proof (cases loaded)
    case True
    with run ld crypto_identity_load_sound [of S ctx path w ctx1 w1] wf show ?thesis
      by (auto simp: crypto_identity_load_or_create_def)
  next
    case False
    obtain r ctx2 w2 where gen: "crypto_generate_identity S ctx1 w1 = (r, ctx2, w2)" by (metis prod_cases3)
    obtain ok w3 where opn: "sys_fopen_wb path w2 = (ok, w3)" by force
    have "write_quota w1 = write_quota w"
      using crypto_identity_load_frame [OF ld] by (simp add: log_frame_def io_frame_def)
    then have quota1: "CRYPTO_PRIVATE_KEY_SIZE \<le> write_quota w1 i" for i using quota by simp
    from run ld False gen opn have "r = 0" "ok" "ctx' = ctx2"
      "w' = sys_chmod path (sys_fwrite path (private_key ctx2) (sys_fwrite path (public_key ctx2) w3))"
      by (auto simp: crypto_identity_load_or_create_def Let_def split: if_splits)
    with crypto_identity_create_stored [of S ctx1 w1 ctx2 w2 path w3] gen opn S quota1 show ?thesis
      by auto
  qed
qed

end
