(* ===== verification/Auth.thy ===== *)
theory Auth
  imports Crypto
begin

text \<open>
  The authentication messages of \<^verbatim>\<open>src/shared/auth.h\<close>. The sources copy these structs
  to and from packet payloads with \<^verbatim>\<open>memcpy\<close>: the encodings below are their object
  representations (no padding: the arrays are bytes, and the session id of the last one
  starts at offset 32). The session id of \<^verbatim>\<open>AUTH_SUCCESS_T\<close> is therefore in the byte
  order of the host.
\<close>

definition AUTH_NONCE_SIZE :: nat where "AUTH_NONCE_SIZE = 16"
definition SESSION_NONCE_SIZE :: nat where "SESSION_NONCE_SIZE = 32"

lemmas auth_sizes [size_consts] = AUTH_NONCE_SIZE_def SESSION_NONCE_SIZE_def

record auth_challenge =
  ch_signature :: bytes
  ch_public_key :: bytes
  ch_eph_public_key :: bytes
  ch_nonce :: bytes

record auth_response =
  rs_signature :: bytes
  rs_public_key :: bytes
  rs_eph_public_key :: bytes

record auth_success =
  su_session_nonce :: bytes
  su_session_id :: u64

definition SIZEOF_AUTH_CHALLENGE :: nat where "SIZEOF_AUTH_CHALLENGE = 144"
definition SIZEOF_AUTH_RESPONSE :: nat where "SIZEOF_AUTH_RESPONSE = 128"
definition SIZEOF_AUTH_SUCCESS :: nat where "SIZEOF_AUTH_SUCCESS = 40"

lemmas auth_struct_sizes [size_consts] =
  SIZEOF_AUTH_CHALLENGE_def SIZEOF_AUTH_RESPONSE_def SIZEOF_AUTH_SUCCESS_def

definition challenge_mem :: "auth_challenge \<Rightarrow> bytes" where
  "challenge_mem c = ch_signature c @ ch_public_key c @ ch_eph_public_key c @ ch_nonce c"

definition challenge_of_mem :: "bytes \<Rightarrow> auth_challenge" where
  "challenge_of_mem bs =
     \<lparr>ch_signature = take CRYPTO_SIGNATURE_SIZE bs,
      ch_public_key = take CRYPTO_PUBLIC_KEY_SIZE (drop CRYPTO_SIGNATURE_SIZE bs),
      ch_eph_public_key = take KX_PUBLICKEYBYTES (drop (CRYPTO_SIGNATURE_SIZE + CRYPTO_PUBLIC_KEY_SIZE) bs),
      ch_nonce = take AUTH_NONCE_SIZE
        (drop (CRYPTO_SIGNATURE_SIZE + CRYPTO_PUBLIC_KEY_SIZE + KX_PUBLICKEYBYTES) bs)\<rparr>"

definition response_mem :: "auth_response \<Rightarrow> bytes" where
  "response_mem r = rs_signature r @ rs_public_key r @ rs_eph_public_key r"

definition response_of_mem :: "bytes \<Rightarrow> auth_response" where
  "response_of_mem bs =
     \<lparr>rs_signature = take CRYPTO_SIGNATURE_SIZE bs,
      rs_public_key = take CRYPTO_PUBLIC_KEY_SIZE (drop CRYPTO_SIGNATURE_SIZE bs),
      rs_eph_public_key = take KX_PUBLICKEYBYTES (drop (CRYPTO_SIGNATURE_SIZE + CRYPTO_PUBLIC_KEY_SIZE) bs)\<rparr>"

definition success_mem :: "endian \<Rightarrow> auth_success \<Rightarrow> bytes" where
  "success_mem e a = su_session_nonce a @ mem_bytes e 8 (su_session_id a)"

definition success_of_mem :: "endian \<Rightarrow> bytes \<Rightarrow> auth_success" where
  "success_of_mem e bs =
     \<lparr>su_session_nonce = take SESSION_NONCE_SIZE bs,
      su_session_id = mem_word e (take 8 (drop SESSION_NONCE_SIZE bs))\<rparr>"

text \<open>The arrays have their declared sizes.\<close>

definition wf_challenge :: "auth_challenge \<Rightarrow> bool" where
  "wf_challenge c \<longleftrightarrow>
     length (ch_signature c) = CRYPTO_SIGNATURE_SIZE \<and> length (ch_public_key c) = CRYPTO_PUBLIC_KEY_SIZE \<and>
     length (ch_eph_public_key c) = KX_PUBLICKEYBYTES \<and> length (ch_nonce c) = AUTH_NONCE_SIZE"

definition wf_response :: "auth_response \<Rightarrow> bool" where
  "wf_response r \<longleftrightarrow>
     length (rs_signature r) = CRYPTO_SIGNATURE_SIZE \<and> length (rs_public_key r) = CRYPTO_PUBLIC_KEY_SIZE \<and>
     length (rs_eph_public_key r) = KX_PUBLICKEYBYTES"

definition wf_success :: "auth_success \<Rightarrow> bool" where
  "wf_success a \<longleftrightarrow> length (su_session_nonce a) = SESSION_NONCE_SIZE"

section \<open>Codecs\<close>

interpretation challenge: fixed_codec challenge_mem challenge_of_mem SIZEOF_AUTH_CHALLENGE wf_challenge
  by unfold_locales
    (auto simp: challenge_mem_def challenge_of_mem_def wf_challenge_def size_consts)

interpretation response: fixed_codec response_mem response_of_mem SIZEOF_AUTH_RESPONSE wf_response
  by unfold_locales
    (auto simp: response_mem_def response_of_mem_def wf_response_def size_consts)

interpretation success: fixed_codec "success_mem e" "success_of_mem e" SIZEOF_AUTH_SUCCESS wf_success
  for e
  by unfold_locales
    (auto simp: success_mem_def success_of_mem_def wf_success_def size_consts mem_word_mem_bytes)

text \<open>
  Whatever bytes of the right length arrive, they are the encoding of a well-formed message.
\<close>

lemma challenge_of_mem_wf:
  assumes "length bs = SIZEOF_AUTH_CHALLENGE"
  shows "wf_challenge (challenge_of_mem bs)" "challenge_mem (challenge_of_mem bs) = bs"
proof -
  show "wf_challenge (challenge_of_mem bs)"
    using assms by (simp add: wf_challenge_def challenge_of_mem_def size_consts)
  have "length (drop 128 bs) = 16"
    using assms by (simp add: size_consts)
  then have "take 64 (drop 0 bs) @ take 32 (drop 64 bs) @ take 32 (drop 96 bs) @ take 16 (drop 128 bs) = drop 0 bs"
    using take_drop_append [of 64 0 bs] take_drop_append [of 32 64 bs] take_drop_append [of 32 96 bs]
    by simp
  then show "challenge_mem (challenge_of_mem bs) = bs"
    by (simp add: challenge_mem_def challenge_of_mem_def size_consts)
qed

lemma response_of_mem_wf:
  assumes "length bs = SIZEOF_AUTH_RESPONSE"
  shows "wf_response (response_of_mem bs)"
  using assms by (simp add: wf_response_def response_of_mem_def size_consts)

lemma success_of_mem_wf:
  assumes "length bs = SIZEOF_AUTH_SUCCESS"
  shows "wf_success (success_of_mem e bs)"
  using assms by (simp add: wf_success_def success_of_mem_def size_consts)

text \<open>
  Between hosts of different byte order the session id arrives reversed.
\<close>

lemma success_cross_endian:
  assumes "wf_success a"
  shows "su_session_id (success_of_mem BigEndian (success_mem LittleEndian a)) = bswap 8 (su_session_id a)"
    and "su_session_id (success_of_mem LittleEndian (success_mem BigEndian a)) = bswap 8 (su_session_id a)"
  using assms
  by (simp_all add: success_of_mem_def success_mem_def wf_success_def mem_word_def mem_bytes_def
      bswap_def word_be_def bytes_be_def)

end
