(* ===== verification/UdpTunnel.thy ===== *)
theory UdpTunnel
  imports Logs
begin

text \<open>
  \<^verbatim>\<open>src/tunnel/udp_tunnel.c\<close>: the UDP endpoint of a session. The server keeps the address
  its client was last heard from, the client opens a socket connected to the server.
\<close>

record udp_tunnel =
  peer_addr :: sockaddr_in
  udp_session_id :: u64
  udp_socket :: int
  peer_known :: bool

definition no_addr :: sockaddr_in where
  "no_addr = \<lparr>sin_addr = 0, sin_port = 0\<rparr>"

text \<open>All bytes zero: the descriptor is 0.\<close>

definition zero_udp_tunnel :: udp_tunnel where
  "zero_udp_tunnel = \<lparr>peer_addr = no_addr, udp_session_id = 0, udp_socket = 0, peer_known = False\<rparr>"

definition udp_tunnel_init :: "u64 \<Rightarrow> udp_tunnel" where
  "udp_tunnel_init session_id = zero_udp_tunnel\<lparr>udp_socket := -1, udp_session_id := session_id\<rparr>"

definition udp_tunnel_client_open :: "udp_tunnel \<Rightarrow> string \<Rightarrow> u16 \<Rightarrow> world \<Rightarrow> rc \<times> udp_tunnel \<times> world" where
  "udp_tunnel_client_open tunnel server_ip port w =
     (case sys_socket w of (fd, w) \<Rightarrow>
        let tunnel = tunnel\<lparr>udp_socket := fd\<rparr>
        in if fd < 0 then
             (1, tunnel, log_msg ERROR_MSG CLIENT_RT ''Failed to create UDP tunnel socket'' [] w)
           else
             (case inet_pton server_ip of
                None \<Rightarrow>
                  (1, tunnel\<lparr>udp_socket := -1\<rparr>,
                   sys_close fd (log_msg ERROR_MSG CLIENT_RT ''Invalid server IP for UDP tunnel'' [] w))
              | Some addr \<Rightarrow>
                  (case sys_net w of (connected, w) \<Rightarrow>
                     if \<not> connected then
                       (1, tunnel\<lparr>udp_socket := -1\<rparr>,
                        sys_close fd (log_msg ERROR_MSG CLIENT_RT ''Failed to connect UDP tunnel socket'' [] w))
                     else
                       (0, tunnel\<lparr>peer_addr := \<lparr>sin_addr = addr, sin_port = port\<rparr>, peer_known := True\<rparr>, w))))"

definition udp_tunnel_close :: "udp_tunnel \<Rightarrow> world \<Rightarrow> udp_tunnel \<times> world" where
  "udp_tunnel_close tunnel w =
     (let w = (if udp_socket tunnel \<ge> 0 then sys_close (udp_socket tunnel) w else w)
      in (tunnel\<lparr>udp_socket := -1, peer_known := False\<rparr>, w))"

lemma udp_tunnel_close_closed [simp]:
  "udp_socket tunnel < 0 \<Longrightarrow> udp_tunnel_close tunnel w = (tunnel\<lparr>udp_socket := -1, peer_known := False\<rparr>, w)"
  by (simp add: udp_tunnel_close_def)

text \<open>
  Opening fails without leaving a socket behind, and an open tunnel knows its peer.
\<close>

lemma udp_tunnel_client_open_result:
  assumes "udp_tunnel_client_open tunnel ip port w = (r, tunnel', w')"
  shows "r = 0 \<or> r = 1"
    "r = 1 \<Longrightarrow> udp_socket tunnel' = -1 \<and> (\<forall>fd. socks w fd = None \<longrightarrow> socks w' fd = None)"
    "r = 0 \<Longrightarrow> peer_known tunnel' \<and> 0 \<le> udp_socket tunnel' \<and> socks w' (udp_socket tunnel') \<noteq> None \<and>
       inet_pton ip = Some (sin_addr (peer_addr tunnel')) \<and> sin_port (peer_addr tunnel') = port"
  using assms
  by (auto simp: udp_tunnel_client_open_def sys_socket_def sys_net_def sys_close_def Let_def
      split: if_splits option.splits)

end
