(* ===== verification/Session.thy ===== *)
theory Session
  imports Auth UdpTunnel
begin

text \<open>
  A session, \<^verbatim>\<open>src/sessions/session.h\<close> and \<^verbatim>\<open>session.c\<close>: its creation and
  destruction, and the handshake of the server and of the client. Each side is one function
  that sends and receives packets on the session's socket and returns 0 when the session is
  established.
\<close>

section \<open>Types (session.h)\<close>

datatype session_state_t =
    SESSION_CONNECTING
  | SESSION_WAIT_AUTH
  | SESSION_AUTHENTICATED
  | SESSION_ESTABLISHED
  | SESSION_DISCONNECTED

datatype session_role_t = SESSION_SERVER | SESSION_CLIENT

record session =
  crypto :: crypto_context
  udp :: udp_tunnel
  session_id :: u64
  trusted_peer_key :: bytes
  session_nonce :: bytes
  auth_nonce :: bytes
  ip :: string
  has_trusted_peer_key :: bool
  protocol_version :: byte
  tunnel_ip_octet :: byte
  sess_state :: session_state_t
  role :: session_role_t
  sess_socket :: int

text \<open>A session whose bytes are all zero, as \<^verbatim>\<open>memset\<close> leaves it.\<close>

definition zero_session :: session where
  "zero_session =
     \<lparr>crypto = crypto_context_init, udp = zero_udp_tunnel, session_id = 0,
      trusted_peer_key = zeros CRYPTO_PUBLIC_KEY_SIZE, session_nonce = zeros SESSION_NONCE_SIZE,
      auth_nonce = zeros AUTH_NONCE_SIZE, ip = [], has_trusted_peer_key = False,
      protocol_version = 0, tunnel_ip_octet = 0, sess_state = SESSION_CONNECTING,
      role = SESSION_SERVER, sess_socket = 0\<rparr>"

definition INET_ADDRSTRLEN :: nat where "INET_ADDRSTRLEN = 16"

section \<open>Creation and destruction (session.c)\<close>

definition generate_session_id :: "world \<Rightarrow> u64 \<times> world" where
  "generate_session_id w = (case sys_random 8 w of (b, w) \<Rightarrow> (mem_word (host w) b, w))"

definition session_init :: "session_role_t \<Rightarrow> session" where
  "session_init rl =
     zero_session\<lparr>sess_socket := -1, sess_state := SESSION_DISCONNECTED, role := rl,
                  crypto := crypto_context_init\<rparr>"

definition session_create ::
    "session_role_t \<Rightarrow> int \<Rightarrow> string \<Rightarrow> crypto_context \<Rightarrow> bytes option \<Rightarrow> world \<Rightarrow> rc \<times> session \<times> world" where
  "session_create rl sock_fd addr identity trusted w =
     (let s = session_init rl;
          s = s\<lparr>crypto := (crypto s)\<lparr>public_key := public_key identity, private_key := private_key identity\<rparr>\<rparr>;
          s = (case trusted of None \<Rightarrow> s
               | Some key \<Rightarrow> s\<lparr>trusted_peer_key := key, has_trusted_peer_key := True\<rparr>);
          s = s\<lparr>sess_socket := sock_fd\<rparr>
      in (case generate_session_id w of (sid, w) \<Rightarrow>
            let s = s\<lparr>session_id := sid\<rparr>;
                s = s\<lparr>udp := udp_tunnel_init (session_id s)\<rparr>;
                s = s\<lparr>protocol_version := CURRENT_PROTOCOL_VERSION\<rparr>;
                s = s\<lparr>ip := take (INET_ADDRSTRLEN - 1) addr\<rparr>;
                s = s\<lparr>sess_state := SESSION_CONNECTING\<rparr>
            in (0, s, w)))"

definition session_destroy :: "session \<Rightarrow> world \<Rightarrow> session \<times> world" where
  "session_destroy s w =
     (let w = (if sess_socket s \<ge> 0 then sys_close (sess_socket s) w else w)
      in (case udp_tunnel_close (udp s) w of (_, w) \<Rightarrow>
            (zero_session\<lparr>sess_socket := -1, sess_state := SESSION_DISCONNECTED\<rparr>, w)))"

section \<open>The server's side of the handshake\<close>

definition session_authenticate_server :: "sodium \<Rightarrow> session \<Rightarrow> world \<Rightarrow> rc \<times> session \<times> world" where
  "session_authenticate_server S s w =
     (case crypto_generate_nonce AUTH_NONCE_SIZE w of (nonce, w) \<Rightarrow>
      let s = s\<lparr>auth_nonce := nonce\<rparr>
      in case crypto_generate_ephemeral S (crypto s) w of (r, ctx, w) \<Rightarrow>
      let s = s\<lparr>crypto := ctx\<rparr>
      in if r \<noteq> 0 then (1, s, w)
      else
       (let sign_buf = auth_nonce s @ eph_public_key (crypto s)
        in case crypto_sign_message S (crypto s) sign_buf w of
          (None, w) \<Rightarrow> (1, s, w)
        | (Some sig, w) \<Rightarrow>
           (let challenge = \<lparr>ch_signature = sig, ch_public_key = public_key (crypto s),
                  ch_eph_public_key = eph_public_key (crypto s), ch_nonce = auth_nonce s\<rparr>
            in case packet_construct
                 \<lparr>c_payload = Some (challenge_mem challenge),
                  c_payload_length = of_nat SIZEOF_AUTH_CHALLENGE,
                  header_type = PACKET_AUTH_REQUEST, header_version = protocol_version s\<rparr> w of (p, w) \<Rightarrow>
               case packet_send (sess_socket s) p w of (r, w) \<Rightarrow>
                 if r \<noteq> 0 then
                   (let w = log_msg ERROR_MSG SERVER_RT ''Failed to send the authentication request packet'' [] w
                    in case packet_destroy p w of (p, w) \<Rightarrow> (1, s, w))
                 else
                   (case packet_destroy p w of (p, w) \<Rightarrow>
                      (0, s\<lparr>sess_state := SESSION_WAIT_AUTH\<rparr>,
                       log_msg SUCCESS_MSG SERVER_RT ''Requested for client authentication'' [] w)))))"

definition session_verify_client :: "sodium \<Rightarrow> session \<Rightarrow> world \<Rightarrow> rc \<times> session \<times> world" where
  "session_verify_client S s w =
     (case packet_receive (sess_socket s) packet_init w of (r, p, w) \<Rightarrow>
        if r \<noteq> 0 then (case packet_destroy p w of (p, w) \<Rightarrow> (1, s, w))
        else if ptype (header p) \<noteq> type_code PACKET_AUTH_RESPONSE then
          (case packet_destroy p w of (p, w) \<Rightarrow> (1, s, w))
        else if payload_length (header p) \<noteq> of_nat SIZEOF_AUTH_RESPONSE then
          (case packet_destroy p w of (p, w) \<Rightarrow> (1, s, w))
        else
          (let resp = response_of_mem (payload_bytes p)
           in case packet_destroy p w of (p, w) \<Rightarrow>
              let s = s\<lparr>crypto := (crypto s)\<lparr>peer_public_key := rs_public_key resp\<rparr>\<rparr>;
                  verify_buf = auth_nonce s @ rs_eph_public_key resp
              in if crypto_verify_message S (rs_public_key resp) verify_buf (rs_signature resp) \<noteq> 0
                 then (1, s, w)
                 else
                   (case crypto_derive_server_keys S (crypto s) (rs_eph_public_key resp) w of (r, ctx, w) \<Rightarrow>
                      let s = s\<lparr>crypto := ctx\<rparr>
                      in if r \<noteq> 0 then
                           (1, s, log_msg ERROR_MSG SERVER_RT ''Failed to derive session keys'' [] w)
                         else (0, s\<lparr>crypto := (crypto s)\<lparr>verified := 1\<rparr>\<rparr>, w))))"

text \<open>The end of \<^verbatim>\<open>session_server_connect\<close>: the session nonce and the confirmation.\<close>

definition server_confirm :: "session \<Rightarrow> world \<Rightarrow> rc \<times> session \<times> world" where
  "server_confirm s w =
     (case crypto_generate_nonce SESSION_NONCE_SIZE w of (nonce, w) \<Rightarrow>
      let s = s\<lparr>session_nonce := nonce\<rparr>;
          success_data = \<lparr>su_session_nonce = session_nonce s, su_session_id = session_id s\<rparr>
      in case packet_construct
           \<lparr>c_payload = Some (success_mem (host w) success_data),
            c_payload_length = of_nat SIZEOF_AUTH_SUCCESS,
            header_type = PACKET_AUTH_SUCCESS, header_version = protocol_version s\<rparr> w of
           (success, w) \<Rightarrow>
         case packet_send (sess_socket s) success w of (r, w) \<Rightarrow>
           if r \<noteq> 0 then (case packet_destroy success w of (success, w) \<Rightarrow> (1, s, w))
           else
             (case packet_destroy success w of (success, w) \<Rightarrow>
                (0, s\<lparr>sess_state := SESSION_ESTABLISHED\<rparr>, w)))"

definition session_server_connect :: "sodium \<Rightarrow> session \<Rightarrow> world \<Rightarrow> rc \<times> session \<times> world" where
  "session_server_connect S s w =
     (case packet_receive (sess_socket s) packet_init w of (r, p, w) \<Rightarrow>
        if r \<noteq> 0 then (case packet_destroy p w of (p, w) \<Rightarrow> (1, s, w))
        else if ptype (header p) \<noteq> type_code PACKET_CLIENT_HELLO then
          (case packet_destroy p w of (p, w) \<Rightarrow> (1, s, w))
        else if version (header p) \<noteq> CURRENT_PROTOCOL_VERSION then
          (case packet_destroy p w of (p, w) \<Rightarrow> (1, s, w))
        else
         (case packet_destroy p w of (p, w) \<Rightarrow>
          case packet_construct
            \<lparr>c_payload = None, c_payload_length = 0,
             header_type = PACKET_SERVER_HELLO, header_version = protocol_version s\<rparr> w of (hello, w) \<Rightarrow>
          case packet_send (sess_socket s) hello w of (r, w) \<Rightarrow>
            if r \<noteq> 0 then (case packet_destroy hello w of (hello, w) \<Rightarrow> (1, s, w))
            else
             (case packet_destroy hello w of (hello, w) \<Rightarrow>
              let s = s\<lparr>sess_state := SESSION_WAIT_AUTH\<rparr>;
                  w = log_msg SUCCESS_MSG SERVER_RT ''Handshake completed'' [] w
              in case session_authenticate_server S s w of (r, s, w) \<Rightarrow>
                if r \<noteq> 0 then
                  (1, s, log_msg ERROR_MSG SERVER_RT ''Couldn't authenticate the server'' [] w)
                else
                 (case session_verify_client S s w of (r, s, w) \<Rightarrow>
                   if r \<noteq> 0 then
                     (1, s, log_msg ERROR_MSG SERVER_RT ''Couldn't verify the current session'' [] w)
                   else server_confirm s w))))"

section \<open>The client's side of the handshake\<close>

text \<open>
  \<^verbatim>\<open>session_authenticate_client\<close> in the order of its text: the server's key is compared
  with the trusted one or becomes the trusted one (\<open>client_pin\<close>), the challenge is verified,
  the response is made and sent (\<open>client_respond\<close>), and the confirmation is awaited
  (\<open>client_await\<close>).
\<close>

definition client_pin :: "bytes \<Rightarrow> session \<Rightarrow> world \<Rightarrow> session \<times> world" where
  "client_pin key s w =
     (let s = s\<lparr>trusted_peer_key := key, has_trusted_peer_key := True\<rparr>;
          w = (case crypto_config_path ''server_trusted.key'' PATH_MAX w of
                 (None, w) \<Rightarrow> w
               | (Some save_path, w) \<Rightarrow> snd (crypto_trust_key_save save_path key w))
      in (s, log_msg WARN_MSG CLIENT_RT ''Trusting server key on first connection'' [] w))"

definition client_await :: "session \<Rightarrow> world \<Rightarrow> rc \<times> session \<times> world" where
  "client_await s w =
     (case packet_receive (sess_socket s) packet_init w of (r, result, w) \<Rightarrow>
        if r \<noteq> 0 then (case packet_destroy result w of (result, w) \<Rightarrow> (1, s, w))
        else if ptype (header result) \<noteq> type_code PACKET_AUTH_SUCCESS then
          (case packet_destroy result w of (result, w) \<Rightarrow> (1, s, w))
        else if payload_length (header result) \<noteq> of_nat SIZEOF_AUTH_SUCCESS then
          (case packet_destroy result w of (result, w) \<Rightarrow> (1, s, w))
        else
          (let success = success_of_mem (host w) (payload_bytes result)
           in case packet_destroy result w of (result, w) \<Rightarrow>
                let s = s\<lparr>session_id := su_session_id success\<rparr>;
                    s = s\<lparr>session_nonce := su_session_nonce success\<rparr>;
                    s = s\<lparr>sess_state := SESSION_ESTABLISHED\<rparr>
                in (0, s, log_msg SUCCESS_MSG CLIENT_RT
                            ''Session authenticated and established'' [] w)))"

definition client_respond :: "sodium \<Rightarrow> auth_challenge \<Rightarrow> session \<Rightarrow> world \<Rightarrow> rc \<times> session \<times> world" where
  "client_respond S challenge s w =
     (case crypto_generate_ephemeral S (crypto s) w of (r, ctx, w) \<Rightarrow>
      let s = s\<lparr>crypto := ctx\<rparr>
      in if r \<noteq> 0 then (1, s, w)
      else
       (case crypto_derive_client_keys S (crypto s) (ch_eph_public_key challenge) w of (r, ctx, w) \<Rightarrow>
        let s = s\<lparr>crypto := ctx\<rparr>
        in if r \<noteq> 0 then
             (1, s, log_msg ERROR_MSG CLIENT_RT ''Failed to derive session keys'' [] w)
        else
         (let resp_sign_buf = ch_nonce challenge @ eph_public_key (crypto s)
          in case crypto_sign_message S (crypto s) resp_sign_buf w of
            (None, w) \<Rightarrow> (1, s, w)
          | (Some sig, w) \<Rightarrow>
             (let resp = \<lparr>rs_signature = sig, rs_public_key = public_key (crypto s),
                    rs_eph_public_key = eph_public_key (crypto s)\<rparr>
              in case packet_construct
                   \<lparr>c_payload = Some (response_mem resp),
                    c_payload_length = of_nat SIZEOF_AUTH_RESPONSE,
                    header_type = PACKET_AUTH_RESPONSE, header_version = protocol_version s\<rparr> w of
                   (reply, w) \<Rightarrow>
                 case packet_send (sess_socket s) reply w of (r, w) \<Rightarrow>
                   if r \<noteq> 0 then
                     (let w = log_msg ERROR_MSG CLIENT_RT
                                ''Failed to send the authentication response packet'' [] w
                      in case packet_destroy reply w of (reply, w) \<Rightarrow> (1, s, w))
                   else
                     (case packet_destroy reply w of (reply, w) \<Rightarrow>
                        client_await (s\<lparr>sess_state := SESSION_WAIT_AUTH\<rparr>) w)))))"

definition session_authenticate_client :: "sodium \<Rightarrow> session \<Rightarrow> world \<Rightarrow> rc \<times> session \<times> world" where
  "session_authenticate_client S s w =
     (case packet_receive (sess_socket s) packet_init w of (r, p, w) \<Rightarrow>
        if r \<noteq> 0 then (case packet_destroy p w of (p, w) \<Rightarrow> (1, s, w))
        else if ptype (header p) \<noteq> type_code PACKET_AUTH_REQUEST then
          (case packet_destroy p w of (p, w) \<Rightarrow> (1, s, w))
        else if payload_length (header p) \<noteq> of_nat SIZEOF_AUTH_CHALLENGE then
          (case packet_destroy p w of (p, w) \<Rightarrow> (1, s, w))
        else
         (let challenge = challenge_of_mem (payload_bytes p)
          in case packet_destroy p w of (p, w) \<Rightarrow>
             if has_trusted_peer_key s \<and> ch_public_key challenge \<noteq> trusted_peer_key s then
               (1, s, log_msg ERROR_MSG CLIENT_RT ''Server key does not match trusted key'' [] w)
             else
               (case (if has_trusted_peer_key s then (s, w)
                      else client_pin (ch_public_key challenge) s w) of (s, w) \<Rightarrow>
                  let s = s\<lparr>crypto := (crypto s)\<lparr>peer_public_key := ch_public_key challenge\<rparr>\<rparr>;
                      verify_buf = ch_nonce challenge @ ch_eph_public_key challenge
                  in if crypto_verify_message S (ch_public_key challenge) verify_buf (ch_signature challenge) \<noteq> 0
                     then (1, s, log_msg ERROR_MSG CLIENT_RT
                             ''Server challenge signature invalid, possible tampering'' [] w)
                     else client_respond S challenge s w)))"

definition session_client_connect :: "sodium \<Rightarrow> session \<Rightarrow> world \<Rightarrow> rc \<times> session \<times> world" where
  "session_client_connect S s w =
     (case packet_construct
        \<lparr>c_payload = None, c_payload_length = 0,
         header_type = PACKET_CLIENT_HELLO, header_version = CURRENT_PROTOCOL_VERSION\<rparr> w of (hello, w) \<Rightarrow>
      case packet_send (sess_socket s) hello w of (r, w) \<Rightarrow>
        if r \<noteq> 0 then (case packet_destroy hello w of (hello, w) \<Rightarrow> (1, s, w))
        else
         (case packet_destroy hello w of (hello, w) \<Rightarrow>
          case packet_receive (sess_socket s) packet_init w of (r, resp, w) \<Rightarrow>
            if r \<noteq> 0 then (case packet_destroy resp w of (resp, w) \<Rightarrow> (1, s, w))
            else if ptype (header resp) \<noteq> type_code PACKET_SERVER_HELLO then
              (case packet_destroy resp w of (resp, w) \<Rightarrow> (1, s, w))
            else if version (header resp) \<noteq> CURRENT_PROTOCOL_VERSION then
              (case packet_destroy resp w of (resp, w) \<Rightarrow> (1, s, w))
            else
              (case packet_destroy resp w of (resp, w) \<Rightarrow>
                 session_authenticate_client S s
                   (log_msg SUCCESS_MSG CLIENT_RT ''Handshake completed'' [] w))))"

end
