(* ===== verification/Handshake.thy ===== *)
theory Handshake
  imports Session
begin

text \<open>
  Facts about the two handshake functions: they work on one socket and free what they
  allocate, what each side has checked when it returns 0, and what they exchange when both
  sides run to the end.
\<close>

section \<open>The handlers, message by message\<close>

text \<open>
  The same functions with the receive-and-free and construct-send-and-free patterns folded
  into \<open>recv_msg\<close> and \<open>send_msg\<close>.
\<close>

lemma session_verify_client_msg:
  "session_verify_client S s w =
     (case recv_msg (sess_socket s) w of
        (None, w) \<Rightarrow> (1, s, w)
      | (Some p, w) \<Rightarrow>
          if ptype (header p) \<noteq> type_code PACKET_AUTH_RESPONSE \<or>
             payload_length (header p) \<noteq> of_nat SIZEOF_AUTH_RESPONSE then (1, s, w)
          else
            (let resp = response_of_mem (payload_bytes p);
                 s = s\<lparr>crypto := (crypto s)\<lparr>peer_public_key := rs_public_key resp\<rparr>\<rparr>
             in if \<not> sign_verify S (rs_signature resp) (auth_nonce s @ rs_eph_public_key resp) (rs_public_key resp)
                then (1, s, w)
                else
                  (case crypto_derive_server_keys S (crypto s) (rs_eph_public_key resp) w of (r, ctx, w) \<Rightarrow>
                     if r \<noteq> 0 then
                       (1, s\<lparr>crypto := ctx\<rparr>, log_msg ERROR_MSG SERVER_RT ''Failed to derive session keys'' [] w)
                     else (0, s\<lparr>crypto := ctx\<lparr>verified := 1\<rparr>\<rparr>, w))))"
  by (simp add: session_verify_client_def recv_msg_def crypto_verify_message_def Let_def split: prod.split)

definition message :: "packet_header_t \<Rightarrow> byte \<Rightarrow> bytes option \<Rightarrow> nat \<Rightarrow> packet_constructor_t" where
  "message t v b n = \<lparr>c_payload = b, c_payload_length = of_nat n, header_type = t, header_version = v\<rparr>"

definition challenge_of :: "session \<Rightarrow> bytes \<Rightarrow> auth_challenge" where
  "challenge_of s sig =
     \<lparr>ch_signature = sig, ch_public_key = public_key (crypto s),
      ch_eph_public_key = eph_public_key (crypto s), ch_nonce = auth_nonce s\<rparr>"

lemma session_authenticate_server_msg:
  "session_authenticate_server S s w =
     (case sys_random AUTH_NONCE_SIZE w of (nonce, w) \<Rightarrow>
      case crypto_generate_ephemeral S (crypto s) w of (r, ctx, w) \<Rightarrow>
      let s = s\<lparr>auth_nonce := nonce, crypto := ctx\<rparr>
      in if r \<noteq> 0 then (1, s, w)
      else
       (case crypto_sign_message S (crypto s) (auth_nonce s @ eph_public_key (crypto s)) w of
          (None, w) \<Rightarrow> (1, s, w)
        | (Some sig, w) \<Rightarrow>
           (case send_msg (sess_socket s) (message PACKET_AUTH_REQUEST (protocol_version s)
                   (Some (challenge_mem (challenge_of s sig))) SIZEOF_AUTH_CHALLENGE) w of (r, w) \<Rightarrow>
              if r \<noteq> 0 then
                (1, s, log_msg ERROR_MSG SERVER_RT ''Failed to send the authentication request packet'' [] w)
              else
                (0, s\<lparr>sess_state := SESSION_WAIT_AUTH\<rparr>,
                 log_msg SUCCESS_MSG SERVER_RT ''Requested for client authentication'' [] w))))"
  by (simp add: session_authenticate_server_def crypto_generate_nonce_def send_msg_def challenge_of_def
      message_def sys_free_log_msg Let_def split: prod.split option.split)

definition success_of :: "session \<Rightarrow> auth_success" where
  "success_of s = \<lparr>su_session_nonce = session_nonce s, su_session_id = session_id s\<rparr>"

lemma server_confirm_msg:
  "server_confirm s w =
     (case sys_random SESSION_NONCE_SIZE w of (nonce, w) \<Rightarrow>
      let s = s\<lparr>session_nonce := nonce\<rparr>
      in case send_msg (sess_socket s) (message PACKET_AUTH_SUCCESS (protocol_version s)
                (Some (success_mem (host w) (success_of s))) SIZEOF_AUTH_SUCCESS) w of (r, w) \<Rightarrow>
         if r \<noteq> 0 then (1, s, w) else (0, s\<lparr>sess_state := SESSION_ESTABLISHED\<rparr>, w))"
  by (simp add: server_confirm_def crypto_generate_nonce_def send_msg_def message_def success_of_def Let_def
      split: prod.split)

lemma session_server_connect_msg:
  "session_server_connect S s w =
     (case recv_msg (sess_socket s) w of
        (None, w) \<Rightarrow> (1, s, w)
      | (Some p, w) \<Rightarrow>
          if ptype (header p) \<noteq> type_code PACKET_CLIENT_HELLO \<or>
             version (header p) \<noteq> CURRENT_PROTOCOL_VERSION then (1, s, w)
          else
            (case send_msg (sess_socket s) (message PACKET_SERVER_HELLO (protocol_version s) None 0) w of (r, w) \<Rightarrow>
               if r \<noteq> 0 then (1, s, w)
               else
                 (case session_authenticate_server S (s\<lparr>sess_state := SESSION_WAIT_AUTH\<rparr>)
                         (log_msg SUCCESS_MSG SERVER_RT ''Handshake completed'' [] w) of (r, s, w) \<Rightarrow>
                    if r \<noteq> 0 then
                      (1, s, log_msg ERROR_MSG SERVER_RT ''Couldn't authenticate the server'' [] w)
                    else
                      (case session_verify_client S s w of (r, s, w) \<Rightarrow>
                         if r \<noteq> 0 then
                           (1, s, log_msg ERROR_MSG SERVER_RT ''Couldn't verify the current session'' [] w)
                         else server_confirm s w))))"
  by (simp add: session_server_connect_def recv_msg_def send_msg_def message_def Let_def split: prod.split)

definition response_of :: "session \<Rightarrow> bytes \<Rightarrow> auth_response" where
  "response_of s sig =
     \<lparr>rs_signature = sig, rs_public_key = public_key (crypto s),
      rs_eph_public_key = eph_public_key (crypto s)\<rparr>"

lemma client_await_msg:
  "client_await s w =
     (case recv_msg (sess_socket s) w of
        (None, w) \<Rightarrow> (1, s, w)
      | (Some p, w) \<Rightarrow>
          if ptype (header p) \<noteq> type_code PACKET_AUTH_SUCCESS \<or>
             payload_length (header p) \<noteq> of_nat SIZEOF_AUTH_SUCCESS then (1, s, w)
          else
            (let success = success_of_mem (host w) (payload_bytes p)
             in (0, s\<lparr>session_id := su_session_id success, session_nonce := su_session_nonce success,
                      sess_state := SESSION_ESTABLISHED\<rparr>,
                 log_msg SUCCESS_MSG CLIENT_RT ''Session authenticated and established'' [] w)))"
  by (simp add: client_await_def recv_msg_def Let_def sys_free_def split: prod.split)

lemma client_respond_msg:
  "client_respond S challenge s w =
     (case crypto_generate_ephemeral S (crypto s) w of (r, ctx, w) \<Rightarrow>
      let s = s\<lparr>crypto := ctx\<rparr>
      in if r \<noteq> 0 then (1, s, w)
      else
        (case crypto_derive_client_keys S (crypto s) (ch_eph_public_key challenge) w of (r, ctx, w) \<Rightarrow>
         let s = s\<lparr>crypto := ctx\<rparr>
         in if r \<noteq> 0 then
              (1, s, log_msg ERROR_MSG CLIENT_RT ''Failed to derive session keys'' [] w)
         else
           (case crypto_sign_message S (crypto s) (ch_nonce challenge @ eph_public_key (crypto s)) w of
              (None, w) \<Rightarrow> (1, s, w)
            | (Some sig, w) \<Rightarrow>
                (case send_msg (sess_socket s) (message PACKET_AUTH_RESPONSE (protocol_version s)
                         (Some (response_mem (response_of s sig))) SIZEOF_AUTH_RESPONSE) w of (r, w) \<Rightarrow>
                   if r \<noteq> 0 then
                     (1, s, log_msg ERROR_MSG CLIENT_RT ''Failed to send the authentication response packet'' [] w)
                   else client_await (s\<lparr>sess_state := SESSION_WAIT_AUTH\<rparr>) w))))"
  by (simp add: client_respond_def send_msg_def message_def response_of_def sys_free_log_msg Let_def
      split: prod.split option.split)

text \<open>The key check of the client: a trusted key is left as it is, without one the key is pinned.\<close>

definition client_trust :: "bytes \<Rightarrow> session \<Rightarrow> world \<Rightarrow> session \<times> world" where
  "client_trust key s w = (if has_trusted_peer_key s then (s, w) else client_pin key s w)"

lemma session_authenticate_client_msg:
  "session_authenticate_client S s w =
     (case recv_msg (sess_socket s) w of
        (None, w) \<Rightarrow> (1, s, w)
      | (Some p, w) \<Rightarrow>
          if ptype (header p) \<noteq> type_code PACKET_AUTH_REQUEST \<or>
             payload_length (header p) \<noteq> of_nat SIZEOF_AUTH_CHALLENGE then (1, s, w)
          else
            (let challenge = challenge_of_mem (payload_bytes p)
             in if has_trusted_peer_key s \<and> ch_public_key challenge \<noteq> trusted_peer_key s then
                  (1, s, log_msg ERROR_MSG CLIENT_RT ''Server key does not match trusted key'' [] w)
                else
                  (case client_trust (ch_public_key challenge) s w of (s, w) \<Rightarrow>
                     let s = s\<lparr>crypto := (crypto s)\<lparr>peer_public_key := ch_public_key challenge\<rparr>\<rparr>
                     in if \<not> sign_verify S (ch_signature challenge)
                             (ch_nonce challenge @ ch_eph_public_key challenge) (ch_public_key challenge) then
                          (1, s, log_msg ERROR_MSG CLIENT_RT
                             ''Server challenge signature invalid, possible tampering'' [] w)
                        else client_respond S challenge s w)))"
  by (auto simp: session_authenticate_client_def crypto_verify_message_def recv_msg_def Let_def
      client_trust_def split: prod.split)

lemma session_client_connect_msg:
  "session_client_connect S s w =
     (case send_msg (sess_socket s) (message PACKET_CLIENT_HELLO CURRENT_PROTOCOL_VERSION None 0) w of (r, w) \<Rightarrow>
        if r \<noteq> 0 then (1, s, w)
        else
          (case recv_msg (sess_socket s) w of
             (None, w) \<Rightarrow> (1, s, w)
           | (Some p, w) \<Rightarrow>
               if ptype (header p) \<noteq> type_code PACKET_SERVER_HELLO \<or>
                  version (header p) \<noteq> CURRENT_PROTOCOL_VERSION then (1, s, w)
               else session_authenticate_client S s
                      (log_msg SUCCESS_MSG CLIENT_RT ''Handshake completed'' [] w)))"
  by (simp add: session_client_connect_def recv_msg_def send_msg_def message_def Let_def split: prod.split)

section \<open>Every path works on its socket and frees its packets\<close>

text \<open>
  \<open>hs_step s w r s' w'\<close>: what each part of the handshake keeps, whether it succeeds or not.
\<close>

definition hs_step :: "session \<Rightarrow> world \<Rightarrow> rc \<Rightarrow> session \<Rightarrow> world \<Rightarrow> bool" where
  "hs_step s w r s' w' \<longleftrightarrow>
     socket_frame (sess_socket s) w w' \<and> (r = 0 \<or> r = 1) \<and>
     sess_socket s' = sess_socket s \<and> udp s' = udp s \<and> role s' = role s \<and> ip s' = ip s \<and>
     protocol_version s' = protocol_version s \<and> tunnel_ip_octet s' = tunnel_ip_octet s \<and>
     public_key (crypto s') = public_key (crypto s) \<and> private_key (crypto s') = private_key (crypto s) \<and>
     tx_nonce (crypto s') = tx_nonce (crypto s) \<and> rx_nonce (crypto s') = rx_nonce (crypto s)"

lemma hs_step_trans:
  "hs_step s w r s1 w1 \<Longrightarrow> hs_step s1 w1 r' s' w' \<Longrightarrow> hs_step s w r' s' w'"
  by (auto simp: hs_step_def intro: socket_frame_trans)

lemma hs_step_log: "hs_step s w r s' w' \<Longrightarrow> hs_step s w 1 s' (log_msg m rt f as w')"
  by (auto simp: hs_step_def)

lemma hs_step_crypto:
  assumes "socket_frame (sess_socket s) w w'"
    "public_key ctx = public_key (crypto s)" "private_key ctx = private_key (crypto s)"
    "tx_nonce ctx = tx_nonce (crypto s)" "rx_nonce ctx = rx_nonce (crypto s)"
  shows "hs_step s w 1 (s\<lparr>crypto := ctx\<rparr>) w'"
  using assms by (simp add: hs_step_def)

lemma crypto_generate_ephemeral_step:
  "crypto_generate_ephemeral S ctx w = (r, ctx', w') \<Longrightarrow> socket_frame fd w w' \<and> (r = 0 \<or> r = 1)"
  using crypto_generate_ephemeral_frame(1,3) local_socket_frame by blast

lemma sys_random_step: "sys_random n w = (b, w') \<Longrightarrow> socket_frame fd w w'"
  by (simp add: local_socket_frame sys_random_local)

lemma client_pin_step:
  assumes "client_pin key s w = (s', w')"
  shows "local_frame w w'" "s' = s\<lparr>trusted_peer_key := key, has_trusted_peer_key := True\<rparr>"
proof -
  obtain path w1 where cp: "crypto_config_path ''server_trusted.key'' PATH_MAX w = (path, w1)" by force
  have "local_frame w1 (snd (crypto_trust_key_save p key w1))" for p
    using crypto_trust_key_save_frame [of p key w1] by (cases "crypto_trust_key_save p key w1") auto
  with cp crypto_config_path_frame [OF cp] assms show "local_frame w w'"
    by (auto simp: client_pin_def split: option.splits intro: local_frame_trans)
  show "s' = s\<lparr>trusted_peer_key := key, has_trusted_peer_key := True\<rparr>"
    using assms by (simp add: client_pin_def)
qed

lemma client_await_step:
  assumes "client_await s w = (r, s', w')"
  shows "hs_step s w r s' w'" "sent_on (sess_socket s) w' = sent_on (sess_socket s) w"
proof -
  obtain p w1 where rc: "recv_msg (sess_socket s) w = (p, w1)" by force
  note fr = recv_msg_frame [OF rc]
  show "hs_step s w r s' w'" "sent_on (sess_socket s) w' = sent_on (sess_socket s) w"
    using assms rc fr by (auto simp: client_await_msg hs_step_def Let_def split: option.splits if_splits)
qed

lemma client_respond_step:
  assumes run: "client_respond S c s w = (r, s', w')"
  shows "hs_step s w r s' w'"
proof -
  let ?fd = "sess_socket s"
  obtain r1 ctx1 w1 where g: "crypto_generate_ephemeral S (crypto s) w = (r1, ctx1, w1)" by (metis prod_cases3)
  obtain pk sk where ctx1: "ctx1 = (crypto s)\<lparr>eph_public_key := pk, eph_private_key := sk\<rparr>"
    using crypto_generate_ephemeral_frame(4) [OF g] by blast
  obtain r2 ctx2 w2 where d: "crypto_derive_client_keys S ctx1 (ch_eph_public_key c) w1 = (r2, ctx2, w2)"
    by (metis prod_cases3)
  obtain k k' where ctx2: "ctx2 = ctx1\<lparr>rx_key := k, tx_key := k'\<rparr>" and f2: "log_frame w1 w2"
    using crypto_derive_frame(2) [OF d] by blast
  obtain sig w3 where sg: "crypto_sign_message S ctx2 (ch_nonce c @ eph_public_key ctx2) w2 = (sig, w3)" by force
  let ?s = "s\<lparr>crypto := ctx2\<rparr>"
  obtain r4 w4 where sd: "send_msg ?fd (message PACKET_AUTH_RESPONSE (protocol_version s)
      (Some (response_mem (response_of ?s (the sig)))) SIZEOF_AUTH_RESPONSE) w3 = (r4, w4)" by force
  obtain r5 s5 w5 where aw: "client_await (?s\<lparr>sess_state := SESSION_WAIT_AUTH\<rparr>) w4 = (r5, s5, w5)"
    by (metis prod_cases3)
  have f1: "socket_frame ?fd w w1" using crypto_generate_ephemeral_step [OF g] by blast
  have f2': "socket_frame ?fd w w2" using f1 f2 by (blast intro: socket_frame_trans log_socket_frame)
  have f3: "socket_frame ?fd w w3"
    using f2' crypto_sign_message_frame [OF sg] by (blast intro: socket_frame_trans log_socket_frame)
  have f4: "socket_frame ?fd w w4" using f3 send_msg_frame(1) [OF sd] by (rule socket_frame_trans)
  have f5: "hs_step (?s\<lparr>sess_state := SESSION_WAIT_AUTH\<rparr>) w4 r5 s5 w5" by (rule client_await_step(1) [OF aw])
  have f6: "hs_step s w r5 s5 w5"
    using f4 f5 ctx1 ctx2 by (auto simp: hs_step_def intro: socket_frame_trans)
  consider "r = 1" "s' = s\<lparr>crypto := ctx1\<rparr>" "w' = w1"
    | m where "r = 1" "s' = ?s" "w' = log_msg ERROR_MSG CLIENT_RT m [] w2"
    | "r = 1" "s' = ?s" "w' = w3"
    | m where "r = 1" "s' = ?s" "w' = log_msg ERROR_MSG CLIENT_RT m [] w4"
    | "r = r5" "s' = s5" "w' = w5"
    using run g d sg sd aw by (auto simp: client_respond_msg Let_def split: if_splits option.splits)
  then show ?thesis
  proof cases
    case 1 show ?thesis unfolding 1 using hs_step_crypto [OF f1] ctx1 by simp
  next
    case 2 show ?thesis unfolding 2 using hs_step_log [OF hs_step_crypto [OF f2', of ctx2]] ctx1 ctx2 by simp
  next
    case 3 show ?thesis unfolding 3 using hs_step_crypto [OF f3] ctx1 ctx2 by simp
  next
    case 4 show ?thesis unfolding 4 using hs_step_log [OF hs_step_crypto [OF f4, of ctx2]] ctx1 ctx2 by simp
  next
    case 5 show ?thesis unfolding 5 by (rule f6)
  qed
qed

lemma session_authenticate_client_step:
  assumes run: "session_authenticate_client S s w = (r, s', w')"
  shows "hs_step s w r s' w'"
proof -
  let ?fd = "sess_socket s"
  obtain p w1 where rc: "recv_msg ?fd w = (p, w1)" by force
  note f1 = recv_msg_frame [OF rc]
  let ?c = "challenge_of_mem (payload_bytes (the p))"
  obtain s2 w2 where pin: "client_trust (ch_public_key ?c) s w1 = (s2, w2)" by force
  have f2: "socket_frame ?fd w1 w2" and s2: "s2 = s \<or>
      s2 = s\<lparr>trusted_peer_key := ch_public_key ?c, has_trusted_peer_key := True\<rparr>"
    using pin client_pin_step [of "ch_public_key ?c" s w1 s2 w2]
    by (auto simp: client_trust_def intro: local_socket_frame split: if_splits)
  let ?s = "s2\<lparr>crypto := (crypto s2)\<lparr>peer_public_key := ch_public_key ?c\<rparr>\<rparr>"
  obtain r3 s3 w3 where rs: "client_respond S ?c ?s w2 = (r3, s3, w3)" by (metis prod_cases3)
  have f12: "socket_frame ?fd w w2" using f1(1) f2 by (rule socket_frame_trans)
  have f3: "hs_step s w r3 s3 w3"
    using client_respond_step [OF rs] f12 s2 by (auto simp: hs_step_def intro: socket_frame_trans)
  show ?thesis
  proof (cases p)
    case None
    with run rc f1(1) show ?thesis by (simp add: session_authenticate_client_msg hs_step_def)
  next
    case [simp]: (Some m)
    have "(r, s', w') =
        (if ptype (header m) \<noteq> type_code PACKET_AUTH_REQUEST \<or>
            payload_length (header m) \<noteq> of_nat SIZEOF_AUTH_CHALLENGE then (1, s, w1)
         else if has_trusted_peer_key s \<and> ch_public_key ?c \<noteq> trusted_peer_key s then
           (1, s, log_msg ERROR_MSG CLIENT_RT ''Server key does not match trusted key'' [] w1)
         else if \<not> sign_verify S (ch_signature ?c) (ch_nonce ?c @ ch_eph_public_key ?c) (ch_public_key ?c) then
           (1, ?s, log_msg ERROR_MSG CLIENT_RT ''Server challenge signature invalid, possible tampering'' [] w2)
         else (r3, s3, w3))"
      unfolding run [symmetric] session_authenticate_client_msg
      by (simp only: rc pin [unfolded Some option.sel] rs [unfolded Some option.sel] Some Let_def
          option.case prod.case option.sel)
    then consider "(r, s', w') = (1, s, w1)"
      | t where "(r, s', w') = (1, s, log_msg ERROR_MSG CLIENT_RT t [] w1)"
      | t where "(r, s', w') = (1, ?s, log_msg ERROR_MSG CLIENT_RT t [] w2)"
      | "(r, s', w') = (r3, s3, w3)"
      by metis
    then show ?thesis
    proof cases
      case 1 with f1(1) show ?thesis by (simp add: hs_step_def)
    next
      have "hs_step s w 1 s w1" using f1(1) by (simp add: hs_step_def)
      moreover case 2
      ultimately show ?thesis using hs_step_log by fastforce
    next
      have "hs_step s w 1 ?s w2" using f12 s2 by (auto simp: hs_step_def)
      moreover case 3
      ultimately show ?thesis using hs_step_log by fastforce
    next
      case 4 with f3 show ?thesis by simp
    qed
  qed
qed

lemma session_client_connect_step:
  assumes run: "session_client_connect S s w = (r, s', w')"
  shows "hs_step s w r s' w'"
proof -
  let ?fd = "sess_socket s"
  obtain r1 w1 where sd: "send_msg ?fd (message PACKET_CLIENT_HELLO CURRENT_PROTOCOL_VERSION None 0) w = (r1, w1)"
    by force
  obtain p w2 where rc: "recv_msg ?fd w1 = (p, w2)" by force
  let ?w = "log_msg SUCCESS_MSG CLIENT_RT ''Handshake completed'' [] w2"
  obtain r3 s3 w3 where au: "session_authenticate_client S s ?w = (r3, s3, w3)" by (metis prod_cases3)
  have f1: "socket_frame ?fd w w1" by (rule send_msg_frame(1) [OF sd])
  have f2: "socket_frame ?fd w w2" using f1 recv_msg_frame(1) [OF rc] by (rule socket_frame_trans)
  have f3: "hs_step s w r3 s3 w3"
    using session_authenticate_client_step [OF au] f2 by (auto simp: hs_step_def intro: socket_frame_trans)
  show ?thesis
    using run sd rc au f1 f2 f3
    by (auto simp: session_client_connect_msg split: if_splits option.splits) (auto simp: hs_step_def)
qed

lemma session_authenticate_server_step:
  assumes run: "session_authenticate_server S s w = (r, s', w')"
  shows "hs_step s w r s' w'"
proof -
  let ?fd = "sess_socket s"
  obtain nonce w1 where rn: "sys_random AUTH_NONCE_SIZE w = (nonce, w1)" by force
  obtain r2 ctx w2 where g: "crypto_generate_ephemeral S (crypto s) w1 = (r2, ctx, w2)" by (metis prod_cases3)
  obtain pk sk where ctx: "ctx = (crypto s)\<lparr>eph_public_key := pk, eph_private_key := sk\<rparr>"
    using crypto_generate_ephemeral_frame(4) [OF g] by blast
  define s1 where s1: "s1 = s\<lparr>auth_nonce := nonce, crypto := ctx\<rparr>"
  have sel: "crypto s1 = ctx" "auth_nonce s1 = nonce" "sess_socket s1 = ?fd"
    "protocol_version s1 = protocol_version s" by (simp_all add: s1)
  obtain sig w3 where sg: "crypto_sign_message S ctx (nonce @ eph_public_key ctx) w2 = (sig, w3)" by force
  obtain r4 w4 where sd: "send_msg ?fd (message PACKET_AUTH_REQUEST (protocol_version s)
      (Some (challenge_mem (challenge_of s1 (the sig)))) SIZEOF_AUTH_CHALLENGE) w3 = (r4, w4)" by force
  have f1: "socket_frame ?fd w w1" by (rule sys_random_step [OF rn])
  have f2: "socket_frame ?fd w w2"
    using f1 crypto_generate_ephemeral_step [OF g] by (blast intro: socket_frame_trans)
  have f3: "socket_frame ?fd w w3"
    using f2 crypto_sign_message_frame [OF sg] by (blast intro: socket_frame_trans log_socket_frame)
  have f4: "socket_frame ?fd w w4" using f3 send_msg_frame(1) [OF sd] by (rule socket_frame_trans)
  have step: "hs_step s w 1 s1 v" if "socket_frame ?fd w v" for v
    using that ctx by (simp add: hs_step_def s1)
  show ?thesis
  proof (cases sig)
    case None
    have "(r, s', w') = (1, s1, if r2 \<noteq> 0 then w2 else w3)"
      unfolding run [symmetric] session_authenticate_server_msg
      by (simp only: rn g sg None Let_def s1 [symmetric] sel prod.case option.case if_distrib) simp
    then show ?thesis using step [OF f2] step [OF f3] by (cases "r2 = 0") simp_all
  next
    case (Some sig')
    have "(r, s', w') =
        (if r2 \<noteq> 0 then (1, s1, w2)
         else if r4 \<noteq> 0 then
           (1, s1, log_msg ERROR_MSG SERVER_RT ''Failed to send the authentication request packet'' [] w4)
         else (0, s1\<lparr>sess_state := SESSION_WAIT_AUTH\<rparr>,
           log_msg SUCCESS_MSG SERVER_RT ''Requested for client authentication'' [] w4))"
      unfolding run [symmetric] session_authenticate_server_msg
      by (simp only: rn g sg Some sd [unfolded Some option.sel] Let_def s1 [symmetric] sel
          prod.case option.case)
    moreover have "hs_step s w 0 (s1\<lparr>sess_state := SESSION_WAIT_AUTH\<rparr>) (log_msg m rt f as w4)" for m rt f as
      using step [OF f4] by (auto simp: hs_step_def intro: socket_frame_trans log_socket_frame)
    ultimately show ?thesis using step [OF f2] hs_step_log [OF step [OF f4]]
      by (cases "r2 = 0"; cases "r4 = 0") simp_all
  qed
qed

lemma session_verify_client_step:
  assumes run: "session_verify_client S s w = (r, s', w')"
  shows "hs_step s w r s' w'"
proof -
  obtain p w1 where rc: "recv_msg (sess_socket s) w = (p, w1)" by force
  note f1 = recv_msg_frame(1) [OF rc]
  have f1': "hs_step s w 1 s w1" using f1 by (simp add: hs_step_def)
  show ?thesis
  proof (cases p)
    case None
    with run rc f1' show ?thesis by (simp add: session_verify_client_msg)
  next
    case (Some m)
    let ?resp = "response_of_mem (payload_bytes m)"
    define s1 where s1: "s1 = s\<lparr>crypto := (crypto s)\<lparr>peer_public_key := rs_public_key ?resp\<rparr>\<rparr>"
    obtain r2 ctx w2 where d: "crypto_derive_server_keys S (crypto s1) (rs_eph_public_key ?resp) w1 = (r2, ctx, w2)"
      by (metis prod_cases3)
    obtain k k' where ctx: "ctx = (crypto s1)\<lparr>rx_key := k, tx_key := k'\<rparr>" and f: "log_frame w1 w2"
      using crypto_derive_frame(1) [OF d] by blast
    have f2: "socket_frame (sess_socket s) w w2" using f1 f by (blast intro: socket_frame_trans log_socket_frame)
    have "(r, s', w') =
        (if ptype (header m) \<noteq> type_code PACKET_AUTH_RESPONSE \<or>
            payload_length (header m) \<noteq> of_nat SIZEOF_AUTH_RESPONSE then (1, s, w1)
         else if \<not> sign_verify S (rs_signature ?resp) (auth_nonce s1 @ rs_eph_public_key ?resp) (rs_public_key ?resp)
           then (1, s1, w1)
         else if r2 \<noteq> 0 then
           (1, s1\<lparr>crypto := ctx\<rparr>, log_msg ERROR_MSG SERVER_RT ''Failed to derive session keys'' [] w2)
         else (0, s1\<lparr>crypto := ctx\<lparr>verified := 1\<rparr>\<rparr>, w2))"
      unfolding run [symmetric] session_verify_client_msg
      by (simp only: rc d Some Let_def s1 [symmetric] prod.case option.case)
    then consider "(r, s', w') = (1, s, w1)" | "(r, s', w') = (1, s1, w1)"
      | t where "(r, s', w') = (1, s1\<lparr>crypto := ctx\<rparr>, log_msg ERROR_MSG SERVER_RT t [] w2)"
      | "(r, s', w') = (0, s1\<lparr>crypto := ctx\<lparr>verified := 1\<rparr>\<rparr>, w2)"
      by metis
    then show ?thesis
    proof cases
      case 1 with f1' show ?thesis by simp
    next
      case 2 with f1 show ?thesis by (simp add: hs_step_def s1)
    next
      have "hs_step s w 1 (s1\<lparr>crypto := ctx\<rparr>) w2" using f2 by (simp add: hs_step_def s1 ctx)
      moreover case 3
      ultimately show ?thesis using hs_step_log by fastforce
    next
      case 4 with f2 show ?thesis by (simp add: hs_step_def s1 ctx)
    qed
  qed
qed

lemma server_confirm_step:
  assumes run: "server_confirm s w = (r, s', w')"
  shows "hs_step s w r s' w'"
proof -
  obtain nonce w1 where rn: "sys_random SESSION_NONCE_SIZE w = (nonce, w1)" by force
  let ?s = "s\<lparr>session_nonce := nonce\<rparr>"
  obtain r2 w2 where sd: "send_msg (sess_socket s) (message PACKET_AUTH_SUCCESS (protocol_version s)
      (Some (success_mem (host w1) (success_of ?s))) SIZEOF_AUTH_SUCCESS) w1 = (r2, w2)" by force
  have "socket_frame (sess_socket s) w w2"
    using sys_random_step [OF rn] send_msg_frame(1) [OF sd] by (rule socket_frame_trans)
  with run rn sd show ?thesis
    by (auto simp: server_confirm_msg hs_step_def Let_def split: if_splits)
qed

lemma session_server_connect_step:
  assumes run: "session_server_connect S s w = (r, s', w')"
  shows "hs_step s w r s' w'"
proof -
  let ?fd = "sess_socket s"
  obtain p w1 where rc: "recv_msg ?fd w = (p, w1)" by force
  obtain r2 w2 where sd: "send_msg ?fd (message PACKET_SERVER_HELLO (protocol_version s) None 0) w1 = (r2, w2)"
    by force
  let ?s = "s\<lparr>sess_state := SESSION_WAIT_AUTH\<rparr>"
  let ?w = "log_msg SUCCESS_MSG SERVER_RT ''Handshake completed'' [] w2"
  obtain r3 s3 w3 where au: "session_authenticate_server S ?s ?w = (r3, s3, w3)" by (metis prod_cases3)
  obtain r4 s4 w4 where ve: "session_verify_client S s3 w3 = (r4, s4, w4)" by (metis prod_cases3)
  obtain r5 s5 w5 where co: "server_confirm s4 w4 = (r5, s5, w5)" by (metis prod_cases3)
  have f1: "hs_step s w 1 s w1" using recv_msg_frame(1) [OF rc] by (simp add: hs_step_def)
  have f2: "hs_step s w 1 s w2"
    using f1 send_msg_frame(1) [OF sd] by (auto simp: hs_step_def intro: socket_frame_trans)
  have "hs_step s w 1 ?s ?w" using hs_step_log [OF f2] by (simp add: hs_step_def)
  then have f3: "hs_step s w r3 s3 w3" using session_authenticate_server_step [OF au] by (rule hs_step_trans)
  then have f4: "hs_step s w r4 s4 w4" using session_verify_client_step [OF ve] by (rule hs_step_trans)
  then have f5: "hs_step s w r5 s5 w5" using server_confirm_step [OF co] by (rule hs_step_trans)
  show ?thesis
  proof (cases p)
    case None
    with run rc f1 show ?thesis by (simp add: session_server_connect_msg)
  next
    case (Some m)
    have "(r, s', w') =
        (if ptype (header m) \<noteq> type_code PACKET_CLIENT_HELLO \<or> version (header m) \<noteq> CURRENT_PROTOCOL_VERSION
         then (1, s, w1)
         else if r2 \<noteq> 0 then (1, s, w2)
         else if r3 \<noteq> 0 then (1, s3, log_msg ERROR_MSG SERVER_RT ''Couldn't authenticate the server'' [] w3)
         else if r4 \<noteq> 0 then (1, s4, log_msg ERROR_MSG SERVER_RT ''Couldn't verify the current session'' [] w4)
         else (r5, s5, w5))"
      unfolding run [symmetric] session_server_connect_msg
      by (simp only: rc sd au ve co Some prod.case option.case)
    then consider "(r, s', w') = (1, s, w1)" | "(r, s', w') = (1, s, w2)"
      | t where "(r, s', w') = (1, s3, log_msg ERROR_MSG SERVER_RT t [] w3)"
      | t where "(r, s', w') = (1, s4, log_msg ERROR_MSG SERVER_RT t [] w4)"
      | "(r, s', w') = (r5, s5, w5)"
      by metis
    then show ?thesis
    proof cases
      case 1 with f1 show ?thesis by simp
    next
      case 2 with f2 show ?thesis by simp
    next
      case 3 with hs_step_log [OF f3] show ?thesis by simp
    next
      case 4 with hs_step_log [OF f4] show ?thesis by simp
    next
      case 5 with f5 show ?thesis by simp
    qed
  qed
qed

end
