(* ===== verification/Agreement.thy ===== *)
theory Agreement
  imports Handshake
begin

text \<open>
  What the handshake establishes: the checks behind a return value of 0 on either side, and
  the agreement of both sides when each receives what the other sends.
\<close>

section \<open>Random bytes\<close>

text \<open>The \<open>n\<close> bytes that follow the next \<open>k\<close> bytes of the entropy.\<close>

definition draw :: "nat \<Rightarrow> nat \<Rightarrow> world \<Rightarrow> bytes" where
  "draw n k w = map (\<lambda>i. rng w (rng_pos w + k + i)) [0..<n]"

lemma length_draw [simp]: "length (draw n k w) = n"
  by (simp add: draw_def)

definition drew :: "nat \<Rightarrow> world \<Rightarrow> world \<Rightarrow> bool" where
  "drew k w w' \<longleftrightarrow> rng w' = rng w \<and> rng_pos w' = rng_pos w + k"

lemma drew_trans: "drew j u v \<Longrightarrow> drew k v w \<Longrightarrow> drew (j + k) u w"
  by (simp add: drew_def)

lemma drew_io: "io_frame w w' \<Longrightarrow> drew 0 w w'"
  by (simp add: drew_def io_frame_def)

lemma drew_log: "log_frame w w' \<Longrightarrow> drew 0 w w'"
  by (simp add: drew_io log_frame_def)

lemma drew_log_msg [simp]: "drew k w (log_msg m r f as w') \<longleftrightarrow> drew k w w'"
  by (simp add: drew_def)

lemma draw_drew: "drew k w w' \<Longrightarrow> draw n j w' = draw n (k + j) w"
  by (simp add: drew_def draw_def add.assoc)

lemma sys_random_draw: "sys_random n w = (b, w') \<Longrightarrow> b = draw n 0 w \<and> drew n w w'"
  by (auto simp: sys_random_def drew_def draw_def rand_bytes_def)

lemma crypto_generate_ephemeral_draw:
  assumes "crypto_generate_ephemeral S ctx w = (r, ctx', w')"
  shows "drew KX_SEEDBYTES w w'" "r = 0 \<Longrightarrow>
    kx_keypair S (draw KX_SEEDBYTES 0 w) = Some (eph_public_key ctx', eph_private_key ctx')"
proof -
  obtain seed w1 where sr: "sys_random KX_SEEDBYTES w = (seed, w1)" by force
  note d = sys_random_draw [OF sr]
  show "drew KX_SEEDBYTES w w'" "r = 0 \<Longrightarrow>
    kx_keypair S (draw KX_SEEDBYTES 0 w) = Some (eph_public_key ctx', eph_private_key ctx')"
    using assms sr d by (auto simp: crypto_generate_ephemeral_def split: option.splits)
qed

section \<open>What the server has checked\<close>

lemma session_authenticate_server_0:
  assumes run: "session_authenticate_server S s w = (0, s', w')"
  shows "auth_nonce s' = draw AUTH_NONCE_SIZE 0 w"
    "kx_keypair S (draw KX_SEEDBYTES AUTH_NONCE_SIZE w) = Some (eph_public_key (crypto s'), eph_private_key (crypto s'))"
    "drew (AUTH_NONCE_SIZE + KX_SEEDBYTES) w w'" "pending fd w' = pending fd w"
    "session_id s' = session_id s"
proof -
  obtain nonce w1 where rn: "sys_random AUTH_NONCE_SIZE w = (nonce, w1)" by force
  obtain r2 ctx w2 where g: "crypto_generate_ephemeral S (crypto s) w1 = (r2, ctx, w2)" by (metis prod_cases3)
  obtain sig w3 where sg: "crypto_sign_message S ctx (nonce @ eph_public_key ctx) w2 = (sig, w3)" by force
  obtain sig' r4 w4 where s: "r2 = 0" "sig = Some sig'" and
    sd: "send_msg (sess_socket s) (message PACKET_AUTH_REQUEST (protocol_version s)
      (Some (challenge_mem (challenge_of (s\<lparr>auth_nonce := nonce, crypto := ctx\<rparr>) sig'))) SIZEOF_AUTH_CHALLENGE) w3
     = (r4, w4)" "r4 = 0" and
    s': "s' = s\<lparr>auth_nonce := nonce, crypto := ctx, sess_state := SESSION_WAIT_AUTH\<rparr>"
      "w' = log_msg SUCCESS_MSG SERVER_RT ''Requested for client authentication'' [] w4"
    using run rn g sg
    by (auto simp: session_authenticate_server_msg Let_def split: if_splits option.splits prod.splits)
  note d1 = sys_random_draw [OF rn] and d2 = crypto_generate_ephemeral_draw [OF g]
  note l1 = crypto_generate_ephemeral_frame(1) [OF g] and l2 = crypto_sign_message_frame [OF sg]
  have d4: "drew 0 w2 w4"
    using drew_trans [OF drew_log [OF l2 [THEN conjunct1]] drew_io [OF send_msg_frame(3) [OF sd(1)]]] by simp
  show "session_id s' = session_id s" using s' by simp
  show "auth_nonce s' = draw AUTH_NONCE_SIZE 0 w" using d1 s' by simp
  show "kx_keypair S (draw KX_SEEDBYTES AUTH_NONCE_SIZE w) = Some (eph_public_key (crypto s'), eph_private_key (crypto s'))"
    using d2(2) [OF s(1)] draw_drew [of AUTH_NONCE_SIZE w w1 KX_SEEDBYTES 0] d1 s' by simp
  show "drew (AUTH_NONCE_SIZE + KX_SEEDBYTES) w w'"
    using drew_trans [OF drew_trans [OF d1 [THEN conjunct2] d2(1)] d4] s' by simp
  have "pending fd w2 = pending fd w"
    using local_frame_streams(1) [OF l1] sys_random_local [OF rn] local_frame_streams(1) by simp
  moreover have "pending fd w4 = pending fd w3"
    using send_msg_frame(1,2) [OF sd(1)] by (cases "fd = sess_socket s") (auto simp: socket_frame_def pending_def)
  moreover have "pending fd w3 = pending fd w2"
    using l2 by (simp add: log_frame_def pending_def)
  ultimately show "pending fd w' = pending fd w" using s' by simp
qed

lemma session_verify_client_0:
  assumes run: "session_verify_client S s w = (0, s', w')"
  shows "\<exists>pad reply. pending (sess_socket s) w = wire_packet pad reply @ pending (sess_socket s) w' \<and>
      acceptable reply \<and> ptype (header reply) = type_code PACKET_AUTH_RESPONSE \<and>
      payload_length (header reply) = of_nat SIZEOF_AUTH_RESPONSE \<and>
      (let resp = response_of_mem (payload_bytes reply)
       in sign_verify S (rs_signature resp) (auth_nonce s @ rs_eph_public_key resp) (rs_public_key resp) \<and>
          (\<exists>rx tx. kx_server_session_keys S (eph_public_key (crypto s)) (eph_private_key (crypto s))
                    (rs_eph_public_key resp) = Some (rx, tx) \<and>
            s' = s\<lparr>crypto := (crypto s)\<lparr>peer_public_key := rs_public_key resp, rx_key := rx, tx_key := tx,
                                        verified := 1\<rparr>\<rparr>))"
    and "drew 0 w w'"
proof -
  obtain p w1 where rc: "recv_msg (sess_socket s) w = (p, w1)" by force
  obtain m where m: "p = Some m" using run rc by (cases p) (simp_all add: session_verify_client_msg)
  let ?resp = "response_of_mem (payload_bytes m)"
  have A: "ptype (header m) = type_code PACKET_AUTH_RESPONSE"
    "payload_length (header m) = of_nat SIZEOF_AUTH_RESPONSE"
    "sign_verify S (rs_signature ?resp) (auth_nonce s @ rs_eph_public_key ?resp) (rs_public_key ?resp)"
    using run rc m by (auto simp: session_verify_client_msg Let_def split: if_splits)
  then obtain rx tx where kx: "kx_server_session_keys S (eph_public_key (crypto s)) (eph_private_key (crypto s))
      (rs_eph_public_key ?resp) = Some (rx, tx)"
    using run rc m by (auto simp: session_verify_client_msg crypto_derive_server_keys_def Let_def
      split: option.splits)
  have s': "s' = s\<lparr>crypto := (crypto s)\<lparr>peer_public_key := rs_public_key ?resp, rx_key := rx, tx_key := tx,
      verified := 1\<rparr>\<rparr>" "w' = w1"
    using run rc m A kx by (simp_all add: session_verify_client_msg crypto_derive_server_keys_def Let_def)
  have "acceptable m" and "\<exists>pad. pending (sess_socket s) w = wire_packet pad m @ pending (sess_socket s) w1"
    using recv_msg_sound [of "sess_socket s" w m w1] rc m by auto
  with A kx s' show "\<exists>pad reply. pending (sess_socket s) w = wire_packet pad reply @ pending (sess_socket s) w' \<and>
      acceptable reply \<and> ptype (header reply) = type_code PACKET_AUTH_RESPONSE \<and>
      payload_length (header reply) = of_nat SIZEOF_AUTH_RESPONSE \<and>
      (let resp = response_of_mem (payload_bytes reply)
       in sign_verify S (rs_signature resp) (auth_nonce s @ rs_eph_public_key resp) (rs_public_key resp) \<and>
          (\<exists>rx tx. kx_server_session_keys S (eph_public_key (crypto s)) (eph_private_key (crypto s))
                    (rs_eph_public_key resp) = Some (rx, tx) \<and>
            s' = s\<lparr>crypto := (crypto s)\<lparr>peer_public_key := rs_public_key resp, rx_key := rx, tx_key := tx,
                                        verified := 1\<rparr>\<rparr>))"
    unfolding Let_def by blast
  show "drew 0 w w'" using recv_msg_frame(3) [OF rc] s' by (simp add: drew_io)
qed

lemma server_confirm_0:
  assumes run: "server_confirm s w = (0, s', w')"
  shows "s' = s\<lparr>session_nonce := draw SESSION_NONCE_SIZE 0 w, sess_state := SESSION_ESTABLISHED\<rparr>"
    "drew SESSION_NONCE_SIZE w w'" "pending fd w' = pending fd w"
proof -
  obtain nonce w1 where rn: "sys_random SESSION_NONCE_SIZE w = (nonce, w1)" by force
  let ?s = "s\<lparr>session_nonce := nonce\<rparr>"
  obtain r2 w2 where sd: "send_msg (sess_socket s) (message PACKET_AUTH_SUCCESS (protocol_version s)
      (Some (success_mem (host w1) (success_of ?s))) SIZEOF_AUTH_SUCCESS) w1 = (r2, w2)" by force
  note d = sys_random_draw [OF rn]
  have s': "s' = ?s\<lparr>sess_state := SESSION_ESTABLISHED\<rparr>" "w' = w2"
    using run rn sd by (auto simp: server_confirm_msg Let_def split: if_splits)
  show "s' = s\<lparr>session_nonce := draw SESSION_NONCE_SIZE 0 w, sess_state := SESSION_ESTABLISHED\<rparr>"
    using s' d by simp
  show "drew SESSION_NONCE_SIZE w w'"
    using drew_trans [OF d [THEN conjunct2] drew_io [OF send_msg_frame(3) [OF sd]]] s' by simp
  have "pending fd w1 = pending fd w"
    using sys_random_local [OF rn] local_frame_streams(1) by blast
  moreover have "pending fd w2 = pending fd w1"
    using send_msg_frame(1,2) [OF sd] by (cases "fd = sess_socket s") (auto simp: socket_frame_def pending_def)
  ultimately show "pending fd w' = pending fd w" using s' by simp
qed

text \<open>
  A server that returns 0 has read a client hello and an authentication response whose
  signature covers the nonce it has just drawn.
\<close>

lemma session_server_connect_0:
  assumes run: "session_server_connect S s w = (0, s', w')"
  shows "sess_state s' = SESSION_ESTABLISHED" "verified (crypto s') = 1"
    "auth_nonce s' = draw AUTH_NONCE_SIZE 0 w"
    "session_nonce s' = draw SESSION_NONCE_SIZE (AUTH_NONCE_SIZE + KX_SEEDBYTES) w"
    "session_id s' = session_id s"
    "drew (AUTH_NONCE_SIZE + KX_SEEDBYTES + SESSION_NONCE_SIZE) w w'"
    "\<exists>pad hello pad' reply.
       pending (sess_socket s) w =
         wire_packet pad hello @ wire_packet pad' reply @ pending (sess_socket s) w' \<and>
       ptype (header hello) = type_code PACKET_CLIENT_HELLO \<and>
       acceptable reply \<and> ptype (header reply) = type_code PACKET_AUTH_RESPONSE \<and>
       payload_length (header reply) = of_nat SIZEOF_AUTH_RESPONSE \<and>
       (let resp = response_of_mem (payload_bytes reply)
        in peer_public_key (crypto s') = rs_public_key resp \<and>
           sign_verify S (rs_signature resp) (auth_nonce s' @ rs_eph_public_key resp) (rs_public_key resp) \<and>
           (\<exists>spk ssk. kx_keypair S (draw KX_SEEDBYTES AUTH_NONCE_SIZE w) = Some (spk, ssk) \<and>
              kx_server_session_keys S spk ssk (rs_eph_public_key resp) =
                Some (rx_key (crypto s'), tx_key (crypto s'))))"
proof -
  let ?fd = "sess_socket s"
  obtain p w1 where rc: "recv_msg ?fd w = (p, w1)" by force
  obtain m where m: "p = Some m" using run rc by (cases p) (simp_all add: session_server_connect_msg)
  obtain r2 w2 where sd: "send_msg ?fd (message PACKET_SERVER_HELLO (protocol_version s) None 0) w1 = (r2, w2)"
    by force
  let ?s = "s\<lparr>sess_state := SESSION_WAIT_AUTH\<rparr>"
  let ?w = "log_msg SUCCESS_MSG SERVER_RT ''Handshake completed'' [] w2"
  obtain r3 s3 w3 where au: "session_authenticate_server S ?s ?w = (r3, s3, w3)" by (metis prod_cases3)
  obtain r4 s4 w4 where ve: "session_verify_client S s3 w3 = (r4, s4, w4)" by (metis prod_cases3)
  have z: "ptype (header m) = type_code PACKET_CLIENT_HELLO" "r2 = 0" "r3 = 0" "r4 = 0"
    and co: "server_confirm s4 w4 = (0, s', w')"
    using run by (auto simp: session_server_connect_msg rc m sd au ve split: if_splits)
  note h = session_authenticate_server_step [OF au] session_verify_client_step [OF ve]
  note a = session_authenticate_server_0 [OF au [unfolded z(3)]]
  note c = server_confirm_0 [OF co]
  have d2: "drew 0 w ?w"
    using drew_trans [OF drew_io [OF recv_msg_frame(3) [OF rc]] drew_io [OF send_msg_frame(3) [OF sd]]] by simp
  have p2: "pending ?fd ?w = pending ?fd w1" using send_msg_frame(2) [OF sd] by simp
  have fd3: "sess_socket s3 = ?fd" using h(1) by (simp add: hs_step_def)
  from session_verify_client_0 [OF ve [unfolded z(4)]] obtain pad' reply rx tx where
    v: "pending ?fd w3 = wire_packet pad' reply @ pending ?fd w4" "acceptable reply"
      "ptype (header reply) = type_code PACKET_AUTH_RESPONSE"
      "payload_length (header reply) = of_nat SIZEOF_AUTH_RESPONSE" and
    sg: "sign_verify S (rs_signature (response_of_mem (payload_bytes reply)))
        (auth_nonce s3 @ rs_eph_public_key (response_of_mem (payload_bytes reply)))
        (rs_public_key (response_of_mem (payload_bytes reply)))" and
    kx: "kx_server_session_keys S (eph_public_key (crypto s3)) (eph_private_key (crypto s3))
        (rs_eph_public_key (response_of_mem (payload_bytes reply))) = Some (rx, tx)" and
    s4: "s4 = s3\<lparr>crypto := (crypto s3)\<lparr>peer_public_key := rs_public_key (response_of_mem (payload_bytes reply)),
        rx_key := rx, tx_key := tx, verified := 1\<rparr>\<rparr>" and d4: "drew 0 w3 w4"
    unfolding fd3 Let_def by blast
  from recv_msg_sound(2) [of ?fd w m w1] rc m obtain pad where hello: "pending ?fd w = wire_packet pad m @ pending ?fd w1"
    by auto
  have d3: "drew (AUTH_NONCE_SIZE + KX_SEEDBYTES) w w4"
    using drew_trans [OF drew_trans [OF d2 a(3)] d4] by simp
  show "sess_state s' = SESSION_ESTABLISHED" "verified (crypto s') = 1"
    using c(1) s4 by simp_all
  show nonce: "auth_nonce s' = draw AUTH_NONCE_SIZE 0 w"
    using c(1) s4 a(1) draw_drew [OF d2] by simp
  show "session_nonce s' = draw SESSION_NONCE_SIZE (AUTH_NONCE_SIZE + KX_SEEDBYTES) w"
    using c(1) draw_drew [OF d3, of SESSION_NONCE_SIZE 0] by simp
  show "drew (AUTH_NONCE_SIZE + KX_SEEDBYTES + SESSION_NONCE_SIZE) w w'"
    by (rule drew_trans [OF d3 c(2)])
  have "kx_keypair S (draw KX_SEEDBYTES AUTH_NONCE_SIZE w) = Some (eph_public_key (crypto s3), eph_private_key (crypto s3))"
    using a(2) draw_drew [OF d2] by simp
  moreover have "peer_public_key (crypto s') = rs_public_key (response_of_mem (payload_bytes reply))"
    "auth_nonce s' = auth_nonce s3" "rx_key (crypto s') = rx" "tx_key (crypto s') = tx"
    using c(1) s4 by simp_all
  moreover have "pending ?fd w = wire_packet pad m @ wire_packet pad' reply @ pending ?fd w'"
    using hello p2 a(4) [of ?fd] v(1) c(3) by simp
  ultimately show "\<exists>pad hello pad' reply.
       pending (sess_socket s) w =
         wire_packet pad hello @ wire_packet pad' reply @ pending (sess_socket s) w' \<and>
       ptype (header hello) = type_code PACKET_CLIENT_HELLO \<and>
       acceptable reply \<and> ptype (header reply) = type_code PACKET_AUTH_RESPONSE \<and>
       payload_length (header reply) = of_nat SIZEOF_AUTH_RESPONSE \<and>
       (let resp = response_of_mem (payload_bytes reply)
        in peer_public_key (crypto s') = rs_public_key resp \<and>
           sign_verify S (rs_signature resp) (auth_nonce s' @ rs_eph_public_key resp) (rs_public_key resp) \<and>
           (\<exists>spk ssk. kx_keypair S (draw KX_SEEDBYTES AUTH_NONCE_SIZE w) = Some (spk, ssk) \<and>
              kx_server_session_keys S spk ssk (rs_eph_public_key resp) =
                Some (rx_key (crypto s'), tx_key (crypto s'))))"
    unfolding Let_def using z(1) v sg kx by metis
  show "session_id s' = session_id s" using c(1) s4 a(5) by simp
qed

section \<open>What the client has checked\<close>

lemma client_await_0:
  assumes run: "client_await s w = (0, s', w')"
  shows "\<exists>pad m. pending (sess_socket s) w = wire_packet pad m @ pending (sess_socket s) w' \<and>
      ptype (header m) = type_code PACKET_AUTH_SUCCESS \<and>
      (let succ = success_of_mem (host w) (payload_bytes m)
       in s' = s\<lparr>session_id := su_session_id succ, session_nonce := su_session_nonce succ,
                 sess_state := SESSION_ESTABLISHED\<rparr>)"
    and "drew 0 w w'"
proof -
  obtain p w1 where rc: "recv_msg (sess_socket s) w = (p, w1)" by force
  obtain m where m: "p = Some m" using run rc by (cases p) (simp_all add: client_await_msg)
  have "host w1 = host w" using recv_msg_frame(3) [OF rc] by (simp add: io_frame_def)
  with run rc m have A: "ptype (header m) = type_code PACKET_AUTH_SUCCESS"
    "s' = s\<lparr>session_id := su_session_id (success_of_mem (host w) (payload_bytes m)),
            session_nonce := su_session_nonce (success_of_mem (host w) (payload_bytes m)),
            sess_state := SESSION_ESTABLISHED\<rparr>"
    "pending (sess_socket s) w' = pending (sess_socket s) w1" "drew 0 w1 w'"
    by (auto simp: client_await_msg Let_def drew_def split: if_splits)
  obtain pad where "pending (sess_socket s) w = wire_packet pad m @ pending (sess_socket s) w1"
    using recv_msg_sound [of "sess_socket s" w m w1] rc m by auto
  with A show "\<exists>pad m. pending (sess_socket s) w = wire_packet pad m @ pending (sess_socket s) w' \<and>
      ptype (header m) = type_code PACKET_AUTH_SUCCESS \<and>
      (let succ = success_of_mem (host w) (payload_bytes m)
       in s' = s\<lparr>session_id := su_session_id succ, session_nonce := su_session_nonce succ,
                 sess_state := SESSION_ESTABLISHED\<rparr>)"
    unfolding Let_def by metis
  show "drew 0 w w'" using drew_trans [OF drew_io [OF recv_msg_frame(3) [OF rc]] A(4)] by simp
qed

lemma client_respond_0:
  assumes run: "client_respond S c s w = (0, s', w')"
  shows "\<exists>cpk csk tx rx pad m.
      kx_keypair S (draw KX_SEEDBYTES 0 w) = Some (cpk, csk) \<and>
      kx_client_session_keys S cpk csk (ch_eph_public_key c) = Some (rx, tx) \<and>
      pending (sess_socket s) w = wire_packet pad m @ pending (sess_socket s) w' \<and>
      ptype (header m) = type_code PACKET_AUTH_SUCCESS \<and>
      (let succ = success_of_mem (host w) (payload_bytes m)
       in s' = s\<lparr>crypto := (crypto s)\<lparr>eph_public_key := cpk, eph_private_key := csk, rx_key := rx, tx_key := tx\<rparr>,
                 session_id := su_session_id succ, session_nonce := su_session_nonce succ,
                 sess_state := SESSION_ESTABLISHED\<rparr>)"
proof -
  let ?fd = "sess_socket s"
  obtain r1 ctx1 w1 where g: "crypto_generate_ephemeral S (crypto s) w = (r1, ctx1, w1)" by (metis prod_cases3)
  obtain pk sk where ctx1: "ctx1 = (crypto s)\<lparr>eph_public_key := pk, eph_private_key := sk\<rparr>"
    using crypto_generate_ephemeral_frame(4) [OF g] by blast
  obtain r2 ctx2 w2 where d: "crypto_derive_client_keys S ctx1 (ch_eph_public_key c) w1 = (r2, ctx2, w2)"
    by (metis prod_cases3)
  define s2 where s2: "s2 = s\<lparr>crypto := ctx2\<rparr>"
  have sel: "crypto s2 = ctx2" "sess_socket s2 = ?fd" "protocol_version s2 = protocol_version s" by (simp_all add: s2)
  obtain sig w3 where sg: "crypto_sign_message S ctx2 (ch_nonce c @ eph_public_key ctx2) w2 = (sig, w3)" by force
  obtain r4 w4 where sd: "send_msg ?fd (message PACKET_AUTH_RESPONSE (protocol_version s)
      (Some (response_mem (response_of s2 (the sig)))) SIZEOF_AUTH_RESPONSE) w3 = (r4, w4)" by force
  have r: "r1 = 0" "r2 = 0" "sig \<noteq> None" "r4 = 0"
    and aw: "client_await (s2\<lparr>sess_state := SESSION_WAIT_AUTH\<rparr>) w4 = (0, s', w')"
    using run g d sg sd s2 by (auto simp: client_respond_msg Let_def split: if_splits option.splits)
  obtain rx tx where kx: "kx_client_session_keys S pk sk (ch_eph_public_key c) = Some (rx, tx)"
      "ctx2 = ctx1\<lparr>rx_key := rx, tx_key := tx\<rparr>"
    using d r(2) ctx1 by (auto simp: crypto_derive_client_keys_def split: option.splits)
  have key: "kx_keypair S (draw KX_SEEDBYTES 0 w) = Some (pk, sk)"
    using crypto_generate_ephemeral_draw(2) [OF g r(1)] ctx1 by simp
  have lf: "log_frame w1 w2" "log_frame w2 w3"
    using crypto_derive_frame(2) [OF d] crypto_sign_message_frame [OF sg] by blast+
  have "pending ?fd w4 = pending ?fd w"
    using local_frame_streams(1) [OF crypto_generate_ephemeral_frame(1) [OF g]] lf send_msg_frame(2) [OF sd]
    by (simp add: log_frame_def pending_def)
  moreover have "host w4 = host w"
    using crypto_generate_ephemeral_frame(1) [OF g] lf send_msg_frame(3) [OF sd]
    by (simp add: local_frame_def env_frame_def log_frame_def io_frame_def)
  ultimately show ?thesis
    using client_await_0(1) [OF aw] key kx ctx1 unfolding Let_def by (auto simp: s2)
qed

lemma client_trust_0:
  assumes run: "client_trust key s w = (s', w')"
  shows "drew 0 w w'" "pending fd w' = pending fd w" "host w' = host w"
    "s' = s \<and> has_trusted_peer_key s \<or>
     s' = s\<lparr>trusted_peer_key := key, has_trusted_peer_key := True\<rparr> \<and> \<not> has_trusted_peer_key s"
proof -
  have *: "drew 0 w v" if "crypto_config_path f n w = (r, v)" for f n r v
    using that by (auto simp: crypto_config_path_def sys_mkdir_def drew_def Let_def
        split: option.splits prod.splits if_splits)
  have **: "drew 0 v (snd (crypto_trust_key_save p key v))" for p v
    by (simp add: crypto_trust_key_save_def sys_fopen_wb_def sys_fwrite_def sys_chmod_def drew_def split: prod.split)
  obtain path w1 where cp: "crypto_config_path ''server_trusted.key'' PATH_MAX w = (path, w1)" by force
  have "drew 0 w w1" using * cp by blast
  moreover have "drew 0 w (snd (crypto_trust_key_save p key w1))" for p
    using drew_trans [OF \<open>drew 0 w w1\<close> **] by simp
  ultimately show "drew 0 w w'"
    using run cp by (auto simp: client_trust_def client_pin_def drew_def split: if_splits option.splits)
  have "local_frame w w'"
    using run client_pin_step(1) [of key s w s' w'] by (auto simp: client_trust_def split: if_splits)
  then show "pending fd w' = pending fd w" "host w' = host w"
    using local_frame_streams(1) by (simp_all add: local_frame_def env_frame_def pending_def)
  show "s' = s \<and> has_trusted_peer_key s \<or>
     s' = s\<lparr>trusted_peer_key := key, has_trusted_peer_key := True\<rparr> \<and> \<not> has_trusted_peer_key s"
    using run client_pin_step(2) [of key s w s' w'] by (auto simp: client_trust_def split: if_splits)
qed

text \<open>
  A client that returns 0 has read a challenge that its signature key has signed, and that
  key is the trusted one, or has become it.
\<close>

lemma session_authenticate_client_0:
  assumes run: "session_authenticate_client S s w = (0, s', w')"
  shows "\<exists>pad req pad' m cpk csk.
      pending (sess_socket s) w = wire_packet pad req @ wire_packet pad' m @ pending (sess_socket s) w' \<and>
      acceptable req \<and> ptype (header req) = type_code PACKET_AUTH_REQUEST \<and>
      payload_length (header req) = of_nat SIZEOF_AUTH_CHALLENGE \<and>
      ptype (header m) = type_code PACKET_AUTH_SUCCESS \<and>
      kx_keypair S (draw KX_SEEDBYTES 0 w) = Some (cpk, csk) \<and>
      (let c = challenge_of_mem (payload_bytes req); succ = success_of_mem (host w) (payload_bytes m)
       in sign_verify S (ch_signature c) (ch_nonce c @ ch_eph_public_key c) (ch_public_key c) \<and>
          (has_trusted_peer_key s \<longrightarrow> ch_public_key c = trusted_peer_key s) \<and>
          has_trusted_peer_key s' \<and> trusted_peer_key s' = ch_public_key c \<and>
          peer_public_key (crypto s') = ch_public_key c \<and>
          kx_client_session_keys S cpk csk (ch_eph_public_key c) = Some (rx_key (crypto s'), tx_key (crypto s')) \<and>
          session_id s' = su_session_id succ \<and> session_nonce s' = su_session_nonce succ \<and>
          sess_state s' = SESSION_ESTABLISHED)"
proof -
  let ?fd = "sess_socket s"
  obtain p w1 where rc: "recv_msg ?fd w = (p, w1)" by force
  obtain m where m: "p = Some m" using run rc by (cases p) (simp_all add: session_authenticate_client_msg)
  define c where c: "c = challenge_of_mem (payload_bytes m)"
  obtain s2 w2 where tr: "client_trust (ch_public_key c) s w1 = (s2, w2)" by force
  note t = client_trust_0 [OF tr]
  have A: "ptype (header m) = type_code PACKET_AUTH_REQUEST"
      "payload_length (header m) = of_nat SIZEOF_AUTH_CHALLENGE"
      "has_trusted_peer_key s \<longrightarrow> ch_public_key c = trusted_peer_key s"
      "sign_verify S (ch_signature c) (ch_nonce c @ ch_eph_public_key c) (ch_public_key c)"
    and re: "client_respond S c (s2\<lparr>crypto := (crypto s2)\<lparr>peer_public_key := ch_public_key c\<rparr>\<rparr>) w2 = (0, s', w')"
    using run by (auto simp: session_authenticate_client_msg rc m c [symmetric] tr Let_def split: if_splits)
  from recv_msg_sound [of ?fd w m w1] rc m obtain pad where
    req: "acceptable m" "pending ?fd w = wire_packet pad m @ pending ?fd w1" by auto
  have s2: "sess_socket s2 = ?fd" using t(4) by auto
  have d: "drew 0 w w2" using drew_trans [OF drew_io [OF recv_msg_frame(3) [OF rc]] t(1)] by simp
  have host: "host w2 = host w" using recv_msg_frame(3) [OF rc] t(3) by (simp add: io_frame_def)
  from client_respond_0 [OF re] obtain cpk csk tx rx pad' m' where
    B: "kx_keypair S (draw KX_SEEDBYTES 0 w) = Some (cpk, csk)"
      "kx_client_session_keys S cpk csk (ch_eph_public_key c) = Some (rx, tx)"
      "pending ?fd w1 = wire_packet pad' m' @ pending ?fd w'"
      "ptype (header m') = type_code PACKET_AUTH_SUCCESS"
    and s': "s' = s2\<lparr>crypto := (crypto s2)\<lparr>peer_public_key := ch_public_key c, eph_public_key := cpk,
          eph_private_key := csk, rx_key := rx, tx_key := tx\<rparr>,
        session_id := su_session_id (success_of_mem (host w) (payload_bytes m')),
        session_nonce := su_session_nonce (success_of_mem (host w) (payload_bytes m')),
        sess_state := SESSION_ESTABLISHED\<rparr>"
    unfolding Let_def using draw_drew [OF d] t(2) s2 host by auto
  have C: "has_trusted_peer_key s2 \<and> trusted_peer_key s2 = ch_public_key c" using t(4) A(3) by auto
  have D: "pending ?fd w = wire_packet pad m @ wire_packet pad' m' @ pending ?fd w'" using req(2) B(3) by simp
  show ?thesis
    unfolding Let_def
    by (rule exI [of _ pad], rule exI [of _ m], rule exI [of _ pad'], rule exI [of _ m'],
        rule exI [of _ cpk], rule exI [of _ csk])
      (use A B C D req(1) in \<open>simp add: s' c [symmetric]\<close>)
qed

lemma session_client_connect_0:
  assumes run: "session_client_connect S s w = (0, s', w')"
  shows "\<exists>pad hello pad1 req pad2 m cpk csk.
      pending (sess_socket s) w =
        wire_packet pad hello @ wire_packet pad1 req @ wire_packet pad2 m @ pending (sess_socket s) w' \<and>
      ptype (header hello) = type_code PACKET_SERVER_HELLO \<and>
      acceptable req \<and> ptype (header req) = type_code PACKET_AUTH_REQUEST \<and>
      payload_length (header req) = of_nat SIZEOF_AUTH_CHALLENGE \<and>
      ptype (header m) = type_code PACKET_AUTH_SUCCESS \<and>
      kx_keypair S (draw KX_SEEDBYTES 0 w) = Some (cpk, csk) \<and>
      (let c = challenge_of_mem (payload_bytes req); succ = success_of_mem (host w) (payload_bytes m)
       in sign_verify S (ch_signature c) (ch_nonce c @ ch_eph_public_key c) (ch_public_key c) \<and>
          (has_trusted_peer_key s \<longrightarrow> ch_public_key c = trusted_peer_key s) \<and>
          has_trusted_peer_key s' \<and> trusted_peer_key s' = ch_public_key c \<and>
          peer_public_key (crypto s') = ch_public_key c \<and>
          kx_client_session_keys S cpk csk (ch_eph_public_key c) = Some (rx_key (crypto s'), tx_key (crypto s')) \<and>
          session_id s' = su_session_id succ \<and> session_nonce s' = su_session_nonce succ \<and>
          sess_state s' = SESSION_ESTABLISHED)"
proof -
  let ?fd = "sess_socket s"
  obtain r1 w1 where sd: "send_msg ?fd (message PACKET_CLIENT_HELLO CURRENT_PROTOCOL_VERSION None 0) w = (r1, w1)"
    by force
  obtain p w2 where rc: "recv_msg ?fd w1 = (p, w2)" by force
  let ?w = "log_msg SUCCESS_MSG CLIENT_RT ''Handshake completed'' [] w2"
  obtain m where m: "p = Some m" "ptype (header m) = type_code PACKET_SERVER_HELLO"
    and au: "session_authenticate_client S s ?w = (0, s', w')"
    using run sd rc by (auto simp: session_client_connect_msg split: if_splits option.splits)
  have d: "drew 0 w ?w"
    using drew_trans [OF drew_io [OF send_msg_frame(3) [OF sd]] drew_io [OF recv_msg_frame(3) [OF rc]]] by simp
  have host: "host ?w = host w"
    using send_msg_frame(3) [OF sd] recv_msg_frame(3) [OF rc] by (simp add: io_frame_def)
  from recv_msg_sound(2) [of ?fd w1 m w2] rc m obtain pad where
    hello: "pending ?fd w = wire_packet pad m @ pending ?fd ?w"
    using send_msg_frame(2) [OF sd] by auto
  from session_authenticate_client_0 [OF au, folded hello, unfolded host draw_drew [OF d] add_0]
  show ?thesis using hello m(2) by (elim exE conjE) (metis append.assoc)
qed

section \<open>Both sides together\<close>

subsection \<open>What each side offers\<close>

text \<open>
  The messages in closed form: they depend on the session, on the entropy, and, for the
  response of the client, on the challenge.
\<close>

definition server_challenge :: "sodium \<Rightarrow> session \<Rightarrow> world \<Rightarrow> auth_challenge" where
  "server_challenge S s w =
     (let nonce = draw AUTH_NONCE_SIZE 0 w;
          pk = fst (the (kx_keypair S (draw KX_SEEDBYTES AUTH_NONCE_SIZE w)))
      in \<lparr>ch_signature = the (sign_detached S (nonce @ pk) (private_key (crypto s))),
          ch_public_key = public_key (crypto s), ch_eph_public_key = pk, ch_nonce = nonce\<rparr>)"

definition client_response :: "sodium \<Rightarrow> auth_challenge \<Rightarrow> session \<Rightarrow> world \<Rightarrow> auth_response" where
  "client_response S c s w =
     (let pk = fst (the (kx_keypair S (draw KX_SEEDBYTES 0 w)))
      in \<lparr>rs_signature = the (sign_detached S (ch_nonce c @ pk) (private_key (crypto s))),
          rs_public_key = public_key (crypto s), rs_eph_public_key = pk\<rparr>)"

definition server_success :: "session \<Rightarrow> world \<Rightarrow> auth_success" where
  "server_success s w =
     \<lparr>su_session_nonce = draw SESSION_NONCE_SIZE (AUTH_NONCE_SIZE + KX_SEEDBYTES) w,
      su_session_id = session_id s\<rparr>"

definition hello_wire :: "packet_header_t \<Rightarrow> world \<Rightarrow> bytes" where
  "hello_wire t w = wire_packet (pad_bytes w) (packet_of (message t CURRENT_PROTOCOL_VERSION None 0))"

definition body_wire :: "packet_header_t \<Rightarrow> bytes \<Rightarrow> nat \<Rightarrow> world \<Rightarrow> bytes" where
  "body_wire t b n w = wire_packet (pad_bytes w) (packet_of (message t CURRENT_PROTOCOL_VERSION (Some b) n))"

definition server_stream :: "sodium \<Rightarrow> session \<Rightarrow> world \<Rightarrow> bytes" where
  "server_stream S s w =
     hello_wire PACKET_SERVER_HELLO w @
     body_wire PACKET_AUTH_REQUEST (challenge_mem (server_challenge S s w)) SIZEOF_AUTH_CHALLENGE w @
     body_wire PACKET_AUTH_SUCCESS (success_mem (host w) (server_success s w)) SIZEOF_AUTH_SUCCESS w"

definition client_stream :: "sodium \<Rightarrow> auth_challenge \<Rightarrow> session \<Rightarrow> world \<Rightarrow> bytes" where
  "client_stream S c s w =
     hello_wire PACKET_CLIENT_HELLO w @
     body_wire PACKET_AUTH_RESPONSE (response_mem (client_response S c s w)) SIZEOF_AUTH_RESPONSE w"

text \<open>A usable identity, and a side whose allocations and \<^verbatim>\<open>send\<close> calls succeed.\<close>

definition identity_ok :: "sodium \<Rightarrow> crypto_context \<Rightarrow> bool" where
  "identity_ok S ctx \<longleftrightarrow>
     length (public_key ctx) = CRYPTO_PUBLIC_KEY_SIZE \<and>
     (\<forall>m. \<exists>sig. sign_detached S m (private_key ctx) = Some sig \<and> length sig = CRYPTO_SIGNATURE_SIZE \<and>
        sign_verify S sig m (public_key ctx))"

definition serviceable :: "session \<Rightarrow> world \<Rightarrow> bool" where
  "serviceable s w \<longleftrightarrow>
     accepts_data (sess_socket s) w \<and> (\<forall>i. malloc_ok w i) \<and> protocol_version s = CURRENT_PROTOCOL_VERSION"

lemma serviceable_step: "hs_step s w r s' w' \<Longrightarrow> serviceable s w \<Longrightarrow> serviceable s' w'"
  by (auto simp: hs_step_def serviceable_def dest: socket_frame_env(1,4))

lemma message_of_bytes:
  fixes t :: packet_header_t
  assumes "length b = n" "0 < n" "n \<le> 1024"
  defines "p \<equiv> packet_of (message t CURRENT_PROTOCOL_VERSION (Some b) n)"
  shows "acceptable p" "payload_bytes p = b" "ptype (header p) = type_code t"
    "payload_length (header p) = of_nat n" "wf_constructor (message t CURRENT_PROTOCOL_VERSION (Some b) n)"
    "c_payload_length (message t CURRENT_PROTOCOL_VERSION (Some b) n) \<le> MAX_PACKET_SIZE"
proof -
  have u: "unat (of_nat n :: u32) = n" using assms(3) by (simp add: unat_of_nat_small)
  then have nz: "(of_nat n :: u32) \<noteq> 0" using assms(2) by (metis unat_0 less_irrefl)
  have le: "(of_nat n :: u32) \<le> MAX_PACKET_SIZE"
    using u assms(3) by (simp add: word_le_nat_alt MAX_PACKET_SIZE_def)
  show "wf_constructor (message t CURRENT_PROTOCOL_VERSION (Some b) n)"
    using u assms(1) by (simp add: wf_constructor_def message_def)
  then have "wf_packet p" unfolding p_def by (rule wf_packet_of)
  moreover have "type_code t \<le> type_code PACKET_ERROR" by (cases t) simp_all
  ultimately show "acceptable p"
    using le by (simp add: acceptable_def p_def packet_of_def message_def)
  show "payload_bytes p = b" "ptype (header p) = type_code t" "payload_length (header p) = of_nat n"
    "c_payload_length (message t CURRENT_PROTOCOL_VERSION (Some b) n) \<le> MAX_PACKET_SIZE"
    using nz le by (simp_all add: p_def packet_of_def message_def payload_bytes_def)
qed

lemma message_hello:
  "acceptable (packet_of (message t CURRENT_PROTOCOL_VERSION None 0))"
  "ptype (header (packet_of (message t CURRENT_PROTOCOL_VERSION None 0))) = type_code t"
  "version (header (packet_of (message t CURRENT_PROTOCOL_VERSION None 0))) = CURRENT_PROTOCOL_VERSION"
  "wf_constructor (message t CURRENT_PROTOCOL_VERSION None 0)"
  "c_payload_length (message t CURRENT_PROTOCOL_VERSION None 0) \<le> MAX_PACKET_SIZE"
  by (cases t; simp add: acceptable_def wf_packet_def packet_of_def message_def payload_bytes_def
      wf_constructor_def MAX_PACKET_SIZE_def)+

subsection \<open>Single messages\<close>

lemma send_body:
  assumes "serviceable s w" "length b = n" "0 < n" "n \<le> 1024"
  shows "\<exists>w'. send_msg (sess_socket s) (message t CURRENT_PROTOCOL_VERSION (Some b) n) w = (0, w') \<and>
    sent_on (sess_socket s) w' = sent_on (sess_socket s) w @ body_wire t b n w"
  using send_msg_ok [of "sess_socket s" w "message t CURRENT_PROTOCOL_VERSION (Some b) n"]
    message_of_bytes(5,6) [OF assms(2-4)] assms(1)
  by (simp add: serviceable_def body_wire_def)

lemma send_hello:
  assumes "serviceable s w"
  shows "\<exists>w'. send_msg (sess_socket s) (message t CURRENT_PROTOCOL_VERSION None 0) w = (0, w') \<and>
    sent_on (sess_socket s) w' = sent_on (sess_socket s) w @ hello_wire t w"
  using send_msg_ok [of "sess_socket s" w "message t CURRENT_PROTOCOL_VERSION None 0"]
    message_hello(4,5) assms
  by (simp add: serviceable_def hello_wire_def)

lemma recv_body:
  assumes "serviceable s w" "length b = n" "0 < n" "n \<le> 1024"
    and "pending (sess_socket s) w = body_wire t b n v @ rest"
  shows "\<exists>m w'. recv_msg (sess_socket s) w = (Some m, w') \<and> payload_bytes m = b \<and>
    ptype (header m) = type_code t \<and> payload_length (header m) = of_nat n \<and>
    pending (sess_socket s) w' = rest \<and> sent_on (sess_socket s) w' = sent_on (sess_socket s) w"
proof -
  note m = message_of_bytes [OF assms(2-4), of t]
  obtain w' where rc: "recv_msg (sess_socket s) w =
      (Some (packet_of (message t CURRENT_PROTOCOL_VERSION (Some b) n)), w')" "pending (sess_socket s) w' = rest"
    using recv_msg_complete [OF m(1), of "sess_socket s" w "pad_bytes v" rest] assms(1,5)
    by (auto simp: serviceable_def body_wire_def)
  with m(2-4) recv_msg_frame(2) [OF rc(1)] show ?thesis by blast
qed

lemma recv_hello:
  assumes "serviceable s w" and "pending (sess_socket s) w = hello_wire t v @ rest"
  shows "\<exists>m w'. recv_msg (sess_socket s) w = (Some m, w') \<and>
    ptype (header m) = type_code t \<and> version (header m) = CURRENT_PROTOCOL_VERSION \<and>
    pending (sess_socket s) w' = rest \<and> sent_on (sess_socket s) w' = sent_on (sess_socket s) w"
proof -
  obtain w' where rc: "recv_msg (sess_socket s) w =
      (Some (packet_of (message t CURRENT_PROTOCOL_VERSION None 0)), w')" "pending (sess_socket s) w' = rest"
    using recv_msg_complete [OF message_hello(1), of "sess_socket s" w "pad_bytes v" t rest] assms
    by (auto simp: serviceable_def hello_wire_def)
  with message_hello(2,3) recv_msg_frame(2) [OF rc(1)] show ?thesis by blast
qed

lemma body_wire_cong: "pad_bytes w' = pad_bytes w \<Longrightarrow> body_wire t b n w' = body_wire t b n w"
  by (simp add: body_wire_def)

lemma hello_wire_cong: "pad_bytes w' = pad_bytes w \<Longrightarrow> hello_wire t w' = hello_wire t w"
  by (simp add: hello_wire_def)

lemma generate_ephemeral_runs:
  assumes "kx_correct S"
  shows "\<exists>pk sk w'. crypto_generate_ephemeral S ctx w =
      (0, ctx\<lparr>eph_public_key := pk, eph_private_key := sk\<rparr>, w') \<and>
    kx_keypair S (draw KX_SEEDBYTES 0 w) = Some (pk, sk) \<and> length pk = KX_PUBLICKEYBYTES \<and>
    sent_on fd w' = sent_on fd w \<and> pending fd w' = pending fd w \<and> drew KX_SEEDBYTES w w' \<and> local_frame w w'"
proof -
  have len: "length (draw KX_SEEDBYTES 0 w) = KX_SEEDBYTES" by simp
  with assms obtain pk sk where k: "kx_keypair S (draw KX_SEEDBYTES 0 w) = Some (pk, sk)" "length pk = KX_PUBLICKEYBYTES"
    unfolding kx_correct_def by blast
  obtain r ctx' w' where g: "crypto_generate_ephemeral S ctx w = (r, ctx', w')" by (metis prod_cases3)
  have r: "r = 0" using crypto_generate_ephemeral_ok [OF g assms] by simp
  obtain pk' sk' where c: "ctx' = ctx\<lparr>eph_public_key := pk', eph_private_key := sk'\<rparr>"
    using crypto_generate_ephemeral_frame(4) [OF g] by blast
  have "pk' = pk" "sk' = sk" using crypto_generate_ephemeral_draw(2) [OF g r] c k by simp_all
  with g r c k crypto_generate_ephemeral_draw(1) [OF g] crypto_generate_ephemeral_frame(1) [OF g]
    local_frame_streams(1,2) [OF crypto_generate_ephemeral_frame(1) [OF g], of fd]
  show ?thesis by blast
qed

subsection \<open>The server runs to the end\<close>

lemma server_authenticate_runs:
  assumes ok: "serviceable s w" and id: "identity_ok S (crypto s)" and kx: "kx_correct S"
    and key: "kx_keypair S (draw KX_SEEDBYTES AUTH_NONCE_SIZE w) = Some (pk, sk)"
  shows "\<exists>w'. session_authenticate_server S s w =
      (0, s\<lparr>auth_nonce := draw AUTH_NONCE_SIZE 0 w,
            crypto := (crypto s)\<lparr>eph_public_key := pk, eph_private_key := sk\<rparr>,
            sess_state := SESSION_WAIT_AUTH\<rparr>, w') \<and>
    sent_on (sess_socket s) w' = sent_on (sess_socket s) w @
      body_wire PACKET_AUTH_REQUEST (challenge_mem (server_challenge S s w)) SIZEOF_AUTH_CHALLENGE w \<and>
    wf_challenge (server_challenge S s w)"
proof -
  let ?fd = "sess_socket s" and ?c = "server_challenge S s w"
  obtain nonce w1 where rn: "sys_random AUTH_NONCE_SIZE w = (nonce, w1)" by force
  note d1 = sys_random_draw [OF rn]
  have nonce: "nonce = draw AUTH_NONCE_SIZE 0 w" and dk: "draw KX_SEEDBYTES 0 w1 = draw KX_SEEDBYTES AUTH_NONCE_SIZE w"
    using d1 draw_drew [of AUTH_NONCE_SIZE w w1 KX_SEEDBYTES 0] by simp_all
  let ?ctx = "(crypto s)\<lparr>eph_public_key := pk, eph_private_key := sk\<rparr>"
  obtain w2 where g: "crypto_generate_ephemeral S (crypto s) w1 = (0, ?ctx, w2)" "length pk = KX_PUBLICKEYBYTES"
      "sent_on ?fd w2 = sent_on ?fd w1" "local_frame w1 w2"
    using generate_ephemeral_runs [OF kx, of "crypto s" w1 ?fd] key dk by auto
  obtain sig where sg: "sign_detached S (nonce @ pk) (private_key (crypto s)) = Some sig"
      "length sig = CRYPTO_SIGNATURE_SIZE"
    using id unfolding identity_ok_def by blast
  have c: "?c = \<lparr>ch_signature = sig, ch_public_key = public_key (crypto s), ch_eph_public_key = pk, ch_nonce = nonce\<rparr>"
    using key sg(1) nonce by (simp add: server_challenge_def)
  have wf: "wf_challenge ?c" using sg(2) g(2) id nonce by (simp add: c wf_challenge_def identity_ok_def)
  have lf: "local_frame w w2" using sys_random_local [OF rn] g(4) by (rule local_frame_trans)
  have ok2: "serviceable s w2" and pad: "pad_bytes w2 = pad_bytes w"
    using ok socket_frame_env(1,3,4) [OF local_socket_frame [OF lf, of ?fd]] by (simp_all add: serviceable_def)
  have len: "length (challenge_mem ?c) = SIZEOF_AUTH_CHALLENGE" using challenge.enc_length [OF wf] .
  obtain w3 where sd: "send_msg ?fd (message PACKET_AUTH_REQUEST CURRENT_PROTOCOL_VERSION
      (Some (challenge_mem ?c)) SIZEOF_AUTH_CHALLENGE) w2 = (0, w3)"
      "sent_on ?fd w3 = sent_on ?fd w2 @ body_wire PACKET_AUTH_REQUEST (challenge_mem ?c) SIZEOF_AUTH_CHALLENGE w"
    using send_body [OF ok2 len, of PACKET_AUTH_REQUEST] body_wire_cong [OF pad]
    by (auto simp: SIZEOF_AUTH_CHALLENGE_def)
  define s1 where s1: "s1 = s\<lparr>auth_nonce := nonce, crypto := ?ctx\<rparr>"
  have co: "challenge_of s1 sig = ?c" by (simp add: c challenge_of_def s1)
  have sel: "crypto s1 = ?ctx" "auth_nonce s1 = nonce" "sess_socket s1 = ?fd"
      "protocol_version s1 = CURRENT_PROTOCOL_VERSION" "eph_public_key ?ctx = pk"
    using ok by (simp_all add: s1 serviceable_def)
  have sm: "crypto_sign_message S ?ctx (nonce @ pk) w2 = (Some sig, w2)"
    using sg(1) by (simp add: crypto_sign_message_def)
  have "session_authenticate_server S s w = (0, s1\<lparr>sess_state := SESSION_WAIT_AUTH\<rparr>,
      log_msg SUCCESS_MSG SERVER_RT ''Requested for client authentication'' [] w3)"
    unfolding session_authenticate_server_msg
    by (simp only: rn g(1) Let_def s1 [symmetric] sel sm co sd(1) prod.case option.case not_True_eq_False
        refl if_False)
  moreover have "sent_on ?fd w3 = sent_on ?fd w @ body_wire PACKET_AUTH_REQUEST (challenge_mem ?c) SIZEOF_AUTH_CHALLENGE w"
    using sd(2) g(3) local_frame_streams(2) [OF sys_random_local [OF rn]] by simp
  ultimately show ?thesis using wf nonce by (simp add: s1)
qed

lemma server_verify_runs:
  assumes ok: "serviceable s w" and wf: "wf_response rsp"
    and pen: "pending (sess_socket s) w = body_wire PACKET_AUTH_RESPONSE (response_mem rsp) SIZEOF_AUTH_RESPONSE v @ rest"
    and sig: "sign_verify S (rs_signature rsp) (auth_nonce s @ rs_eph_public_key rsp) (rs_public_key rsp)"
    and kx: "kx_server_session_keys S (eph_public_key (crypto s)) (eph_private_key (crypto s))
      (rs_eph_public_key rsp) = Some (rx, tx)"
  shows "\<exists>w'. session_verify_client S s w =
      (0, s\<lparr>crypto := (crypto s)\<lparr>peer_public_key := rs_public_key rsp, rx_key := rx, tx_key := tx, verified := 1\<rparr>\<rparr>, w') \<and>
    pending (sess_socket s) w' = rest \<and> sent_on (sess_socket s) w' = sent_on (sess_socket s) w"
proof -
  have len: "length (response_mem rsp) = SIZEOF_AUTH_RESPONSE" using response.enc_length [OF wf] .
  obtain m w1 where m: "recv_msg (sess_socket s) w = (Some m, w1)" "payload_bytes m = response_mem rsp"
      "ptype (header m) = type_code PACKET_AUTH_RESPONSE" "payload_length (header m) = of_nat SIZEOF_AUTH_RESPONSE"
      "pending (sess_socket s) w1 = rest" "sent_on (sess_socket s) w1 = sent_on (sess_socket s) w"
    using recv_body [OF ok len _ _ pen] by (auto simp: SIZEOF_AUTH_RESPONSE_def)
  have "response_of_mem (response_mem rsp) = rsp" using response.dec_enc [OF wf] .
  with m kx sig show ?thesis
    by (simp add: session_verify_client_msg crypto_derive_server_keys_def)
qed

lemma server_confirm_runs:
  assumes ok: "serviceable s w"
  shows "\<exists>w'. server_confirm s w =
      (0, s\<lparr>session_nonce := draw SESSION_NONCE_SIZE 0 w, sess_state := SESSION_ESTABLISHED\<rparr>, w') \<and>
    pending (sess_socket s) w' = pending (sess_socket s) w \<and>
    sent_on (sess_socket s) w' = sent_on (sess_socket s) w @
      body_wire PACKET_AUTH_SUCCESS (success_mem (host w)
        \<lparr>su_session_nonce = draw SESSION_NONCE_SIZE 0 w, su_session_id = session_id s\<rparr>) SIZEOF_AUTH_SUCCESS w"
proof -
  let ?fd = "sess_socket s"
  obtain nonce w1 where rn: "sys_random SESSION_NONCE_SIZE w = (nonce, w1)" by force
  have nonce: "nonce = draw SESSION_NONCE_SIZE 0 w" using sys_random_draw [OF rn] by simp
  note lf = sys_random_local [OF rn]
  have ok1: "serviceable s w1" and pad: "pad_bytes w1 = pad_bytes w" and host: "host w1 = host w"
    using ok socket_frame_env(1-4) [OF local_socket_frame [OF lf, of ?fd]] by (simp_all add: serviceable_def)
  let ?a = "\<lparr>su_session_nonce = nonce, su_session_id = session_id s\<rparr>"
  have "wf_success ?a" by (simp add: wf_success_def nonce)
  then have len: "length (success_mem (host w) ?a) = SIZEOF_AUTH_SUCCESS" by (rule success.enc_length)
  obtain w2 where sd: "send_msg ?fd (message PACKET_AUTH_SUCCESS CURRENT_PROTOCOL_VERSION
      (Some (success_mem (host w) ?a)) SIZEOF_AUTH_SUCCESS) w1 = (0, w2)"
      "sent_on ?fd w2 = sent_on ?fd w1 @ body_wire PACKET_AUTH_SUCCESS (success_mem (host w) ?a) SIZEOF_AUTH_SUCCESS w"
    using send_body [OF ok1 len, of PACKET_AUTH_SUCCESS] body_wire_cong [OF pad]
    by (auto simp: SIZEOF_AUTH_SUCCESS_def)
  have "protocol_version s = CURRENT_PROTOCOL_VERSION" using ok by (simp add: serviceable_def)
  then have "server_confirm s w = (0, s\<lparr>session_nonce := nonce, sess_state := SESSION_ESTABLISHED\<rparr>, w2)"
    using rn sd(1) host by (simp add: server_confirm_msg success_of_def Let_def)
  moreover have "pending ?fd w2 = pending ?fd w" "sent_on ?fd w1 = sent_on ?fd w"
    using local_frame_streams(1,2) [OF lf] send_msg_frame(2) [OF sd(1)] by simp_all
  ultimately show ?thesis using sd(2) nonce by simp
qed

lemma server_connect_runs:
  assumes ok: "serviceable s w" and id: "identity_ok S (crypto s)" and kxc: "kx_correct S" and wf: "wf_response rsp"
    and pen: "pending (sess_socket s) w = hello_wire PACKET_CLIENT_HELLO v @
      body_wire PACKET_AUTH_RESPONSE (response_mem rsp) SIZEOF_AUTH_RESPONSE v @ rest"
    and sig: "sign_verify S (rs_signature rsp) (draw AUTH_NONCE_SIZE 0 w @ rs_eph_public_key rsp) (rs_public_key rsp)"
    and key: "kx_keypair S (draw KX_SEEDBYTES AUTH_NONCE_SIZE w) = Some (pk, sk)"
    and kx: "kx_server_session_keys S pk sk (rs_eph_public_key rsp) = Some (rx, tx)"
  shows "\<exists>s' w'. session_server_connect S s w = (0, s', w') \<and>
    sent_on (sess_socket s) w' = sent_on (sess_socket s) w @ server_stream S s w \<and>
    pending (sess_socket s) w' = rest \<and> peer_public_key (crypto s') = rs_public_key rsp \<and>
    rx_key (crypto s') = rx \<and> tx_key (crypto s') = tx"
proof -
  let ?fd = "sess_socket s"
  obtain m w1 where m: "recv_msg ?fd w = (Some m, w1)" "ptype (header m) = type_code PACKET_CLIENT_HELLO"
      "version (header m) = CURRENT_PROTOCOL_VERSION"
      "pending ?fd w1 = body_wire PACKET_AUTH_RESPONSE (response_mem rsp) SIZEOF_AUTH_RESPONSE v @ rest"
      "sent_on ?fd w1 = sent_on ?fd w"
    using recv_hello [OF ok pen] by auto
  have f1: "hs_step s w 1 s w1" using recv_msg_frame(1) [OF m(1)] by (simp add: hs_step_def)
  have vers: "protocol_version s = CURRENT_PROTOCOL_VERSION" using ok by (simp add: serviceable_def)
  obtain w2 where sd: "send_msg ?fd (message PACKET_SERVER_HELLO CURRENT_PROTOCOL_VERSION None 0) w1 = (0, w2)"
      "sent_on ?fd w2 = sent_on ?fd w1 @ hello_wire PACKET_SERVER_HELLO w1"
    using send_hello [OF serviceable_step [OF f1 ok], of PACKET_SERVER_HELLO] by auto
  let ?s = "s\<lparr>sess_state := SESSION_WAIT_AUTH\<rparr>"
  let ?w = "log_msg SUCCESS_MSG SERVER_RT ''Handshake completed'' [] w2"
  have f2: "socket_frame ?fd w ?w"
    using recv_msg_frame(1) [OF m(1)] send_msg_frame(1) [OF sd(1)]
    by (blast intro: socket_frame_trans log_socket_frame)
  note env = socket_frame_env [OF f2]
  have ok2: "serviceable ?s ?w" using ok env by (simp add: serviceable_def)
  have d2: "drew 0 w ?w"
    using drew_trans [OF drew_io [OF recv_msg_frame(3) [OF m(1)]] drew_io [OF send_msg_frame(3) [OF sd(1)]]] by simp
  note dr = draw_drew [OF d2, unfolded add_0]
  have chal: "server_challenge S ?s ?w = server_challenge S s w" by (simp add: server_challenge_def dr)
  obtain w3 where au: "session_authenticate_server S ?s ?w =
      (0, ?s\<lparr>auth_nonce := draw AUTH_NONCE_SIZE 0 w, crypto := (crypto s)\<lparr>eph_public_key := pk, eph_private_key := sk\<rparr>\<rparr>, w3)"
      "sent_on ?fd w3 = sent_on ?fd w2 @
         body_wire PACKET_AUTH_REQUEST (challenge_mem (server_challenge S s w)) SIZEOF_AUTH_CHALLENGE w"
    using server_authenticate_runs [OF ok2 _ kxc, of pk sk] id key chal body_wire_cong [OF env(3)] by (auto simp: dr)
  define s3 where s3: "s3 = ?s\<lparr>auth_nonce := draw AUTH_NONCE_SIZE 0 w,
      crypto := (crypto s)\<lparr>eph_public_key := pk, eph_private_key := sk\<rparr>\<rparr>"
  note au' = au(1) [folded s3]
  have fd3: "sess_socket s3 = ?fd" by (simp add: s3)
  have ok3: "serviceable s3 w3" by (rule serviceable_step [OF session_authenticate_server_step [OF au'] ok2])
  have pen3: "pending ?fd w3 = body_wire PACKET_AUTH_RESPONSE (response_mem rsp) SIZEOF_AUTH_RESPONSE v @ rest"
    using session_authenticate_server_0(4) [OF au', of ?fd] send_msg_frame(2) [OF sd(1)] m(4) by simp
  obtain w4 where ve: "session_verify_client S s3 w3 =
      (0, s3\<lparr>crypto := (crypto s3)\<lparr>peer_public_key := rs_public_key rsp, rx_key := rx, tx_key := tx, verified := 1\<rparr>\<rparr>, w4)"
      "pending ?fd w4 = rest" "sent_on ?fd w4 = sent_on ?fd w3"
    using server_verify_runs [OF ok3 wf, of v rest S rx tx] pen3 sig kx fd3 by (auto simp: s3)
  define s4 where s4: "s4 = s3\<lparr>crypto := (crypto s3)\<lparr>peer_public_key := rs_public_key rsp, rx_key := rx,
      tx_key := tx, verified := 1\<rparr>\<rparr>"
  note ve' = ve(1) [folded s4]
  have fd4: "sess_socket s4 = ?fd" and id4: "session_id s4 = session_id s" by (simp_all add: s4 s3)
  have h: "hs_step ?s ?w 0 s4 w4"
    by (rule hs_step_trans [OF session_authenticate_server_step [OF au'] session_verify_client_step [OF ve']])
  have ok4: "serviceable s4 w4" by (rule serviceable_step [OF h ok2])
  have env4: "pad_bytes w4 = pad_bytes w" "host w4 = host w"
    using h env(2,3) by (auto simp: hs_step_def socket_frame_def env_frame_def)
  have d4: "drew (AUTH_NONCE_SIZE + KX_SEEDBYTES) w w4"
    using drew_trans [OF drew_trans [OF d2 session_authenticate_server_0(3) [OF au']] session_verify_client_0(2) [OF ve']]
    by simp
  obtain w5 where co: "server_confirm s4 w4 =
      (0, s4\<lparr>session_nonce := draw SESSION_NONCE_SIZE 0 w4, sess_state := SESSION_ESTABLISHED\<rparr>, w5)"
      "pending ?fd w5 = rest" "sent_on ?fd w5 = sent_on ?fd w4 @
        body_wire PACKET_AUTH_SUCCESS (success_mem (host w) (server_success s w)) SIZEOF_AUTH_SUCCESS w"
    using server_confirm_runs [OF ok4] draw_drew [OF d4, of SESSION_NONCE_SIZE 0] ve(2)
    by (auto simp: fd4 id4 env4(2) body_wire_cong [OF env4(1)] server_success_def)
  let ?s' = "s4\<lparr>session_nonce := draw SESSION_NONCE_SIZE 0 w4, sess_state := SESSION_ESTABLISHED\<rparr>"
  have run: "session_server_connect S s w = (0, ?s', w5)"
    unfolding session_server_connect_msg
    by (simp only: m(1-3) vers sd(1) au' ve' co(1) prod.case option.case not_True_eq_False refl if_False simp_thms)
  have hw: "hello_wire PACKET_SERVER_HELLO w1 = hello_wire PACKET_SERVER_HELLO w"
    by (rule hello_wire_cong) (use recv_msg_frame(3) [OF m(1)] in \<open>simp add: io_frame_def\<close>)
  have out: "sent_on ?fd w5 = sent_on ?fd w @ server_stream S s w"
    using co(3) ve(3) au(2) sd(2) m(5) hw by (simp add: server_stream_def)
  show ?thesis
    by (rule exI [of _ ?s'], rule exI [of _ w5]) (use run out co(2) in \<open>simp add: s4\<close>)
qed

subsection \<open>The client runs to the end\<close>

lemma client_await_runs:
  assumes ok: "serviceable s w" and wf: "wf_success a"
    and pen: "pending (sess_socket s) w = body_wire PACKET_AUTH_SUCCESS (success_mem e a) SIZEOF_AUTH_SUCCESS v @ rest"
  shows "\<exists>w'. client_await s w =
      (0, s\<lparr>session_id := su_session_id (success_of_mem (host w) (success_mem e a)),
            session_nonce := su_session_nonce (success_of_mem (host w) (success_mem e a)),
            sess_state := SESSION_ESTABLISHED\<rparr>, w') \<and>
    pending (sess_socket s) w' = rest \<and> sent_on (sess_socket s) w' = sent_on (sess_socket s) w"
proof -
  have len: "length (success_mem e a) = SIZEOF_AUTH_SUCCESS" using success.enc_length [OF wf] .
  obtain m w1 where m: "recv_msg (sess_socket s) w = (Some m, w1)" "payload_bytes m = success_mem e a"
      "ptype (header m) = type_code PACKET_AUTH_SUCCESS" "payload_length (header m) = of_nat SIZEOF_AUTH_SUCCESS"
      "pending (sess_socket s) w1 = rest" "sent_on (sess_socket s) w1 = sent_on (sess_socket s) w"
    using recv_body [OF ok len _ _ pen] by (auto simp: SIZEOF_AUTH_SUCCESS_def)
  have "host w1 = host w" using recv_msg_frame(3) [OF m(1)] by (simp add: io_frame_def)
  with m show ?thesis by (simp add: client_await_msg Let_def)
qed

lemma client_respond_runs:
  assumes ok: "serviceable s w" and id: "identity_ok S (crypto s)" and kxc: "kx_correct S" and wf: "wf_success a"
    and pen: "pending (sess_socket s) w = body_wire PACKET_AUTH_SUCCESS (success_mem e a) SIZEOF_AUTH_SUCCESS v @ rest"
    and key: "kx_keypair S (draw KX_SEEDBYTES 0 w) = Some (pk, sk)"
    and kx: "kx_client_session_keys S pk sk (ch_eph_public_key c) = Some (rx, tx)"
  shows "\<exists>w'. client_respond S c s w =
      (0, s\<lparr>crypto := (crypto s)\<lparr>eph_public_key := pk, eph_private_key := sk, rx_key := rx, tx_key := tx\<rparr>,
            session_id := su_session_id (success_of_mem (host w) (success_mem e a)),
            session_nonce := su_session_nonce (success_of_mem (host w) (success_mem e a)),
            sess_state := SESSION_ESTABLISHED\<rparr>, w') \<and>
    pending (sess_socket s) w' = rest \<and>
    sent_on (sess_socket s) w' = sent_on (sess_socket s) w @
      body_wire PACKET_AUTH_RESPONSE (response_mem (client_response S c s w)) SIZEOF_AUTH_RESPONSE w \<and>
    wf_response (client_response S c s w)"
proof -
  let ?fd = "sess_socket s" and ?r = "client_response S c s w"
  let ?ctx1 = "(crypto s)\<lparr>eph_public_key := pk, eph_private_key := sk\<rparr>"
  define ctx where ctx: "ctx = ?ctx1\<lparr>rx_key := rx, tx_key := tx\<rparr>"
  obtain w1 where g: "crypto_generate_ephemeral S (crypto s) w = (0, ?ctx1, w1)" "length pk = KX_PUBLICKEYBYTES"
      "sent_on ?fd w1 = sent_on ?fd w" "pending ?fd w1 = pending ?fd w" "local_frame w w1"
    using generate_ephemeral_runs [OF kxc, of "crypto s" w ?fd] key by auto
  have d: "crypto_derive_client_keys S ?ctx1 (ch_eph_public_key c) w1 = (0, ctx, w1)"
    using kx by (simp add: crypto_derive_client_keys_def ctx)
  obtain sig where sg: "sign_detached S (ch_nonce c @ pk) (private_key (crypto s)) = Some sig"
      "length sig = CRYPTO_SIGNATURE_SIZE"
    using id unfolding identity_ok_def by blast
  have sm: "crypto_sign_message S ctx (ch_nonce c @ pk) w1 = (Some sig, w1)"
    using sg(1) by (simp add: crypto_sign_message_def ctx)
  have r: "?r = \<lparr>rs_signature = sig, rs_public_key = public_key (crypto s), rs_eph_public_key = pk\<rparr>"
    using key sg(1) by (simp add: client_response_def)
  have wfr: "wf_response ?r" using sg(2) g(2) id by (simp add: r wf_response_def identity_ok_def)
  define s1 where s1: "s1 = s\<lparr>crypto := ctx\<rparr>"
  have sel: "crypto s1 = ctx" "eph_public_key ctx = pk" "sess_socket s1 = ?fd"
      "protocol_version s1 = CURRENT_PROTOCOL_VERSION" "response_of s1 sig = ?r"
    using ok by (simp_all add: s1 ctx serviceable_def response_of_def r)
  note env = socket_frame_env [OF local_socket_frame [OF g(5), of ?fd]]
  have ok1: "serviceable s1 w1" using ok env by (simp add: serviceable_def s1)
  have len: "length (response_mem ?r) = SIZEOF_AUTH_RESPONSE" using response.enc_length [OF wfr] .
  obtain w2 where sd: "send_msg ?fd (message PACKET_AUTH_RESPONSE CURRENT_PROTOCOL_VERSION
      (Some (response_mem ?r)) SIZEOF_AUTH_RESPONSE) w1 = (0, w2)"
      "sent_on ?fd w2 = sent_on ?fd w1 @ body_wire PACKET_AUTH_RESPONSE (response_mem ?r) SIZEOF_AUTH_RESPONSE w"
    using send_body [OF ok1 len, of PACKET_AUTH_RESPONSE] body_wire_cong [OF env(3)]
    by (auto simp: SIZEOF_AUTH_RESPONSE_def sel(3))
  let ?s2 = "s1\<lparr>sess_state := SESSION_WAIT_AUTH\<rparr>"
  have f2: "socket_frame ?fd w1 w2" by (rule send_msg_frame(1) [OF sd(1)])
  have ok2: "serviceable ?s2 w2" using ok1 socket_frame_env [OF f2] by (simp add: serviceable_def sel(3))
  have host: "host w2 = host w" using socket_frame_env(2) [OF f2] env(2) by simp
  have pen2: "pending ?fd w2 = body_wire PACKET_AUTH_SUCCESS (success_mem e a) SIZEOF_AUTH_SUCCESS v @ rest"
    using pen g(4) send_msg_frame(2) [OF sd(1)] by simp
  let ?b = "success_of_mem (host w) (success_mem e a)"
  obtain w3 where aw: "client_await ?s2 w2 =
      (0, s1\<lparr>session_id := su_session_id ?b, session_nonce := su_session_nonce ?b, sess_state := SESSION_ESTABLISHED\<rparr>, w3)"
      "pending ?fd w3 = rest" "sent_on ?fd w3 = sent_on ?fd w2"
    using client_await_runs [OF ok2 wf, of e v rest] pen2 by (auto simp: sel(3) host)
  have "client_respond S c s w =
      (0, s1\<lparr>session_id := su_session_id ?b, session_nonce := su_session_nonce ?b, sess_state := SESSION_ESTABLISHED\<rparr>, w3)"
    unfolding client_respond_msg
    using s1 by (simp add: g(1) Let_def d s1 [symmetric] sel sm sd(1) aw(1))
  with aw(2,3) sd(2) g(3) wfr show ?thesis by (simp add: s1 ctx)
qed

lemma client_connect_runs:
  assumes ok: "serviceable s w" and id: "identity_ok S (crypto s)" and kxc: "kx_correct S"
    and wfc: "wf_challenge c" and wfa: "wf_success a"
    and pen: "pending (sess_socket s) w = hello_wire PACKET_SERVER_HELLO v @
      body_wire PACKET_AUTH_REQUEST (challenge_mem c) SIZEOF_AUTH_CHALLENGE v @
      body_wire PACKET_AUTH_SUCCESS (success_mem e a) SIZEOF_AUTH_SUCCESS v @ rest"
    and sig: "sign_verify S (ch_signature c) (ch_nonce c @ ch_eph_public_key c) (ch_public_key c)"
    and trust: "has_trusted_peer_key s \<longrightarrow> trusted_peer_key s = ch_public_key c"
    and key: "kx_keypair S (draw KX_SEEDBYTES 0 w) = Some (pk, sk)"
    and kx: "kx_client_session_keys S pk sk (ch_eph_public_key c) = Some (rx, tx)"
  shows "\<exists>s' w'. session_client_connect S s w = (0, s', w') \<and>
    sent_on (sess_socket s) w' = sent_on (sess_socket s) w @ client_stream S c s w \<and>
    pending (sess_socket s) w' = rest \<and> wf_response (client_response S c s w) \<and>
    peer_public_key (crypto s') = ch_public_key c \<and> rx_key (crypto s') = rx \<and> tx_key (crypto s') = tx \<and>
    session_id s' = su_session_id (success_of_mem (host w) (success_mem e a)) \<and>
    session_nonce s' = su_session_nonce (success_of_mem (host w) (success_mem e a))"
proof -
  let ?fd = "sess_socket s"
  obtain w1 where sd: "send_msg ?fd (message PACKET_CLIENT_HELLO CURRENT_PROTOCOL_VERSION None 0) w = (0, w1)"
      "sent_on ?fd w1 = sent_on ?fd w @ hello_wire PACKET_CLIENT_HELLO w"
    using send_hello [OF ok, of PACKET_CLIENT_HELLO] by auto
  have f1: "hs_step s w 0 s w1" using send_msg_frame(1) [OF sd(1)] by (simp add: hs_step_def)
  obtain h w2 where h: "recv_msg ?fd w1 = (Some h, w2)" "ptype (header h) = type_code PACKET_SERVER_HELLO"
      "version (header h) = CURRENT_PROTOCOL_VERSION"
      "pending ?fd w2 = body_wire PACKET_AUTH_REQUEST (challenge_mem c) SIZEOF_AUTH_CHALLENGE v @
         body_wire PACKET_AUTH_SUCCESS (success_mem e a) SIZEOF_AUTH_SUCCESS v @ rest"
      "sent_on ?fd w2 = sent_on ?fd w1"
    using recv_hello [OF serviceable_step [OF f1 ok]] pen send_msg_frame(2) [OF sd(1)] by metis
  let ?w = "log_msg SUCCESS_MSG CLIENT_RT ''Handshake completed'' [] w2"
  have f2: "hs_step s w 0 s ?w"
    using f1 recv_msg_frame(1) [OF h(1)] by (auto simp: hs_step_def intro: socket_frame_trans)
  have ok2: "serviceable s ?w" by (rule serviceable_step [OF f2 ok])
  have len: "length (challenge_mem c) = SIZEOF_AUTH_CHALLENGE" using challenge.enc_length [OF wfc] .
  obtain m w3 where m: "recv_msg ?fd ?w = (Some m, w3)" "payload_bytes m = challenge_mem c"
      "ptype (header m) = type_code PACKET_AUTH_REQUEST" "payload_length (header m) = of_nat SIZEOF_AUTH_CHALLENGE"
      "pending ?fd w3 = body_wire PACKET_AUTH_SUCCESS (success_mem e a) SIZEOF_AUTH_SUCCESS v @ rest"
      "sent_on ?fd w3 = sent_on ?fd w2"
    using recv_body [OF ok2 len, of PACKET_AUTH_REQUEST v] h(4) by (auto simp: SIZEOF_AUTH_CHALLENGE_def)
  have c: "challenge_of_mem (challenge_mem c) = c" using challenge.dec_enc [OF wfc] .
  obtain s4 w4 where tr: "client_trust (ch_public_key c) s w3 = (s4, w4)" by force
  note t = client_trust_0 [OF tr]
  have s4: "sess_socket s4 = ?fd" "protocol_version s4 = protocol_version s" "crypto s4 = crypto s"
    using t(4) by auto
  have lf4: "local_frame w3 w4"
    using tr client_pin_step(1) [of "ch_public_key c" s w3 s4 w4] by (auto simp: client_trust_def split: if_splits)
  have sf: "socket_frame ?fd w w4"
    using f2 recv_msg_frame(1) [OF m(1)] lf4
    by (auto simp: hs_step_def intro: socket_frame_trans local_socket_frame)
  note env = socket_frame_env [OF sf]
  define s5 where s5: "s5 = s4\<lparr>crypto := (crypto s4)\<lparr>peer_public_key := ch_public_key c\<rparr>\<rparr>"
  have ok5: "serviceable s5 w4" and fd5: "sess_socket s5 = ?fd" and id5: "identity_ok S (crypto s5)"
    using ok id env s4 by (simp_all add: serviceable_def identity_ok_def s5)
  have d: "drew 0 w w4"
    using drew_trans [OF drew_trans [OF drew_trans [OF drew_io [OF send_msg_frame(3) [OF sd(1)]]
        drew_io [OF recv_msg_frame(3) [OF h(1)]]] drew_io [OF recv_msg_frame(3) [OF m(1)], simplified drew_def log_msg_frame, folded drew_def]] t(1)]
    by simp
  note dr = draw_drew [OF d, unfolded add_0]
  have resp: "client_response S c s5 w4 = client_response S c s w"
    by (simp add: client_response_def dr s5 s4)
  let ?b = "success_of_mem (host w) (success_mem e a)"
  obtain w5 where re: "client_respond S c s5 w4 =
      (0, s5\<lparr>crypto := (crypto s5)\<lparr>eph_public_key := pk, eph_private_key := sk, rx_key := rx, tx_key := tx\<rparr>,
            session_id := su_session_id ?b, session_nonce := su_session_nonce ?b,
            sess_state := SESSION_ESTABLISHED\<rparr>, w5)"
      "pending ?fd w5 = rest" "wf_response (client_response S c s w)"
      "sent_on ?fd w5 = sent_on ?fd w4 @
        body_wire PACKET_AUTH_RESPONSE (response_mem (client_response S c s w)) SIZEOF_AUTH_RESPONSE w"
    using client_respond_runs [OF ok5 id5 kxc wfa, of e v rest pk sk c rx tx] m(5) t(2) key kx
      body_wire_cong [OF env(3)]
    by (auto simp: fd5 resp dr env(2))
  have cond: "\<not> (has_trusted_peer_key s \<and> ch_public_key c \<noteq> trusted_peer_key s)" using trust by auto
  have au: "session_authenticate_client S s ?w = client_respond S c s5 w4"
    unfolding session_authenticate_client_msg
    using cond sig by (auto simp: m(1-4) c Let_def tr s5)
  have run: "session_client_connect S s w = client_respond S c s5 w4"
    unfolding session_client_connect_msg using au by (simp add: sd(1) h(1-3))
  have out: "sent_on ?fd w5 = sent_on ?fd w @ client_stream S c s w"
    using re(4) m(6) h(5) sd(2) local_frame_streams(2) [OF lf4] by (simp add: client_stream_def)
  show ?thesis
    unfolding run re(1) using out re(2,3) by (auto simp: s5)
qed

subsection \<open>Agreement\<close>

text \<open>
  \<open>agree s s'\<close>: both ends of a session hold the same session nonce, know each other's key,
  and each sends under the key the other receives with.
\<close>

definition agree :: "session \<Rightarrow> session \<Rightarrow> bool" where
  "agree s s' \<longleftrightarrow>
     sess_state s = SESSION_ESTABLISHED \<and> sess_state s' = SESSION_ESTABLISHED \<and>
     session_nonce s = session_nonce s' \<and>
     tx_key (crypto s) = rx_key (crypto s') \<and> rx_key (crypto s) = tx_key (crypto s') \<and>
     peer_public_key (crypto s) = public_key (crypto s') \<and>
     peer_public_key (crypto s') = public_key (crypto s)"

lemma handshake_completes:
  assumes okc: "serviceable sc wc" and oks: "serviceable ss ws"
    and idc: "identity_ok S (crypto sc)" and ids: "identity_ok S (crypto ss)" and kxc: "kx_correct S"
    and trust: "has_trusted_peer_key sc \<longrightarrow> trusted_peer_key sc = public_key (crypto ss)"
    and penc: "pending (sess_socket sc) wc = server_stream S ss ws @ restc"
    and pens: "pending (sess_socket ss) ws = client_stream S (server_challenge S ss ws) sc wc @ rests"
  shows "\<exists>sc' wc' ss' ws'. session_client_connect S sc wc = (0, sc', wc') \<and>
    session_server_connect S ss ws = (0, ss', ws') \<and>
    sent_on (sess_socket sc) wc' = sent_on (sess_socket sc) wc @ client_stream S (server_challenge S ss ws) sc wc \<and>
    sent_on (sess_socket ss) ws' = sent_on (sess_socket ss) ws @ server_stream S ss ws \<and>
    pending (sess_socket sc) wc' = restc \<and> pending (sess_socket ss) ws' = rests \<and>
    agree sc' ss' \<and> trusted_peer_key sc' = public_key (crypto ss') \<and>
    (host wc = host ws \<longrightarrow> session_id sc' = session_id ss') \<and>
    (host wc \<noteq> host ws \<longrightarrow> session_id sc' = bswap 8 (session_id ss'))"
proof -
  have lens: "length (draw KX_SEEDBYTES 0 wc) = KX_SEEDBYTES" "length (draw KX_SEEDBYTES AUTH_NONCE_SIZE ws) = KX_SEEDBYTES"
    by simp_all
  obtain cpk csk spk ssk where ck: "kx_keypair S (draw KX_SEEDBYTES 0 wc) = Some (cpk, csk)"
      and sk: "kx_keypair S (draw KX_SEEDBYTES AUTH_NONCE_SIZE ws) = Some (spk, ssk)"
    using kxc lens unfolding kx_correct_def by meson
  obtain k1 k2 where kc: "kx_client_session_keys S cpk csk spk = Some (k1, k2)"
      and ks: "kx_server_session_keys S spk ssk cpk = Some (k2, k1)"
    using kxc ck sk unfolding kx_correct_def by meson
  define c where c: "c = server_challenge S ss ws"
  define a where a: "a = server_success ss ws"
  define r where r: "r = client_response S c sc wc"
  have ch: "ch_eph_public_key c = spk" "ch_public_key c = public_key (crypto ss)"
      "ch_nonce c = draw AUTH_NONCE_SIZE 0 ws"
    using sk by (simp_all add: c server_challenge_def Let_def)
  have wfc: "wf_challenge c"
    using server_authenticate_runs [OF oks ids kxc sk] by (auto simp: c)
  have sigc: "sign_verify S (ch_signature c) (ch_nonce c @ ch_eph_public_key c) (ch_public_key c)"
    using ids sk unfolding identity_ok_def c server_challenge_def Let_def by (metis auth_challenge.select_convs fst_conv option.sel)
  have wfa: "wf_success a" by (simp add: a server_success_def wf_success_def)
  obtain sc' wc' where cl: "session_client_connect S sc wc = (0, sc', wc')"
      "sent_on (sess_socket sc) wc' = sent_on (sess_socket sc) wc @ client_stream S c sc wc"
      "pending (sess_socket sc) wc' = restc" "wf_response r"
      "peer_public_key (crypto sc') = ch_public_key c" "rx_key (crypto sc') = k1" "tx_key (crypto sc') = k2"
      "session_id sc' = su_session_id (success_of_mem (host wc) (success_mem (host ws) a))"
      "session_nonce sc' = su_session_nonce (success_of_mem (host wc) (success_mem (host ws) a))"
    using client_connect_runs [OF okc idc kxc wfc wfa, of ws "host ws" restc cpk csk k1 k2]
      penc sigc trust ck kc ch by (auto simp: server_stream_def c a r)
  have rr: "rs_eph_public_key r = cpk" "rs_public_key r = public_key (crypto sc)"
    using ck by (simp_all add: r client_response_def Let_def)
  have sigr: "sign_verify S (rs_signature r) (draw AUTH_NONCE_SIZE 0 ws @ rs_eph_public_key r) (rs_public_key r)"
    using idc ck ch(3) unfolding identity_ok_def r client_response_def Let_def
    by (metis auth_response.select_convs fst_conv option.sel)
  obtain ss' ws' where sv: "session_server_connect S ss ws = (0, ss', ws')"
      "sent_on (sess_socket ss) ws' = sent_on (sess_socket ss) ws @ server_stream S ss ws"
      "pending (sess_socket ss) ws' = rests" "peer_public_key (crypto ss') = rs_public_key r"
      "rx_key (crypto ss') = k2" "tx_key (crypto ss') = k1"
    using server_connect_runs [OF oks ids kxc cl(4), of wc rests spk ssk k2 k1] pens sigr sk ks rr
    by (auto simp: client_stream_def c r)
  note s0 = session_server_connect_0 [OF sv(1)]
  have keys: "public_key (crypto ss') = public_key (crypto ss)" "public_key (crypto sc') = public_key (crypto sc)"
    using session_server_connect_step [OF sv(1)] session_client_connect_step [OF cl(1)] by (simp_all add: hs_step_def)
  have est: "sess_state sc' = SESSION_ESTABLISHED" "trusted_peer_key sc' = peer_public_key (crypto sc')"
    using session_client_connect_0 [OF cl(1)] unfolding Let_def by auto
  have nonce: "session_nonce sc' = session_nonce ss'"
    using cl(9) s0(4) wfa by (simp add: success_of_mem_def success_mem_def wf_success_def)
      (simp add: a server_success_def)
  have "agree sc' ss'"
    using s0(1) est(1) nonce cl(5-7) sv(4-6) keys ch(2) rr(2) by (simp add: agree_def)
  moreover have "host wc = host ws \<longrightarrow> session_id sc' = session_id ss'"
    using cl(8) success.dec_enc [OF wfa] s0(5) by (simp add: a server_success_def)
  moreover have "host wc \<noteq> host ws \<longrightarrow> session_id sc' = bswap 8 (session_id ss')"
    using cl(8) success_cross_endian [OF wfa] s0(5) by (cases "host wc"; cases "host ws") (simp_all add: a server_success_def)
  moreover have "trusted_peer_key sc' = public_key (crypto ss')" using est(2) cl(5) ch(2) keys by simp
  ultimately show ?thesis using cl(1-3) sv(1-3) c by blast
qed

end
