(* ===== verification/SlotTable.thy ===== *)
theory SlotTable
  imports Prelude
begin

text \<open>
  A table of a fixed number of slots, each empty or holding an entry with a key: the search
  for the first slot that satisfies a condition, and the contract of insertion, removal and
  lookup as an interface. The session manager implements it.
\<close>

text \<open>The loops over the slots stop at the first one that satisfies the condition.\<close>

fun first_slot :: "('a \<Rightarrow> bool) \<Rightarrow> nat \<Rightarrow> 'a list \<Rightarrow> nat option" where
  "first_slot P i [] = None"
| "first_slot P i (x # xs) = (if P x then Some i else first_slot P (Suc i) xs)"

section \<open>Searching the slots\<close>

lemma first_slot_Some:
  "first_slot P k xs = Some i \<longleftrightarrow>
     (\<exists>j. i = k + j \<and> j < length xs \<and> P (xs ! j) \<and> (\<forall>l<j. \<not> P (xs ! l)))"
proof (induction xs arbitrary: k)
  case (Cons x xs)
  show ?case
  proof (cases "P x")
    case True
    then show ?thesis by (auto simp: nth_Cons')
  next
    case False
    have "(\<exists>j. i = k + j \<and> j < length (x # xs) \<and> P ((x # xs) ! j) \<and> (\<forall>l<j. \<not> P ((x # xs) ! l))) \<longleftrightarrow>
      (\<exists>j. i = Suc k + j \<and> j < length xs \<and> P (xs ! j) \<and> (\<forall>l<j. \<not> P (xs ! l)))" (is "?l \<longleftrightarrow> ?r")
    proof
      assume ?l
      then obtain j where j: "i = k + j" "j < length (x # xs)" "P ((x # xs) ! j)" "\<forall>l<j. \<not> P ((x # xs) ! l)" by blast
      with False obtain j' where "j = Suc j'" by (cases j) auto
      with j show ?r by fastforce
    next
      assume ?r
      then obtain j where j: "i = Suc k + j" "j < length xs" "P (xs ! j)" "\<forall>l<j. \<not> P (xs ! l)" by blast
      with False have "\<forall>l<Suc j. \<not> P ((x # xs) ! l)" by (auto simp: nth_Cons' less_Suc_eq_0_disj)
      with j show ?l by (intro exI [of _ "Suc j"]) simp
    qed
    with Cons False show ?thesis by simp
  qed
qed simp

lemma first_slot_None: "first_slot P k xs = None \<longleftrightarrow> (\<forall>x\<in>set xs. \<not> P x)"
  by (induction xs arbitrary: k) auto

lemma first_slot_0:
  "first_slot P 0 xs = Some i \<longleftrightarrow> i < length xs \<and> P (xs ! i) \<and> (\<forall>j<i. \<not> P (xs ! j))"
  by (auto simp: first_slot_Some)

definition occupied :: "'a option list \<Rightarrow> nat" where
  "occupied xs = length (filter (\<lambda>x. x \<noteq> None) xs)"

lemma occupied_simps [simp]:
  "occupied [] = 0" "occupied (x # xs) = (if x = None then 0 else 1) + occupied xs"
  "occupied (replicate n None) = 0"
  by (induction n) (simp_all add: occupied_def)

lemma occupied_le: "occupied xs \<le> length xs"
  by (simp add: occupied_def)

lemma occupied_fill: "i < length xs \<Longrightarrow> xs ! i = None \<Longrightarrow> occupied (xs[i := Some x]) = Suc (occupied xs)"
  by (induction xs arbitrary: i) (auto split: nat.split)

lemma occupied_clear: "i < length xs \<Longrightarrow> xs ! i \<noteq> None \<Longrightarrow> Suc (occupied (xs[i := None])) = occupied xs"
  by (induction xs arbitrary: i) (auto simp: nth_Cons split: nat.splits)

lemma occupied_replace:
  "i < length xs \<Longrightarrow> xs ! i \<noteq> None \<Longrightarrow> occupied (xs[i := Some x]) = occupied xs"
  by (induction xs arbitrary: i) (auto simp: nth_Cons split: nat.splits)

lemma occupied_full: "occupied xs = length xs \<longleftrightarrow> None \<notin> set xs"
proof (induction xs)
  case (Cons x xs)
  then show ?case using occupied_le [of xs] by auto
qed simp

section \<open>The contract\<close>

text \<open>
  \<open>slots t\<close> is what a client may know of a table: a partial map from slot numbers to entries.
  An entry is stored with a field that depends on its slot (\<open>place\<close>).
\<close>

locale slot_table =
  fixes inv :: "'t \<Rightarrow> bool"
    and cap :: nat
    and slots :: "'t \<Rightarrow> nat \<Rightarrow> 's option"
    and key :: "'s \<Rightarrow> 'k"
    and place :: "nat \<Rightarrow> 's \<Rightarrow> 's"
    and add :: "'s \<Rightarrow> 't \<Rightarrow> 't option"
    and del :: "'k \<Rightarrow> 't \<Rightarrow> 't option"
    and find :: "'k \<Rightarrow> 't \<Rightarrow> nat option"
  assumes slots_cap: "inv t \<Longrightarrow> slots t i = Some s \<Longrightarrow> i < cap"
    and key_place: "key (place i s) = key s"
    and add_first: "inv t \<Longrightarrow> i < cap \<Longrightarrow> slots t i = None \<Longrightarrow> (\<And>j. j < i \<Longrightarrow> slots t j \<noteq> None) \<Longrightarrow>
      \<exists>t'. add s t = Some t' \<and> inv t' \<and> slots t' = (slots t)(i \<mapsto> place i s)"
    and add_full: "inv t \<Longrightarrow> (\<And>i. i < cap \<Longrightarrow> slots t i \<noteq> None) \<Longrightarrow> add s t = None"
    and find_first: "inv t \<Longrightarrow> find k t = Some i \<longleftrightarrow>
      (\<exists>s. slots t i = Some s \<and> key s = k) \<and> (\<forall>j<i. \<forall>s. slots t j = Some s \<longrightarrow> key s \<noteq> k)"
    and del_found: "inv t \<Longrightarrow> find k t = Some i \<Longrightarrow>
      \<exists>t'. del k t = Some t' \<and> inv t' \<and> slots t' = (slots t)(i := None)"
    and del_absent: "inv t \<Longrightarrow> find k t = None \<Longrightarrow> del k t = None"
begin

lemma slots_dom: "inv t \<Longrightarrow> dom (slots t) \<subseteq> {..<cap}"
  using slots_cap by (auto simp: dom_def)

lemma finite_slots: "inv t \<Longrightarrow> finite (dom (slots t))"
  using slots_dom finite_subset by blast

text \<open>Insertion succeeds exactly while a slot is free, and takes the first.\<close>

lemma add_cases:
  assumes "inv t"
  obtains (stored) i t' where "i < cap" "slots t i = None" "\<And>j. j < i \<Longrightarrow> slots t j \<noteq> None"
      "add s t = Some t'" "inv t'" "slots t' = (slots t)(i \<mapsto> place i s)"
    | (full) "\<And>i. i < cap \<Longrightarrow> slots t i \<noteq> None" "add s t = None"
proof (cases "\<exists>i<cap. slots t i = None")
  case True
  define i where "i = (LEAST i. i < cap \<and> slots t i = None)"
  have i: "i < cap" "slots t i = None" using LeastI_ex [of "\<lambda>i. i < cap \<and> slots t i = None"] True
    by (auto simp: i_def)
  moreover have first: "slots t j \<noteq> None" if "j < i" for j
    using not_less_Least [of j "\<lambda>i. i < cap \<and> slots t i = None"] that i(1) by (auto simp: i_def)
  ultimately show ?thesis using add_first [OF assms i first] stored by blast
next
  case False
  have occ: "slots t i \<noteq> None" if "i < cap" for i using False that by simp
  show ?thesis by (rule full [OF occ add_full [OF assms occ]])
qed

lemma add_inv: "inv t \<Longrightarrow> add s t = Some t' \<Longrightarrow> inv t'"
  by (erule add_cases [of t s]) simp_all

lemma add_keeps: "inv t \<Longrightarrow> add s t = Some t' \<Longrightarrow> slots t i = Some s' \<Longrightarrow> slots t' i = Some s'"
  by (erule add_cases [of t s]) (auto split: if_splits)

lemma add_succeeds_iff: "inv t \<Longrightarrow> add s t \<noteq> None \<longleftrightarrow> (\<exists>i<cap. slots t i = None)"
  by (erule add_cases [of t s]) auto

lemma add_card: "inv t \<Longrightarrow> add s t = Some t' \<Longrightarrow> card (dom (slots t')) = Suc (card (dom (slots t)))"
  by (rule add_cases [of t s]) (simp_all add: finite_slots domIff)

lemma full_card: "inv t \<Longrightarrow> add s t = None \<longleftrightarrow> card (dom (slots t)) = cap"
proof -
  assume t: "inv t"
  have "card (dom (slots t)) = cap \<longleftrightarrow> dom (slots t) = {..<cap}"
    using card_subset_eq [OF _ slots_dom [OF t]] by auto
  also have "\<dots> \<longleftrightarrow> (\<forall>i<cap. slots t i \<noteq> None)" using slots_dom [OF t] by auto
  also have "\<dots> \<longleftrightarrow> add s t = None" using add_succeeds_iff [OF t, of s] by auto
  finally show ?thesis by simp
qed

text \<open>An entry whose key is new is found in its slot, and removing it undoes the insertion.\<close>

lemma find_Some_slot: "inv t \<Longrightarrow> find k t = Some i \<Longrightarrow> \<exists>s. slots t i = Some s \<and> key s = k"
  using find_first by blast

lemma find_least:
  assumes t: "inv t" and ex: "slots t i = Some s" "key s = k"
  shows "find k t \<noteq> None"
proof -
  define n where "n = (LEAST i. \<exists>s. slots t i = Some s \<and> key s = k)"
  have "\<exists>s. slots t n = Some s \<and> key s = k"
    unfolding n_def by (rule LeastI_ex) (use ex in blast)
  moreover have "\<not> (\<exists>s. slots t j = Some s \<and> key s = k)" if "j < n" for j
    using that unfolding n_def by (rule not_less_Least)
  ultimately have "find k t = Some n" unfolding find_first [OF t] by blast
  then show ?thesis by simp
qed

lemma find_None: "inv t \<Longrightarrow> find k t = None \<longleftrightarrow> (\<forall>i s. slots t i = Some s \<longrightarrow> key s \<noteq> k)"
  using find_least find_Some_slot by (cases "find k t") blast+

lemma add_find:
  assumes t: "inv t" and a: "add s t = Some t'" and new: "find (key s) t = None"
  shows "\<exists>i. find (key s) t' = Some i \<and> slots t' i = Some (place i s)"
  using t
proof (cases rule: add_cases [of t s])
  case (stored i u)
  with a have u: "inv t'" "slots t' = (slots t)(i \<mapsto> place i s)" by simp_all
  have "find (key s) t' = Some i"
    using u new find_None [OF t] by (auto simp: find_first key_place split: if_splits)
  with u show ?thesis by auto
qed (use a in simp)

lemma add_find_other:
  assumes t: "inv t" and a: "add s t = Some t'" and other: "key s \<noteq> k"
  shows "find k t' = find k t"
  using t
proof (cases rule: add_cases [of t s])
  case (stored i u)
  with a have u: "inv t'" "slots t' = (slots t)(i \<mapsto> place i s)" by simp_all
  have hit: "(\<exists>s'. slots t' l = Some s' \<and> key s' = k) \<longleftrightarrow> (\<exists>s'. slots t l = Some s' \<and> key s' = k)" for l
    using stored(2) other by (auto simp: u(2) key_place)
  have "(\<forall>s'. slots t' l = Some s' \<longrightarrow> key s' \<noteq> k) \<longleftrightarrow> (\<forall>s'. slots t l = Some s' \<longrightarrow> key s' \<noteq> k)" for l
    using hit [of l] by blast
  then have "find k t' = Some j \<longleftrightarrow> find k t = Some j" for j
    unfolding find_first [OF u(1)] find_first [OF t] by (simp add: hit)
  then show ?thesis by (cases "find k t"; cases "find k t'") auto
qed (use a in simp)

lemma del_add:
  assumes t: "inv t" and a: "add s t = Some t'" and new: "find (key s) t = None"
  shows "\<exists>t''. del (key s) t' = Some t'' \<and> inv t'' \<and> slots t'' = slots t"
  using t
proof (cases rule: add_cases [of t s])
  case (stored i u)
  with a have u: "inv t'" "slots t' = (slots t)(i \<mapsto> place i s)" by simp_all
  obtain j where j: "find (key s) t' = Some j" "slots t' j = Some (place j s)" using add_find [OF assms] by blast
  have "j = i"
  proof (rule ccontr)
    assume "j \<noteq> i"
    with j(2) u(2) have "slots t j = Some (place j s)" by simp
    with new find_None [OF t] key_place show False by blast
  qed
  with del_found [OF u(1) j(1)] u(2) stored(2) show ?thesis by (auto simp: fun_upd_idem)
qed (use a in simp)

lemma del_frees:
  assumes t: "inv t" and d: "del k t = Some t'"
  shows "\<exists>i s. slots t i = Some s \<and> key s = k \<and> slots t' = (slots t)(i := None) \<and> inv t'"
proof -
  obtain i where i: "find k t = Some i" using del_absent [OF t, of k] d by fastforce
  then show ?thesis using del_found [OF t i] find_Some_slot [OF t i] d by auto
qed

lemma del_card: "inv t \<Longrightarrow> del k t = Some t' \<Longrightarrow> Suc (card (dom (slots t'))) = card (dom (slots t))"
proof -
  assume t: "inv t" and d: "del k t = Some t'"
  obtain i s where i: "slots t i = Some s" "slots t' = (slots t)(i := None)" using del_frees [OF t d] by blast
  have "dom (slots t') = dom (slots t) - {i}" using i(2) by simp
  moreover have "i \<in> dom (slots t)" using i(1) by blast
  ultimately show ?thesis using finite_slots [OF t] by (simp only: card_Suc_Diff1)
qed

end

end
