(* ===== verification/Tun.thy ===== *)
theory Tun
  imports Logs
begin

text \<open>
  The TUN device, \<^verbatim>\<open>src/tunnel/tun.h\<close> and its Linux implementation
  \<^verbatim>\<open>src/platform/linux/tun.c\<close>. Opening \<^verbatim>\<open>/dev/net/tun\<close> yields the next descriptor
  of the world; each \<^verbatim>\<open>ioctl\<close> succeeds or fails as the world says, and what a successful
  one does to the interface is a change of \<open>ifaces\<close>.
\<close>

definition SERVER_TUN_INTERFACE_NAME :: string where "SERVER_TUN_INTERFACE_NAME = ''sencd0''"
definition CLIENT_TUN_INTERFACE_NAME :: string where "CLIENT_TUN_INTERFACE_NAME = ''sencd1''"

definition IFNAMSIZ :: nat where "IFNAMSIZ = 16"

record tun_config =
  cfg_address :: string
  cfg_netmask :: string
  cfg_ifname :: string

record tun_device =
  dev_name :: string
  dev_fd :: int

section \<open>Configuring the interface\<close>

definition configure :: "string \<Rightarrow> (iface \<Rightarrow> iface) \<Rightarrow> world \<Rightarrow> world" where
  "configure name f w = w\<lparr>ifaces := (ifaces w)(name := map_option f (ifaces w name))\<rparr>"

text \<open>The error exits of \<^verbatim>\<open>tun_assign_address\<close>: log, close the control socket, return 1.\<close>

definition tun_assign_fail :: "int \<Rightarrow> string \<Rightarrow> world \<Rightarrow> rc \<times> world" where
  "tun_assign_fail sock message w = (1, sys_close sock (log_msg ERROR_MSG OTHER_RT message [] w))"

definition tun_assign_address :: "string \<Rightarrow> tun_config \<Rightarrow> world \<Rightarrow> rc \<times> world" where
  "tun_assign_address ifname config w =
     (case sys_socket w of (sock, w) \<Rightarrow>
        if sock < 0 then
          (1, log_msg ERROR_MSG OTHER_RT ''Failed to create control socket for TUN config'' [] w)
        else
          (let name = take (IFNAMSIZ - 1) ifname
           in case inet_pton (cfg_address config) of
             None \<Rightarrow> tun_assign_fail sock ''Invalid TUN address'' w
           | Some addr \<Rightarrow>
               (case sys_net w of (ok, w) \<Rightarrow>
                  if \<not> ok then tun_assign_fail sock ''Failed to assign TUN address'' w
                  else
                    (let w = configure name (\<lambda>i. i\<lparr>if_addr := addr\<rparr>) w
                     in case inet_pton (cfg_netmask config) of
                       None \<Rightarrow> tun_assign_fail sock ''Invalid TUN netmask'' w
                     | Some nmask \<Rightarrow>
                         (case sys_net w of (ok, w) \<Rightarrow>
                            if \<not> ok then tun_assign_fail sock ''Failed to assign TUN netmask'' w
                            else
                              (let w = configure name (\<lambda>i. i\<lparr>if_netmask := nmask\<rparr>) w
                               in case sys_net w of (ok, w) \<Rightarrow>
                                 if \<not> ok then tun_assign_fail sock ''Failed to read TUN interface flags'' w
                                 else
                                   (case sys_net w of (ok, w) \<Rightarrow>
                                      if \<not> ok then
                                        tun_assign_fail sock ''Failed to bring TUN interface up'' w
                                      else
                                        (0, sys_close sock (configure name (\<lambda>i. i\<lparr>if_up := True\<rparr>) w)))))))))"

section \<open>The operations of tun.h\<close>

text \<open>The interface goes when the descriptor that has made it is closed.\<close>

definition tun_release :: "int \<Rightarrow> string \<Rightarrow> world \<Rightarrow> world" where
  "tun_release fd name w = (let w = sys_close fd w in w\<lparr>ifaces := (ifaces w)(name := None)\<rparr>)"

definition tun_open :: "tun_config \<Rightarrow> world \<Rightarrow> tun_device option \<times> world" where
  "tun_open config w =
     (case sys_socket w of (fd, w) \<Rightarrow>
        if fd < 0 then
          (None, log_msg ERROR_MSG OTHER_RT
             ''Failed to open /dev/net/tun (are you root / do you have CAP_NET_ADMIN?)'' [] w)
        else
          (let name = take (IFNAMSIZ - 1) (cfg_ifname config)
           in case sys_net w of (ok, w) \<Rightarrow>
             if \<not> ok then
               (None, sys_close fd (log_msg ERROR_MSG OTHER_RT ''Failed to create TUN interface'' [] w))
             else
               (let w = w\<lparr>ifaces := (ifaces w)(name \<mapsto> \<lparr>if_addr = 0, if_netmask = 0, if_up = False\<rparr>)\<rparr>
                in case tun_assign_address name config w of (r, w) \<Rightarrow>
                  if r \<noteq> 0 then (None, tun_release fd name w)
                  else
                    (case sys_malloc w of (got, w) \<Rightarrow>
                       if \<not> got then
                         (None, tun_release fd name
                            (log_msg ERROR_MSG OTHER_RT ''Failed to allocate TUN device struct'' [] w))
                       else
                         (let dev = \<lparr>dev_name = take (IFNAMSIZ - 1) name, dev_fd = fd\<rparr>
                          in (Some dev,
                              log_msg INFO_MSG OTHER_RT ''TUN interface %s up (%s)''
                                [FmtString (dev_name dev), FmtString (cfg_address config)] w))))))"

text \<open>The packet read; none stands for a result that is not positive.\<close>

definition tun_read :: "tun_device \<Rightarrow> nat \<Rightarrow> world \<Rightarrow> bytes \<times> world" where
  "tun_read dev buffer_size w =
     sys_read_packet (dev_fd dev) buffer_size
       (log_msg INFO_MSG OTHER_RT ''Read packet from tunnel %s'' [FmtString (dev_name dev)] w)"

text \<open>\<^verbatim>\<open>write\<close> takes the packet whole or fails; both callers ignore the result.\<close>

definition tun_write :: "tun_device \<Rightarrow> bytes \<Rightarrow> world \<Rightarrow> int \<times> world" where
  "tun_write dev buffer w =
     (let w = log_msg INFO_MSG OTHER_RT ''Wrote packet to tunnel %s'' [FmtString (dev_name dev)] w
      in (case sys_net w of (ok, w) \<Rightarrow>
            if \<not> ok then (-1, w) else (int (length buffer), w\<lparr>tun_out := tun_out w @ [buffer]\<rparr>)))"

definition tun_get_fd :: "tun_device \<Rightarrow> int" where
  "tun_get_fd dev = dev_fd dev"

definition tun_close :: "tun_device option \<Rightarrow> world \<Rightarrow> world" where
  "tun_close dev w =
     (case dev of
        None \<Rightarrow> w
      | Some d \<Rightarrow> sys_free True (if dev_fd d \<ge> 0 then tun_release (dev_fd d) (dev_name d) w else w))"

section \<open>Facts\<close>

text \<open>
  \<open>unused n w\<close>: the next \<open>n\<close> descriptors the kernel hands out are pairwise different and not
  in use.
\<close>

definition unused :: "nat \<Rightarrow> world \<Rightarrow> bool" where
  "unused n w \<longleftrightarrow>
     (\<forall>i<n. socks w (fd_script w (fd_calls w + i)) = None) \<and>
     (\<forall>i<n. \<forall>j<n. i \<noteq> j \<longrightarrow> fd_script w (fd_calls w + i) \<noteq> fd_script w (fd_calls w + j) \<or>
        fd_script w (fd_calls w + i) < 0)"

lemma sys_close_other [simp]:
  "ifaces (sys_close fd w) = ifaces w" "malloc_ok (sys_close fd w) = malloc_ok w"
  "leaked (sys_close fd w) = leaked w" "fd_calls (sys_close fd w) = fd_calls w"
  "fd_script (sys_close fd w) = fd_script w" "tun_out (sys_close fd w) = tun_out w"
  "udp_out (sys_close fd w) = udp_out w" "udp_in (sys_close fd w) = udp_in w" "rng (sys_close fd w) = rng w"
  "rng_pos (sys_close fd w) = rng_pos w" "host (sys_close fd w) = host w"
  by (auto simp: sys_close_def leaked_def log_lines_def split: option.splits)

lemma leaked_update [simp]:
  "leaked (w\<lparr>net_calls := n\<rparr>) = leaked w" "leaked (w\<lparr>ifaces := i\<rparr>) = leaked w"
  "leaked (w\<lparr>tun_out := t\<rparr>) = leaked w" "leaked (w\<lparr>udp_out := u\<rparr>) = leaked w"
  "leaked (w\<lparr>udp_in := d\<rparr>) = leaked w" "leaked (w\<lparr>socks := s\<rparr>) = leaked w"
  by (simp_all add: leaked_def log_lines_def)

lemma tun_release_other [simp]:
  "ifaces (tun_release fd n w) = (ifaces w)(n := None)" "malloc_ok (tun_release fd n w) = malloc_ok w"
  "leaked (tun_release fd n w) = leaked w" "fd_calls (tun_release fd n w) = fd_calls w"
  "fd_script (tun_release fd n w) = fd_script w" "tun_out (tun_release fd n w) = tun_out w"
  "udp_out (tun_release fd n w) = udp_out w" "udp_in (tun_release fd n w) = udp_in w"
  "rng (tun_release fd n w) = rng w" "rng_pos (tun_release fd n w) = rng_pos w" "host (tun_release fd n w) = host w"
  "bad_closes (tun_release fd n w) = bad_closes (sys_close fd w)" "closed (tun_release fd n w) = closed (sys_close fd w)"
  "heap (tun_release fd n w) = heap (sys_close fd w)" "console (tun_release fd n w) = console (sys_close fd w)"
  by (simp_all add: tun_release_def Let_def)

lemma socks_release: "socks (tun_release fd n w) = (socks w)(fd := None)"
  by (simp add: tun_release_def Let_def socks_close)

lemma configure_other [simp]:
  "socks (configure n f w) = socks w" "net_ok (configure n f w) = net_ok w" "net_calls (configure n f w) = net_calls w"
  "leaked (configure n f w) = leaked w" "malloc_ok (configure n f w) = malloc_ok w"
  "ifaces (configure n f w) = (ifaces w)(n := map_option f (ifaces w n))"
  by (simp_all add: configure_def leaked_def log_lines_def)

lemma sys_net_other:
  assumes "sys_net w = (ok, w')"
  shows "socks w' = socks w" "ifaces w' = ifaces w" "leaked w' = leaked w" "malloc_ok w' = malloc_ok w"
    "fd_script w' = fd_script w" "fd_calls w' = fd_calls w"
  using assms by (auto simp: sys_net_def leaked_def log_lines_def)

lemma sys_socket_other:
  assumes "sys_socket w = (fd, w')"
  shows "ifaces w' = ifaces w" "leaked w' = leaked w" "malloc_ok w' = malloc_ok w" "fd_script w' = fd_script w"
    "fd_calls w' = Suc (fd_calls w)" "fd < 0 \<Longrightarrow> socks w' = socks w"
    "0 \<le> fd \<Longrightarrow> fd = fd_script w (fd_calls w) \<and> socks w' = (socks w)(fd \<mapsto> sock_script w (fd_calls w))"
  using assms by (auto simp: sys_socket_def Let_def leaked_def log_lines_def split: if_splits)

text \<open>
  The control socket is always closed again; on success the interface has the configured
  address and netmask and is up.
\<close>

lemma tun_assign_address_result:
  assumes run: "tun_assign_address n config w = (r, w')" and free: "unused 1 w"
    and ex: "ifaces w (take (IFNAMSIZ - 1) n) = Some i"
  shows "socks w' = socks w" "leaked w' = leaked w" "r = 0 \<or> r = 1" "fd_calls w' = Suc (fd_calls w)"
    "r = 0 \<Longrightarrow> \<exists>addr nmask. inet_pton (cfg_address config) = Some addr \<and> inet_pton (cfg_netmask config) = Some nmask \<and>
       ifaces w' (take (IFNAMSIZ - 1) n) = Some \<lparr>if_addr = addr, if_netmask = nmask, if_up = True\<rparr>"
proof -
  obtain s w1 where sk: "sys_socket w = (s, w1)" by force
  note s = sys_socket_other [OF sk]
  have un: "0 \<le> s \<Longrightarrow> (socks w1)(s := None) = socks w"
    using s(7) free by (auto simp: unused_def)
  show "socks w' = socks w" "leaked w' = leaked w" "r = 0 \<or> r = 1" "fd_calls w' = Suc (fd_calls w)"
    using run sk s un
    by (auto simp: tun_assign_address_def tun_assign_fail_def sys_net_def Let_def socks_close configure_def
        split: if_splits option.splits)
  show "\<exists>addr nmask. inet_pton (cfg_address config) = Some addr \<and> inet_pton (cfg_netmask config) = Some nmask \<and>
       ifaces w' (take (IFNAMSIZ - 1) n) = Some \<lparr>if_addr = addr, if_netmask = nmask, if_up = True\<rparr>" if "r = 0"
    using run sk s that ex
    by (auto simp: tun_assign_address_def tun_assign_fail_def sys_net_def Let_def configure_def
        split: if_splits option.splits)
qed


text \<open>
  Opening the device fails without leaving a descriptor or a block behind; when it succeeds
  the interface of the given name is up with the configured address and netmask.
\<close>

lemma tun_assign_address_ifaces:
  assumes "tun_assign_address n config w = (r, w')" and "k \<noteq> take (IFNAMSIZ - 1) n"
  shows "ifaces w' k = ifaces w k"
  using assms
  by (auto simp: tun_assign_address_def tun_assign_fail_def sys_net_def sys_socket_def Let_def configure_def
      split: if_splits option.splits)

lemma tun_open_result:
  assumes run: "tun_open config w = (d, w')" and free: "unused 2 w"
  shows "d = None \<Longrightarrow> socks w' = socks w \<and> leaked w' = leaked w"
    "d = Some dev \<Longrightarrow> 0 \<le> dev_fd dev \<and> dev_fd dev = fd_script w (fd_calls w) \<and>
       socks w' = (socks w)(dev_fd dev \<mapsto> sock_script w (fd_calls w)) \<and>
       leaked w' = leaked w + 1 \<and>
       (\<exists>addr nmask. inet_pton (cfg_address config) = Some addr \<and> inet_pton (cfg_netmask config) = Some nmask \<and>
         ifaces w' (dev_name dev) = Some \<lparr>if_addr = addr, if_netmask = nmask, if_up = True\<rparr>)"
    "d = None \<Longrightarrow> ifaces w' n = (if n = take (IFNAMSIZ - 1) (cfg_ifname config) then None else ifaces w n) \<or> ifaces w' = ifaces w"
proof -
  obtain fd w1 where sk: "sys_socket w = (fd, w1)" by force
  note s = sys_socket_other [OF sk]
  let ?n = "take (IFNAMSIZ - 1) (cfg_ifname config)"
  obtain ok w2 where nt: "sys_net w1 = (ok, w2)" by force
  note n = sys_net_other [OF nt]
  let ?w = "w2\<lparr>ifaces := (ifaces w2)(?n \<mapsto> \<lparr>if_addr = 0, if_netmask = 0, if_up = False\<rparr>)\<rparr>"
  obtain r w3 where as: "tun_assign_address ?n config ?w = (r, w3)" by force
  have ex: "ifaces ?w (take (IFNAMSIZ - 1) ?n) = Some \<lparr>if_addr = 0, if_netmask = 0, if_up = False\<rparr>" by simp
  have c: "socks w3 = socks w2" "leaked w3 = leaked w2" "r = 0 \<Longrightarrow> \<exists>addr nmask.
      inet_pton (cfg_address config) = Some addr \<and> inet_pton (cfg_netmask config) = Some nmask \<and>
      ifaces w3 ?n = Some \<lparr>if_addr = addr, if_netmask = nmask, if_up = True\<rparr>" if "0 \<le> fd"
  proof -
    have "socks w (fd_script w (fd_calls w + 1)) = None"
      and "fd_script w (fd_calls w + 0) \<noteq> fd_script w (fd_calls w + 1) \<or> fd_script w (fd_calls w + 0) < 0"
      using free unfolding unused_def by (simp_all add: numeral_2_eq_2 All_less_Suc2 All_less_Suc)
    then have "unused 1 ?w"
      using s(4,5) s(7) [OF that] that n by (auto simp: unused_def)
    note a = tun_assign_address_result [OF as this ex]
    show "socks w3 = socks w2" "leaked w3 = leaked w2" using a(1,2) by simp_all
    show "\<exists>addr nmask. inet_pton (cfg_address config) = Some addr \<and> inet_pton (cfg_netmask config) = Some nmask \<and>
      ifaces w3 ?n = Some \<lparr>if_addr = addr, if_netmask = nmask, if_up = True\<rparr>" if "r = 0"
      using a(5) that by simp
  qed
  have un: "0 \<le> fd \<Longrightarrow> (socks w1)(fd := None) = socks w"
    using s(7) free by (auto simp: unused_def dest: spec [of _ 0] intro!: fun_upd_idem)
  obtain got w4 where ml: "sys_malloc w3 = (got, w4)" by force
  have m: "socks w4 = socks w3" "ifaces w4 = ifaces w3" "leaked w4 = leaked w3 + (if got then 1 else 0)"
    using ml leaked_malloc [OF ml] by (auto simp: sys_malloc_def Let_def)
  show "socks w' = socks w \<and> leaked w' = leaked w" if "d = None"
    using run that sk nt as ml s n c un m
    by (auto simp: tun_open_def Let_def socks_close socks_release split: if_splits)
  have other: "ifaces w3 k = ifaces w k" if "k \<noteq> ?n" for k
    using tun_assign_address_ifaces [OF as, of k] that s(1) n(2) by simp
  show "ifaces w' n = (if n = ?n then None else ifaces w n) \<or> ifaces w' = ifaces w" if "d = None"
    using run that sk nt as ml s n m other
    by (auto simp: tun_open_def Let_def split: if_splits)
  show "0 \<le> dev_fd dev \<and> dev_fd dev = fd_script w (fd_calls w) \<and>
       socks w' = (socks w)(dev_fd dev \<mapsto> sock_script w (fd_calls w)) \<and>
       leaked w' = leaked w + 1 \<and>
       (\<exists>addr nmask. inet_pton (cfg_address config) = Some addr \<and> inet_pton (cfg_netmask config) = Some nmask \<and>
         ifaces w' (dev_name dev) = Some \<lparr>if_addr = addr, if_netmask = nmask, if_up = True\<rparr>)" if "d = Some dev"
    using run that sk nt as ml s n c m
    by (auto simp: tun_open_def Let_def split: if_splits)
qed

end
