(* ===== verification/TunnelPacket.thy ===== *)
theory TunnelPacket
  imports Crypto
begin

text \<open>
  \<^verbatim>\<open>src/tunnel/tunnel_packet.c\<close>: a tunnel datagram is the session id and a counter, both
  in network order, followed by the ciphertext of the packet under a nonce made from the
  counter.
\<close>

definition TUNNEL_HEADER_SIZE :: nat where "TUNNEL_HEADER_SIZE = 16"
definition TUNNEL_PACKET_MAX_SIZE :: nat where "TUNNEL_PACKET_MAX_SIZE = 65536"

definition TUNNEL_PACKET_MAX_PLAINTEXT :: nat where
  "TUNNEL_PACKET_MAX_PLAINTEXT = TUNNEL_PACKET_MAX_SIZE - TUNNEL_HEADER_SIZE - TUNNEL_AEAD_TAG_SIZE"

lemmas tunnel_consts =
  TUNNEL_HEADER_SIZE_def TUNNEL_PACKET_MAX_SIZE_def TUNNEL_PACKET_MAX_PLAINTEXT_def TUNNEL_AEAD_TAG_SIZE_def

record tunnel_packet_encode_t =
  enc_session_id :: u64
  enc_counter :: u64
  enc_plaintext :: bytes

text \<open>The datagram is the result; \<open>None\<close> is the return value 1.\<close>

definition tunnel_packet_encode ::
    "sodium \<Rightarrow> tunnel_packet_encode_t \<Rightarrow> crypto_context \<Rightarrow> world \<Rightarrow> bytes option \<times> world" where
  "tunnel_packet_encode S inp ctx w =
     (if length (enc_plaintext inp) > TUNNEL_PACKET_MAX_PLAINTEXT then (None, w)
      else
        (let be_session_id = htobe64 (host w) (enc_session_id inp);
             be_counter = htobe64 (host w) (enc_counter inp);
             hdr = mem_bytes (host w) 8 be_session_id @ mem_bytes (host w) 8 be_counter
         in (case crypto_encrypt_packet S ctx (enc_counter inp) (enc_plaintext inp) w of
               (None, w) \<Rightarrow> (None, w)
             | (Some ciphertext, w) \<Rightarrow> (Some (hdr @ ciphertext), w))))"

definition tunnel_packet_peek_session_id :: "endian \<Rightarrow> bytes \<Rightarrow> u64 option" where
  "tunnel_packet_peek_session_id e buffer =
     (if length buffer < TUNNEL_HEADER_SIZE then None
      else Some (be64toh e (mem_word e (take 8 buffer))))"

definition tunnel_packet_decode :: "sodium \<Rightarrow> endian \<Rightarrow> bytes \<Rightarrow> crypto_context \<Rightarrow> bytes option" where
  "tunnel_packet_decode S e buffer ctx =
     (if length buffer < TUNNEL_HEADER_SIZE + TUNNEL_AEAD_TAG_SIZE \<or>
         length buffer > TUNNEL_PACKET_MAX_SIZE then None
      else
        (let counter = be64toh e (mem_word e (take 8 (drop 8 buffer)));
             ciphertext = drop TUNNEL_HEADER_SIZE buffer
         in crypto_decrypt_packet S e ctx counter ciphertext))"

section \<open>The header\<close>

definition tunnel_header :: "u64 \<times> u64 \<Rightarrow> bytes" where
  "tunnel_header h = bytes_be 8 (fst h) @ bytes_be 8 (snd h)"

definition parse_tunnel_header :: "bytes \<Rightarrow> u64 \<times> u64" where
  "parse_tunnel_header bs = (word_be (take 8 bs), word_be (take 8 (drop 8 bs)))"

lemma length_tunnel_header [simp]: "length (tunnel_header h) = TUNNEL_HEADER_SIZE"
  by (simp add: tunnel_header_def TUNNEL_HEADER_SIZE_def)

interpretation tunnel_hdr: fixed_codec tunnel_header parse_tunnel_header TUNNEL_HEADER_SIZE "\<lambda>_. True"
  by unfold_locales
    (simp_all add: tunnel_header_def parse_tunnel_header_def word_be_bytes_be TUNNEL_HEADER_SIZE_def)

lemma parse_tunnel_header_inverse:
  "TUNNEL_HEADER_SIZE \<le> length bs \<Longrightarrow> tunnel_header (parse_tunnel_header bs) = take TUNNEL_HEADER_SIZE bs"
  using take_add [of 8 8 bs]
  by (simp add: tunnel_header_def parse_tunnel_header_def TUNNEL_HEADER_SIZE_def bytes_be_word_be)

lemma peek_parse:
  "tunnel_packet_peek_session_id e buf =
     (if length buf < TUNNEL_HEADER_SIZE then None else Some (fst (parse_tunnel_header buf)))"
  by (simp add: tunnel_packet_peek_session_id_def parse_tunnel_header_def TUNNEL_HEADER_SIZE_def to_be_mem_word)

lemma decode_parse:
  "tunnel_packet_decode S e buf ctx =
     (if length buf < TUNNEL_HEADER_SIZE + TUNNEL_AEAD_TAG_SIZE \<or> length buf > TUNNEL_PACKET_MAX_SIZE
      then None
      else crypto_decrypt_packet S e ctx (snd (parse_tunnel_header buf)) (drop TUNNEL_HEADER_SIZE buf))"
proof (cases "length buf < TUNNEL_HEADER_SIZE + TUNNEL_AEAD_TAG_SIZE")
  case True
  then show ?thesis by (simp add: tunnel_packet_decode_def)
next
  case False
  then have "length (take 8 (drop 8 buf)) = 8" by (simp add: tunnel_consts)
  then show ?thesis
    by (simp add: tunnel_packet_decode_def parse_tunnel_header_def to_be_mem_word del: length_take)
qed

lemma encode_header:
  assumes "tunnel_packet_encode S inp ctx w = (r, w')"
  shows "log_frame w w'"
    "r = Some buf \<Longrightarrow> length (enc_plaintext inp) \<le> TUNNEL_PACKET_MAX_PLAINTEXT \<and> w' = w \<and>
      (\<exists>c. aead_encrypt S (enc_plaintext inp) (crypto_build_nonce (host w) (enc_counter inp)) (tx_key ctx) = Some c \<and>
           buf = tunnel_header (enc_session_id inp, enc_counter inp) @ c)"
  using assms
  by (auto simp: tunnel_packet_encode_def crypto_encrypt_packet_def tunnel_header_def mem_bytes_to_be Let_def
      split: if_splits option.splits)

section \<open>Round trip and authenticity\<close>

lemma encode_succeeds:
  assumes "aead_correct S" and "wf_crypto ctx" and "length (enc_plaintext inp) \<le> TUNNEL_PACKET_MAX_PLAINTEXT"
  shows "\<exists>buf. tunnel_packet_encode S inp ctx w = (Some buf, w) \<and>
    length buf = TUNNEL_HEADER_SIZE + length (enc_plaintext inp) + TUNNEL_AEAD_TAG_SIZE"
proof -
  have "length (enc_plaintext inp) < 2 ^ 32" using assms(3) by (simp add: tunnel_consts)
  with assms obtain c where
    "aead_encrypt S (enc_plaintext inp) (crypto_build_nonce (host w) (enc_counter inp)) (tx_key ctx) = Some c"
    "length c = length (enc_plaintext inp) + TUNNEL_AEAD_TAG_SIZE"
    unfolding aead_correct_def wf_crypto_def by (metis length_crypto_build_nonce)
  with assms(3) show ?thesis
    by (simp add: tunnel_packet_encode_def crypto_encrypt_packet_def TUNNEL_HEADER_SIZE_def)
qed

lemma encode_decode:
  assumes enc: "tunnel_packet_encode S inp ctx w = (Some buf, w')"
    and S: "aead_correct S" and wf: "wf_crypto ctx" and key: "rx_key peer = tx_key ctx"
  shows "tunnel_packet_decode S e buf peer = Some (enc_plaintext inp)"
    "tunnel_packet_peek_session_id e buf = Some (enc_session_id inp)"
proof -
  let ?n = "crypto_build_nonce (host w) (enc_counter inp)"
  from encode_header(2) [OF enc refl] obtain c where
    len: "length (enc_plaintext inp) \<le> TUNNEL_PACKET_MAX_PLAINTEXT" and
    c: "aead_encrypt S (enc_plaintext inp) ?n (tx_key ctx) = Some c" and
    buf: "buf = tunnel_header (enc_session_id inp, enc_counter inp) @ c"
    by blast
  have "length (enc_plaintext inp) < 2 ^ 32" using len by (simp add: tunnel_consts)
  with S wf c have dec: "length c = length (enc_plaintext inp) + TUNNEL_AEAD_TAG_SIZE"
      "aead_decrypt S c ?n (tx_key ctx) = Some (enc_plaintext inp)"
    unfolding aead_correct_def wf_crypto_def by (metis length_crypto_build_nonce option.inject)+
  have nonce: "crypto_build_nonce e (enc_counter inp) = ?n" by (simp add: crypto_build_nonce_inject)
  have hdr: "parse_tunnel_header buf = (enc_session_id inp, enc_counter inp)"
    by (simp add: buf parse_tunnel_header_def tunnel_header_def word_be_bytes_be)
  show "tunnel_packet_decode S e buf peer = Some (enc_plaintext inp)"
    using dec len key nonce hdr
    by (simp add: decode_parse crypto_decrypt_packet_def buf) (simp add: tunnel_consts)
  show "tunnel_packet_peek_session_id e buf = Some (enc_session_id inp)"
    by (simp add: peek_parse hdr) (simp add: buf)
qed

lemma decode_authentic:
  assumes dec: "tunnel_packet_decode S e buf ctx = Some m" and S: "aead_authentic S"
  shows "\<exists>sid counter c. buf = tunnel_header (sid, counter) @ c \<and>
    aead_encrypt S m (crypto_build_nonce e counter) (rx_key ctx) = Some c"
proof -
  obtain sid counter where hdr: "parse_tunnel_header buf = (sid, counter)" by force
  have len: "TUNNEL_HEADER_SIZE \<le> length buf"
    and d: "aead_decrypt S (drop TUNNEL_HEADER_SIZE buf) (crypto_build_nonce e counter) (rx_key ctx) = Some m"
    using dec hdr by (auto simp: decode_parse crypto_decrypt_packet_def split: if_splits)
  have "buf = tunnel_header (sid, counter) @ drop TUNNEL_HEADER_SIZE buf"
    using parse_tunnel_header_inverse [OF len] hdr by (simp add: append_take_drop_id)
  with d S show ?thesis unfolding aead_authentic_def by blast
qed

end
