(* ===== verification/TunnelCompress.thy ===== *)
theory TunnelCompress
  imports Prelude
begin

text \<open>
  \<^verbatim>\<open>src/tunnel/tunnel_compress.c\<close>: a tunnelled packet is stored compressed when that
  makes it smaller and raw otherwise, behind a 5-byte header (a flag and the original
  length in network order). zstd is a parameter. A result of 0 bytes is a failure.
\<close>

record zstd =
  compress_bound :: "nat \<Rightarrow> nat"
  zstd_compress :: "bytes \<Rightarrow> nat \<Rightarrow> nat \<Rightarrow> bytes option"
  zstd_decompress :: "bytes \<Rightarrow> nat \<Rightarrow> bytes option"

text \<open>
  Documented behaviour: neither function writes past the capacity it is given, and
  decompressing what was compressed, into a buffer that is large enough, gives it back.
\<close>

definition zstd_bounded :: "zstd \<Rightarrow> bool" where
  "zstd_bounded Z \<longleftrightarrow>
     (\<forall>raw cap level c. zstd_compress Z raw cap level = Some c \<longrightarrow> length c \<le> cap) \<and>
     (\<forall>c cap raw. zstd_decompress Z c cap = Some raw \<longrightarrow> length raw \<le> cap)"

definition zstd_correct :: "zstd \<Rightarrow> bool" where
  "zstd_correct Z \<longleftrightarrow>
     (\<forall>raw cap level c cap'. zstd_compress Z raw cap level = Some c \<and> length raw \<le> cap' \<longrightarrow>
        zstd_decompress Z c cap' = Some raw)"

definition TUNNEL_COMPRESS_FLAG_NONE :: byte where "TUNNEL_COMPRESS_FLAG_NONE = 0"
definition TUNNEL_COMPRESS_FLAG_ZSTD :: byte where "TUNNEL_COMPRESS_FLAG_ZSTD = 1"
definition TUNNEL_COMPRESS_HEADER_SIZE :: nat where "TUNNEL_COMPRESS_HEADER_SIZE = 5"

lemmas compress_consts =
  TUNNEL_COMPRESS_FLAG_NONE_def TUNNEL_COMPRESS_FLAG_ZSTD_def TUNNEL_COMPRESS_HEADER_SIZE_def

definition tunnel_pipeline_compress :: "zstd \<Rightarrow> endian \<Rightarrow> bytes \<Rightarrow> nat \<Rightarrow> bytes" where
  "tunnel_pipeline_compress Z e raw out_capacity =
     (if out_capacity < TUNNEL_COMPRESS_HEADER_SIZE then []
      else
        (let max_payload = out_capacity - TUNNEL_COMPRESS_HEADER_SIZE;
             compressed =
               (if compress_bound Z (length raw) \<le> max_payload then
                  (case zstd_compress Z raw max_payload 3 of None \<Rightarrow> [] | Some c \<Rightarrow> c)
                else [])
         in if length compressed > 0 \<and> length compressed < length raw then
              TUNNEL_COMPRESS_FLAG_ZSTD # mem_bytes e 4 (htobe32 e (of_nat (length raw))) @ compressed
            else if length raw > max_payload then []
            else TUNNEL_COMPRESS_FLAG_NONE # zeros 4 @ raw))"

definition tunnel_pipeline_decompress :: "zstd \<Rightarrow> endian \<Rightarrow> bytes \<Rightarrow> nat \<Rightarrow> bytes" where
  "tunnel_pipeline_decompress Z e in_buffer out_capacity =
     (if length in_buffer < TUNNEL_COMPRESS_HEADER_SIZE then []
      else
        (let flag = in_buffer ! 0;
             payload = drop TUNNEL_COMPRESS_HEADER_SIZE in_buffer
         in if flag = TUNNEL_COMPRESS_FLAG_NONE then
              (if length payload > out_capacity then [] else payload)
            else if flag = TUNNEL_COMPRESS_FLAG_ZSTD then
              (let original_len = be32toh e (mem_word e (take 4 (drop 1 in_buffer)))
               in if unat original_len > out_capacity then []
                  else
                    (case zstd_decompress Z payload out_capacity of
                       None \<Rightarrow> []
                     | Some result \<Rightarrow> (if length result \<noteq> unat original_len then [] else result)))
            else []))"

section \<open>A library for which the hypotheses hold\<close>

text \<open>Run-length coding of constant packets of up to 65535 bytes; it refuses all others.\<close>

definition demo_zstd :: zstd where
  "demo_zstd =
     \<lparr>compress_bound = (\<lambda>n. n + 8),
      zstd_compress = (\<lambda>raw cap level.
        if raw \<noteq> [] \<and> raw = replicate (length raw) (hd raw) \<and> length raw < 65536 \<and> 3 \<le> cap
        then Some (bytes_be 2 (of_nat (length raw) :: u16) @ [hd raw]) else None),
      zstd_decompress = (\<lambda>c cap.
        if length c = 3 \<and> unat (word_be (take 2 c) :: u16) \<le> cap
        then Some (replicate (unat (word_be (take 2 c) :: u16)) (c ! 2)) else None)\<rparr>"

lemma demo_zstd_bounded: "zstd_bounded demo_zstd"
  by (auto simp: zstd_bounded_def demo_zstd_def split: if_splits)

lemma demo_zstd_correct: "zstd_correct demo_zstd"
  by (auto simp: zstd_correct_def demo_zstd_def nth_append word_be_bytes_be unat_of_nat_small
      split: if_splits)

section \<open>Properties of the pipeline\<close>

lemma compress_bound_out:
  assumes "zstd_bounded Z"
  shows "length (tunnel_pipeline_compress Z e raw cap) \<le> cap"
  using assms
  by (auto simp: tunnel_pipeline_compress_def zstd_bounded_def Let_def compress_consts
      split: option.splits) fastforce+

lemma decompress_bound_out:
  assumes "zstd_bounded Z"
  shows "length (tunnel_pipeline_decompress Z e buf cap) \<le> cap"
  using assms
  by (auto simp: tunnel_pipeline_decompress_def zstd_bounded_def Let_def compress_consts
      split: option.splits)

text \<open>The output is never more than the header longer than the input.\<close>

lemma compress_overhead:
  "length (tunnel_pipeline_compress Z e raw cap) \<le> length raw + TUNNEL_COMPRESS_HEADER_SIZE"
  by (auto simp: tunnel_pipeline_compress_def Let_def compress_consts)

lemma compress_total:
  "length raw + TUNNEL_COMPRESS_HEADER_SIZE \<le> cap \<Longrightarrow> tunnel_pipeline_compress Z e raw cap \<noteq> []"
  by (auto simp: tunnel_pipeline_compress_def Let_def compress_consts)

lemma compress_roundtrip:
  assumes Z: "zstd_correct Z" and raw: "length raw < 2 ^ 32" "length raw \<le> cap'"
    and out: "tunnel_pipeline_compress Z e raw cap \<noteq> []"
  shows "tunnel_pipeline_decompress Z e' (tunnel_pipeline_compress Z e raw cap) cap' = raw"
proof -
  let ?m = "cap - TUNNEL_COMPRESS_HEADER_SIZE"
  have len: "unat (of_nat (length raw) :: u32) = length raw"
    using raw(1) by (simp add: unat_of_nat_small)
  consider (stored) "tunnel_pipeline_compress Z e raw cap = TUNNEL_COMPRESS_FLAG_NONE # zeros 4 @ raw"
    | (packed) c where "zstd_compress Z raw ?m 3 = Some c" "tunnel_pipeline_compress Z e raw cap =
        TUNNEL_COMPRESS_FLAG_ZSTD # bytes_be 4 (of_nat (length raw) :: u32) @ c"
    using out
    by (auto simp: tunnel_pipeline_compress_def Let_def mem_bytes_to_be split: if_splits option.splits)
  then show ?thesis
  proof cases
    case stored
    with raw(2) show ?thesis
      by (simp add: tunnel_pipeline_decompress_def Let_def compress_consts)
  next
    case packed
    from Z packed(1) raw(2) have "zstd_decompress Z c cap' = Some raw"
      by (auto simp: zstd_correct_def)
    with packed(2) raw(2) len show ?thesis
      by (simp add: tunnel_pipeline_decompress_def Let_def compress_consts to_be_mem_word word_be_bytes_be)
  qed
qed

end
