(* ===== verification/SessionManager.thy ===== *)
theory SessionManager
  imports Handshake SlotTable Tun TunnelPacket TunnelCompress
begin

text \<open>
  \<^verbatim>\<open>src/sessions/session_manager.c\<close>: the table of the server's sessions, the life of a
  session from \<^verbatim>\<open>accept\<close> to shutdown, and the two threads that move packets between the
  UDP socket and the TUN device. The table holds the sessions themselves where the code has
  pointers: a session is in the table from the moment it is added, and nothing else keeps a
  pointer across calls. The mutex is a flag; the passes of the threads are functions of the
  state, and the theory \<open>Server\<close> interleaves them.
\<close>

definition MAX_SESSIONS :: nat where "MAX_SESSIONS = 1024"

definition SERVER_DEFAULT_VNI :: string where "SERVER_DEFAULT_VNI = ''10.8.0.1''"
definition DEFAULT_NETMASK :: string where "DEFAULT_NETMASK = ''255.255.255.0''"

record session_manager =
  sessions :: "session option list"
  identity :: crypto_context
  locked :: bool
  tun :: "tun_device option"
  session_count :: u32
  manager_socket :: int

section \<open>The table\<close>

definition mutex_lock :: "session_manager \<Rightarrow> session_manager" where
  "mutex_lock m = m\<lparr>locked := True\<rparr>"

definition mutex_unlock :: "session_manager \<Rightarrow> session_manager" where
  "mutex_unlock m = m\<lparr>locked := False\<rparr>"

definition has_id :: "u64 \<Rightarrow> session option \<Rightarrow> bool" where
  "has_id sid slot = (case slot of None \<Rightarrow> False | Some s \<Rightarrow> session_id s = sid)"

text \<open>The second component is the session as the caller's pointer sees it afterwards.\<close>

definition session_manager_add :: "session_manager \<Rightarrow> session \<Rightarrow> rc \<times> session \<times> session_manager" where
  "session_manager_add m s =
     (let m = mutex_lock m
      in case first_slot (\<lambda>slot. slot = None) 0 (sessions m) of
           Some i \<Rightarrow>
             (let s = s\<lparr>tunnel_ip_octet := of_nat (i + 2)\<rparr>;
                  m = m\<lparr>sessions := (sessions m)[i := Some s], session_count := session_count m + 1\<rparr>
              in (0, s, mutex_unlock m))
         | None \<Rightarrow> (1, s, mutex_unlock m))"

definition session_manager_remove :: "session_manager \<Rightarrow> u64 \<Rightarrow> world \<Rightarrow> rc \<times> session_manager \<times> world" where
  "session_manager_remove m sid w =
     (let m = mutex_lock m
      in case first_slot (has_id sid) 0 (sessions m) of
           Some i \<Rightarrow>
             (case session_destroy (the (sessions m ! i)) w of (_, w) \<Rightarrow>
                let w = sys_free True w;
                    m = m\<lparr>sessions := (sessions m)[i := None], session_count := session_count m - 1\<rparr>
                in (0, mutex_unlock m, w))
         | None \<Rightarrow> (1, mutex_unlock m, w))"

text \<open>A pointer into the table is the index of its slot.\<close>

definition session_manager_get :: "session_manager \<Rightarrow> u64 \<Rightarrow> nat option \<times> session_manager" where
  "session_manager_get m sid =
     (let m = mutex_lock m
      in case first_slot (has_id sid) 0 (sessions m) of
           Some i \<Rightarrow> (let m = mutex_unlock m in (Some i, m))
         | None \<Rightarrow> (None, mutex_unlock m))"

section \<open>Starting, connecting, shutting down\<close>

definition session_manager_init :: "sodium \<Rightarrow> world \<Rightarrow> rc \<times> session_manager \<times> world" where
  "session_manager_init S w =
     (let m = \<lparr>sessions = replicate MAX_SESSIONS None, identity = crypto_context_init, locked = False,
               tun = None, session_count = 0, manager_socket = -1\<rparr>;
          fail = (\<lambda>m w. (1, m, log_msg ERROR_MSG SERVER_RT ''Failed to load or create server identity'' [] w))
      in case crypto_config_path ''server_identity.key'' PATH_MAX w of
           (None, w) \<Rightarrow> fail m w
         | (Some path, w) \<Rightarrow>
             (case crypto_identity_load_or_create S (identity m) path w of (r, ctx, w) \<Rightarrow>
                let m = m\<lparr>identity := ctx\<rparr>
                in if r \<noteq> 0 then fail m w
                   else
                     (case tun_open \<lparr>cfg_address = SERVER_DEFAULT_VNI, cfg_netmask = DEFAULT_NETMASK,
                                     cfg_ifname = SERVER_TUN_INTERFACE_NAME\<rparr> w of (dev, w) \<Rightarrow>
                        let m = m\<lparr>tun := dev\<rparr>
                        in if dev = None then
                             (1, m, log_msg ERROR_MSG SERVER_RT
                                ''Failed to open TUN device. Are you running with root privileges?'' [] w)
                           else (0, m, w))))"

definition session_manager_connect ::
    "sodium \<Rightarrow> session_manager \<Rightarrow> session_role_t \<Rightarrow> int \<Rightarrow> string \<Rightarrow> world \<Rightarrow>
     session option \<times> session_manager \<times> world" where
  "session_manager_connect S m rl sock addr w =
     (case sys_malloc w of (got, w) \<Rightarrow>
        if \<not> got then (None, m, w)
        else
          (case session_create rl sock addr (identity m) None w of (r, s, w) \<Rightarrow>
             if r \<noteq> 0 then (None, m, sys_free True w)
             else
               (case session_server_connect S s w of (r, s, w) \<Rightarrow>
                  if r \<noteq> 0 then (case session_destroy s w of (_, w) \<Rightarrow> (None, m, sys_free True w))
                  else
                    (case session_manager_add m s of (r, s, m) \<Rightarrow>
                       if r \<noteq> 0 then (case session_destroy s w of (_, w) \<Rightarrow> (None, m, sys_free True w))
                       else (Some s, m, w)))))"

text \<open>One turn of the loop of \<^verbatim>\<open>session_manager_disconnect_all\<close> on an occupied slot.\<close>

definition disconnect_session :: "session \<Rightarrow> world \<Rightarrow> world" where
  "disconnect_session s w =
     (case packet_construct
        \<lparr>c_payload = None, c_payload_length = 0,
         header_type = PACKET_DISCONNECT, header_version = protocol_version s\<rparr> w of (notice, w) \<Rightarrow>
      case packet_send (sess_socket s) notice w of (_, w) \<Rightarrow>
      case packet_destroy notice w of (_, w) \<Rightarrow>
      case session_destroy s w of (_, w) \<Rightarrow> sys_free True w)"

primrec disconnect_slots :: "session option list \<Rightarrow> world \<Rightarrow> session option list \<times> world" where
  "disconnect_slots [] w = ([], w)"
| "disconnect_slots (x # xs) w =
     (let w = (case x of None \<Rightarrow> w | Some s \<Rightarrow> disconnect_session s w)
      in case disconnect_slots xs w of (xs, w) \<Rightarrow> (None # xs, w))"

definition session_manager_disconnect_all :: "session_manager \<Rightarrow> world \<Rightarrow> session_manager \<times> world" where
  "session_manager_disconnect_all m w =
     (let m = mutex_lock m
      in case disconnect_slots (sessions m) w of (slots, w) \<Rightarrow>
           let m = m\<lparr>sessions := slots, session_count := 0\<rparr>;
               m = mutex_unlock m;
               w = tun_close (tun m) w
           in (m\<lparr>tun := None\<rparr>, w))"

definition session_manager_udp_bind :: "session_manager \<Rightarrow> u16 \<Rightarrow> world \<Rightarrow> rc \<times> session_manager \<times> world" where
  "session_manager_udp_bind m port w =
     (case sys_socket w of (fd, w) \<Rightarrow>
        let m = m\<lparr>manager_socket := fd\<rparr>
        in if manager_socket m < 0 then
             (1, m, log_msg ERROR_MSG SERVER_RT ''Failed to create UDP tunnel socket'' [] w)
           else
             (case sys_net w of (_, w) \<Rightarrow>
              case sys_net w of (bound, w) \<Rightarrow>
                if \<not> bound then
                  (let w = log_msg ERROR_MSG SERVER_RT ''Failed to bind UDP tunnel socket'' [] w;
                       w = sys_close (manager_socket m) w
                   in (1, m\<lparr>manager_socket := -1\<rparr>, w))
                else (0, m, w)))"

section \<open>The threads\<close>

text \<open>
  \<^verbatim>\<open>session_manager_udp_listener\<close>: its allocations (is the thread running afterwards?),
  what it does with a datagram, one turn of its loop from the return of \<^verbatim>\<open>select\<close> on (does
  the loop go on?), and its end.
\<close>

definition allocate_three :: "world \<Rightarrow> bool \<times> bool \<times> bool \<times> world" where
  "allocate_three w =
     (case sys_malloc w of (a, w) \<Rightarrow> case sys_malloc w of (b, w) \<Rightarrow> case sys_malloc w of (c, w) \<Rightarrow> (a, b, c, w))"

definition free_three :: "bool \<Rightarrow> bool \<Rightarrow> bool \<Rightarrow> world \<Rightarrow> world" where
  "free_three a b c w = sys_free c (sys_free b (sys_free a w))"

definition udp_listener_start :: "world \<Rightarrow> bool \<times> world" where
  "udp_listener_start w =
     (case allocate_three w of (a, b, c, w) \<Rightarrow>
        if \<not> a \<or> \<not> b \<or> \<not> c then
          (False, free_three a b c
             (log_msg ERROR_MSG SERVER_RT ''Failed to allocate UDP receive buffers'' [] w))
        else (True, w))"

definition udp_listener_datagram ::
    "sodium \<Rightarrow> zstd \<Rightarrow> session_manager \<Rightarrow> world \<Rightarrow> session_manager \<times> world" where
  "udp_listener_datagram S Z m w =
     (case sys_recvfrom (manager_socket m) TUNNEL_PACKET_MAX_SIZE w of
        (None, w) \<Rightarrow> (m, w)
      | (Some (from_addr, buffer), w) \<Rightarrow>
          (case tunnel_packet_peek_session_id (host w) buffer of
             None \<Rightarrow> (m, w)
           | Some sid \<Rightarrow>
               (case session_manager_get m sid of
                  (None, m) \<Rightarrow> (m, w)
                | (Some i, m) \<Rightarrow>
                    (let m = mutex_lock m;
                         s = the (sessions m ! i);
                         s = s\<lparr>udp := (udp s)\<lparr>peer_addr := from_addr\<rparr>\<rparr>;
                         s = s\<lparr>udp := (udp s)\<lparr>peer_known := True\<rparr>\<rparr>;
                         m = m\<lparr>sessions := (sessions m)[i := Some s]\<rparr>;
                         m = mutex_unlock m
                     in case tunnel_packet_decode S (host w) buffer (crypto s) of
                          None \<Rightarrow> (m, w)
                        | Some plaintext \<Rightarrow>
                            (let decompressed = tunnel_pipeline_decompress Z (host w) plaintext
                                                  TUNNEL_PACKET_MAX_PLAINTEXT
                             in if length decompressed = 0 then (m, w)
                                else
                                  (case tun m of
                                     None \<Rightarrow> (m, w)
                                   | Some dev \<Rightarrow> (m, snd (tun_write dev decompressed w))))))))"

definition udp_listener_wake ::
    "sodium \<Rightarrow> zstd \<Rightarrow> int \<Rightarrow> session_manager \<Rightarrow> world \<Rightarrow> bool \<times> session_manager \<times> world" where
  "udp_listener_wake S Z ready m w =
     (if manager_socket m < 0 then (False, m, w)
      else if ready \<le> 0 then (True, m, w)
      else (True, udp_listener_datagram S Z m w))"

definition buffers_free :: "world \<Rightarrow> world" where
  "buffers_free w = free_three True True True w"

text \<open>\<^verbatim>\<open>session_manager_tun_sender\<close>, cut up in the same way.\<close>

definition tun_sender_start :: "session_manager \<Rightarrow> world \<Rightarrow> bool \<times> world" where
  "tun_sender_start m w =
     (if tun m = None then
        (let w = w\<lparr>force_logs := True\<rparr>;
             w = log_msg ERROR_MSG SERVER_RT
                   ''TUN device unavailable, tunnel sender thread exiting. Are you running this command with root privileges?'' [] w
         in (False, w\<lparr>force_logs := False\<rparr>))
      else
        (case allocate_three w of (a, b, c, w) \<Rightarrow>
           if \<not> a \<or> \<not> b \<or> \<not> c then
             (let w = w\<lparr>force_logs := True\<rparr>;
                  w = log_msg ERROR_MSG SERVER_RT ''Failed to allocate TUN sender buffers'' [] w;
                  w = w\<lparr>force_logs := False\<rparr>
              in (False, free_three a b c w))
           else (True, w)))"

definition is_target :: "byte \<Rightarrow> session option \<Rightarrow> bool" where
  "is_target dest_octet slot =
     (case slot of
        None \<Rightarrow> False
      | Some s \<Rightarrow> sess_state s = SESSION_ESTABLISHED \<and> peer_known (udp s) \<and> tunnel_ip_octet s = dest_octet)"

definition tun_sender_packet ::
    "sodium \<Rightarrow> zstd \<Rightarrow> session_manager \<Rightarrow> world \<Rightarrow> session_manager \<times> world" where
  "tun_sender_packet S Z m w =
     (case tun_read (the (tun m)) TUNNEL_PACKET_MAX_PLAINTEXT w of (raw, w) \<Rightarrow>
        if length raw < 20 then (m, w)
        else
          (let compressed = tunnel_pipeline_compress Z (host w) raw TUNNEL_PACKET_MAX_PLAINTEXT
           in if length compressed = 0 then (m, w)
              else
                (let dest_octet = raw ! 19;
                     m = mutex_lock m
                 in case first_slot (is_target dest_octet) 0 (sessions m) of
                      None \<Rightarrow> (mutex_unlock m, w)
                    | Some i \<Rightarrow>
                        (let target = the (sessions m ! i);
                             peer = peer_addr (udp target);
                             inp = \<lparr>enc_session_id = session_id target,
                                    enc_counter = tx_nonce (crypto target),
                                    enc_plaintext = compressed\<rparr>;
                             target = target\<lparr>crypto := (crypto target)\<lparr>tx_nonce := tx_nonce (crypto target) + 1\<rparr>\<rparr>;
                             m = m\<lparr>sessions := (sessions m)[i := Some target]\<rparr>
                         in case tunnel_packet_encode S inp (crypto target) w of (encoded, w) \<Rightarrow>
                              let m = mutex_unlock m
                              in case encoded of
                                   None \<Rightarrow> (m, w)
                                 | Some buf \<Rightarrow>
                                     (m, sys_send_datagram (manager_socket m) (Some peer) buf w)))))"

definition tun_sender_wake ::
    "sodium \<Rightarrow> zstd \<Rightarrow> int \<Rightarrow> session_manager \<Rightarrow> world \<Rightarrow> bool \<times> session_manager \<times> world" where
  "tun_sender_wake S Z ready m w =
     (if manager_socket m < 0 then (False, m, w)
      else if ready \<le> 0 then (True, m, w)
      else (True, tun_sender_packet S Z m w))"

section \<open>The table implements its contract\<close>

text \<open>
  The invariant of the manager between calls: all slots are there, the mutex is free, the
  counter counts the occupied slots, and each session has the address octet of its slot.
\<close>

definition manager_ok :: "session_manager \<Rightarrow> bool" where
  "manager_ok m \<longleftrightarrow>
     length (sessions m) = MAX_SESSIONS \<and> \<not> locked m \<and>
     session_count m = of_nat (occupied (sessions m)) \<and>
     (\<forall>i<MAX_SESSIONS. \<forall>s. sessions m ! i = Some s \<longrightarrow> tunnel_ip_octet s = of_nat (i + 2))"

definition slot_of :: "session_manager \<Rightarrow> nat \<Rightarrow> session option" where
  "slot_of m i = (if i < length (sessions m) then sessions m ! i else None)"

definition place_session :: "nat \<Rightarrow> session \<Rightarrow> session" where
  "place_session i s = s\<lparr>tunnel_ip_octet := of_nat (i + 2)\<rparr>"

definition add_session :: "session \<Rightarrow> session_manager \<Rightarrow> session_manager option" where
  "add_session s m = (case session_manager_add m s of (r, _, m') \<Rightarrow> if r = 0 then Some m' else None)"

definition remove_session :: "world \<Rightarrow> u64 \<Rightarrow> session_manager \<Rightarrow> session_manager option" where
  "remove_session w sid m = (case session_manager_remove m sid w of (r, m', _) \<Rightarrow> if r = 0 then Some m' else None)"

definition find_session :: "u64 \<Rightarrow> session_manager \<Rightarrow> nat option" where
  "find_session sid m = fst (session_manager_get m sid)"

lemma lock_unlock [simp]:
  "sessions (mutex_lock m) = sessions m" "sessions (mutex_unlock m) = sessions m"
  "session_count (mutex_lock m) = session_count m" "session_count (mutex_unlock m) = session_count m"
  "locked (mutex_unlock m) = False" "manager_socket (mutex_lock m) = manager_socket m"
  "manager_socket (mutex_unlock m) = manager_socket m" "tun (mutex_lock m) = tun m" "tun (mutex_unlock m) = tun m"
  "identity (mutex_lock m) = identity m" "identity (mutex_unlock m) = identity m"
  "\<not> locked m \<Longrightarrow> mutex_unlock (mutex_lock m) = m"
  by (simp_all add: mutex_lock_def mutex_unlock_def)

lemma has_id_simps [simp]: "\<not> has_id k None" "has_id k (Some s) \<longleftrightarrow> session_id s = k"
  by (simp_all add: has_id_def)

lemma session_manager_get_eq:
  "\<not> locked m \<Longrightarrow> session_manager_get m sid = (first_slot (has_id sid) 0 (sessions m), m)"
  by (simp add: session_manager_get_def Let_def split: option.split)

lemma slot_of_update:
  "i < length (sessions m) \<Longrightarrow> slot_of (m\<lparr>sessions := (sessions m)[i := x]\<rparr>) = (slot_of m)(i := x)"
  by (rule ext) (simp add: slot_of_def nth_list_update)

lemma slot_of_lock [simp]:
  "slot_of (mutex_unlock m) = slot_of m" "slot_of (m\<lparr>session_count := c\<rparr>) = slot_of m"
  by (simp_all add: slot_of_def fun_eq_iff)

text \<open>Writing a session to the first free slot, or clearing an occupied one, keeps the invariant.\<close>

lemma manager_ok_fill:
  assumes "manager_ok m" "i < MAX_SESSIONS" "sessions m ! i = None"
  shows "manager_ok (mutex_unlock (m\<lparr>sessions := (sessions m)[i := Some (place_session i s)],
    session_count := session_count m + 1\<rparr>))"
  using assms
  by (auto simp: manager_ok_def mutex_unlock_def place_session_def occupied_fill nth_list_update)

lemma manager_ok_clear:
  assumes "manager_ok m" "i < MAX_SESSIONS" "sessions m ! i \<noteq> None"
  shows "manager_ok (mutex_unlock (m\<lparr>sessions := (sessions m)[i := None],
    session_count := session_count m - 1\<rparr>))"
  using assms occupied_clear [of i "sessions m"]
  by (auto simp: manager_ok_def mutex_unlock_def nth_list_update algebra_simps dest!: sym [of "Suc _"])

lemma session_manager_add_eq:
  assumes "manager_ok m"
  shows "session_manager_add m s =
    (case first_slot (\<lambda>slot. slot = None) 0 (sessions m) of
       None \<Rightarrow> (1, s, m)
     | Some i \<Rightarrow> (0, place_session i s,
         mutex_unlock (m\<lparr>sessions := (sessions m)[i := Some (place_session i s)],
           session_count := session_count m + 1\<rparr>)))"
  using assms
  by (simp add: session_manager_add_def mutex_lock_def mutex_unlock_def place_session_def manager_ok_def Let_def
      split: option.split)

lemma session_manager_remove_eq:
  assumes "manager_ok m"
  shows "session_manager_remove m sid w =
    (case first_slot (has_id sid) 0 (sessions m) of
       None \<Rightarrow> (1, m, w)
     | Some i \<Rightarrow> (0, mutex_unlock (m\<lparr>sessions := (sessions m)[i := None],
         session_count := session_count m - 1\<rparr>),
         sys_free True (snd (session_destroy (the (sessions m ! i)) w))))"
  using assms
  by (simp add: session_manager_remove_def mutex_lock_def mutex_unlock_def manager_ok_def Let_def
      split: option.split prod.split)

interpretation table: slot_table manager_ok MAX_SESSIONS slot_of session_id place_session
    add_session "remove_session w" find_session
  for w
proof
  fix m and s :: session and i k
  assume m: "manager_ok m"
  then have len: "length (sessions m) = MAX_SESSIONS" and free: "\<not> locked m" by (simp_all add: manager_ok_def)
  show "i < MAX_SESSIONS" if "slot_of m i = Some s"
    using that len by (simp add: slot_of_def split: if_splits)
  show "\<exists>m'. add_session s m = Some m' \<and> manager_ok m' \<and> slot_of m' = (slot_of m)(i \<mapsto> place_session i s)"
    if "i < MAX_SESSIONS" "slot_of m i = None" "\<And>j. j < i \<Longrightarrow> slot_of m j \<noteq> None"
  proof -
    have "first_slot (\<lambda>slot. slot = None) 0 (sessions m) = Some i"
      using that len by (auto simp: first_slot_0 slot_of_def dest: order.strict_trans)
    with that len m show ?thesis
      by (simp add: add_session_def session_manager_add_eq manager_ok_fill slot_of_def fun_eq_iff nth_list_update)
  qed
  show "add_session s m = None" if "\<And>i. i < MAX_SESSIONS \<Longrightarrow> slot_of m i \<noteq> None"
  proof -
    have "first_slot (\<lambda>slot. slot = None) 0 (sessions m) = None"
      using that len by (force simp: first_slot_None in_set_conv_nth slot_of_def)
    with m show ?thesis by (simp add: add_session_def session_manager_add_eq)
  qed
  show find: "find_session k m = Some i \<longleftrightarrow>
      (\<exists>s. slot_of m i = Some s \<and> session_id s = k) \<and> (\<forall>j<i. \<forall>s. slot_of m j = Some s \<longrightarrow> session_id s \<noteq> k)" for k i
    using len by (auto simp: find_session_def session_manager_get_eq [OF free] first_slot_0 slot_of_def has_id_def
        split: option.splits if_splits dest: order.strict_trans)
  show "\<exists>m'. remove_session w k m = Some m' \<and> manager_ok m' \<and> slot_of m' = (slot_of m)(i := None)"
    if "find_session k m = Some i"
  proof -
    have fs: "first_slot (has_id k) 0 (sessions m) = Some i"
      using that by (simp add: find_session_def session_manager_get_eq [OF free])
    then have "i < MAX_SESSIONS" "sessions m ! i \<noteq> None" using len by (auto simp: first_slot_0 has_id_def split: option.splits)
    with m fs len show ?thesis
      by (simp add: remove_session_def session_manager_remove_eq manager_ok_clear slot_of_def fun_eq_iff
          nth_list_update)
  qed
  show "remove_session w k m = None" if "find_session k m = None"
    using that m by (simp add: remove_session_def session_manager_remove_eq find_session_def
        session_manager_get_eq [OF free])
qed (simp add: place_session_def)

end
