(* ===== verification/ManagerFacts.thy ===== *)
theory ManagerFacts
  imports Agreement SessionManager
begin

text \<open>
  What the operations of the session manager do: a connection attempt adds one established,
  verified session or leaves everything as it was, shutting down empties the table, and each
  turn of the two threads moves at most one packet, under a counter that is not used again.
\<close>

section \<open>One session\<close>

lemma session_create_result:
  assumes "session_create rl fd addr ident trusted w = (r, s, w')"
  shows "r = 0" "sess_socket s = fd" "udp_socket (udp s) = -1" "\<not> peer_known (udp s)" "role s = rl"
    "protocol_version s = CURRENT_PROTOCOL_VERSION" "sess_state s = SESSION_CONNECTING"
    "public_key (crypto s) = public_key ident" "private_key (crypto s) = private_key ident"
    "tx_nonce (crypto s) = 0" "verified (crypto s) = 0" "udp_session_id (udp s) = session_id s"
    "ip s = take (INET_ADDRSTRLEN - 1) addr"
    "has_trusted_peer_key s \<longleftrightarrow> trusted \<noteq> None" "trusted = Some k \<Longrightarrow> trusted_peer_key s = k"
    "local_frame w w'" "drew 8 w w'" "session_id s = mem_word (host w) (draw 8 0 w)"
proof -
  obtain sid w1 where g: "generate_session_id w = (sid, w1)" by force
  obtain b where sr: "sys_random 8 w = (b, w1)" "sid = mem_word (host w) b"
    using g by (auto simp: generate_session_id_def sys_random_def)
  note d = sys_random_draw [OF sr(1)] sys_random_local [OF sr(1)]
  show "r = 0" "sess_socket s = fd" "udp_socket (udp s) = -1" "\<not> peer_known (udp s)" "role s = rl"
    "protocol_version s = CURRENT_PROTOCOL_VERSION" "sess_state s = SESSION_CONNECTING"
    "public_key (crypto s) = public_key ident" "private_key (crypto s) = private_key ident"
    "tx_nonce (crypto s) = 0" "verified (crypto s) = 0" "udp_session_id (udp s) = session_id s"
    "ip s = take (INET_ADDRSTRLEN - 1) addr"
    "has_trusted_peer_key s \<longleftrightarrow> trusted \<noteq> None" "trusted = Some k \<Longrightarrow> trusted_peer_key s = k"
    "local_frame w w'" "drew 8 w w'" "session_id s = mem_word (host w) (draw 8 0 w)"
    using assms g d sr
    by (auto simp: session_create_def session_init_def zero_session_def crypto_context_init_def
        udp_tunnel_init_def zero_udp_tunnel_def Let_def split: option.splits)
qed

lemma session_destroy_result:
  assumes "udp_socket (udp s) < 0" and "session_destroy s w = (s', w')"
  shows "leaked w' = leaked w" "0 \<le> sess_socket s \<Longrightarrow> socks w' = (socks w)(sess_socket s := None)"
    "s' = zero_session\<lparr>sess_socket := -1, sess_state := SESSION_DISCONNECTED\<rparr>"
    "sess_socket s < 0 \<Longrightarrow> w' = w" "w' = (if sess_socket s \<ge> 0 then sys_close (sess_socket s) w else w)"
  using assms by (auto simp: session_destroy_def Let_def socks_close)

section \<open>Connecting\<close>

text \<open>A session the server may hold in its table.\<close>

definition good_session :: "session \<Rightarrow> bool" where
  "good_session s \<longleftrightarrow>
     sess_state s = SESSION_ESTABLISHED \<and> verified (crypto s) = 1 \<and> udp_socket (udp s) < 0 \<and>
     0 \<le> sess_socket s \<and> protocol_version s = CURRENT_PROTOCOL_VERSION"

lemma session_manager_connect_result:
  assumes run: "session_manager_connect S m rl fd addr w = (r, m', w')" and m: "manager_ok m" and fd: "0 \<le> fd"
  shows "r = None \<Longrightarrow> m' = m \<and> leaked w' = leaked w \<and> (\<forall>fd'. fd' \<noteq> fd \<longrightarrow> socks w' fd' = socks w fd') \<and>
      (malloc_ok w (malloc_calls w) \<longrightarrow> socks w' fd = None)"
    "r = Some s \<Longrightarrow> good_session s \<and> sess_socket s = fd \<and> tx_nonce (crypto s) = 0 \<and> \<not> peer_known (udp s) \<and>
      leaked w' = leaked w + 1 \<and> (\<forall>fd'. fd' \<noteq> fd \<longrightarrow> socks w' fd' = socks w fd') \<and>
      closed w' = closed w \<and> (socks w' fd = None \<longleftrightarrow> socks w fd = None) \<and>
      (\<exists>i<MAX_SESSIONS. sessions m ! i = None \<and> tunnel_ip_octet s = of_nat (i + 2) \<and>
         m' = mutex_unlock (m\<lparr>sessions := (sessions m)[i := Some s], session_count := session_count m + 1\<rparr>))"
    "udp_out w' = udp_out w"
proof -
  obtain got w1 where ml: "sys_malloc w = (got, w1)" by force
  obtain r2 s2 w2 where cr: "session_create rl fd addr (identity m) None w1 = (r2, s2, w2)" by (metis prod_cases3)
  obtain r3 s3 w3 where co: "session_server_connect S s2 w2 = (r3, s3, w3)" by (metis prod_cases3)
  obtain r4 s4 m4 where ad: "session_manager_add m s3 = (r4, s4, m4)" by (metis prod_cases3)
  obtain s5 w5 where de: "session_destroy s3 w3 = (s5, w5)" by force
  note c = session_create_result [OF cr]
  note h = session_server_connect_step [OF co]
  have keep: "sess_socket s3 = fd" "udp s3 = udp s2" "protocol_version s3 = CURRENT_PROTOCOL_VERSION"
      "tx_nonce (crypto s3) = 0" "closed w3 = closed w2"
    using h c by (auto simp: hs_step_def socket_frame_def env_frame_def)
  have m1: "leaked w1 = leaked w + (if got then 1 else 0)" "socks w1 = socks w" "closed w1 = closed w"
      "got = malloc_ok w (malloc_calls w)"
    using leaked_malloc [OF ml] ml by (auto simp: sys_malloc_def Let_def)
  have out: "udp_out w3 = udp_out w" "udp_out w1 = udp_out w"
  proof -
    have "udp_out w3 = udp_out w2" using h by (simp add: hs_step_def socket_frame_def env_frame_def)
    moreover have "udp_out w2 = udp_out w1" using c(16) by (simp add: local_frame_def env_frame_def)
    moreover show "udp_out w1 = udp_out w" using ml by (auto simp: sys_malloc_def Let_def)
    ultimately show "udp_out w3 = udp_out w" by simp
  qed
  have dm: "socks w3 fd = None \<longleftrightarrow> socks w fd = None"
  proof -
    have "socks w3 fd = None \<longleftrightarrow> socks w2 fd = None" using h by (simp add: hs_step_def socket_frame_def env_frame_def)
    moreover have "socks w2 = socks w1" using c(16) by (simp add: local_frame_def)
    ultimately show ?thesis using m1(2) by simp
  qed
  have f3: "leaked w3 = leaked w1" "\<forall>fd'. fd' \<noteq> fd \<longrightarrow> socks w3 fd' = socks w fd'" "closed w3 = closed w"
    using h c m1 by (auto simp: hs_step_def socket_frame_def local_frame_def env_frame_def)
  have un: "udp_socket (udp s3) < 0" using keep c by simp
  note d = session_destroy_result [OF un de]
  have eq: "(r, m', w') =
      (if \<not> got then (None, m, w1)
       else if r3 \<noteq> 0 then (None, m, sys_free True w5)
       else (case first_slot (\<lambda>slot. slot = None) 0 (sessions m) of
           None \<Rightarrow> (None, m, sys_free True w5)
         | Some i \<Rightarrow> (Some (place_session i s3), mutex_unlock (m\<lparr>sessions := (sessions m)[i := Some (place_session i s3)],
             session_count := session_count m + 1\<rparr>), w3)))"
    unfolding run [symmetric] session_manager_connect_def
    by (simp add: ml cr [unfolded c(1)] co de session_manager_add_eq [OF m] split: option.split)
  have "udp_out w5 = udp_out w3" using d(5) by simp
  with eq out show "udp_out w' = udp_out w"
    by (auto simp: sys_free_def split: if_splits option.splits)
  show "m' = m \<and> leaked w' = leaked w \<and> (\<forall>fd'. fd' \<noteq> fd \<longrightarrow> socks w' fd' = socks w fd') \<and>
      (malloc_ok w (malloc_calls w) \<longrightarrow> socks w' fd = None)" if "r = None"
    using eq that d(1,2) f3 m1 fd keep(1)
    by (auto simp: leaked_free split: if_splits option.splits)
  show "good_session s \<and> sess_socket s = fd \<and> tx_nonce (crypto s) = 0 \<and> \<not> peer_known (udp s) \<and>
      leaked w' = leaked w + 1 \<and> (\<forall>fd'. fd' \<noteq> fd \<longrightarrow> socks w' fd' = socks w fd') \<and>
      closed w' = closed w \<and> (socks w' fd = None \<longleftrightarrow> socks w fd = None) \<and>
      (\<exists>i<MAX_SESSIONS. sessions m ! i = None \<and> tunnel_ip_octet s = of_nat (i + 2) \<and>
         m' = mutex_unlock (m\<lparr>sessions := (sessions m)[i := Some s], session_count := session_count m + 1\<rparr>))"
    if some: "r = Some s"
  proof -
    obtain i where i: "got" "r3 = 0" "first_slot (\<lambda>slot. slot = None) 0 (sessions m) = Some i"
        "s = place_session i s3" "w' = w3"
        "m' = mutex_unlock (m\<lparr>sessions := (sessions m)[i := Some s], session_count := session_count m + 1\<rparr>)"
      using eq some by (auto split: if_splits option.splits)
    note z = session_server_connect_0(1,2) [OF co [unfolded i(2)]]
    have "i < MAX_SESSIONS" "sessions m ! i = None"
      using i(3) m by (auto simp: first_slot_0 manager_ok_def)
    then show ?thesis
      using i f3 m1 z keep c(3,4) fd dm by (auto simp: good_session_def place_session_def)
  qed
qed

section \<open>Shutting down\<close>

lemma disconnect_session_result:
  assumes "udp_socket (udp s) < 0" and "0 \<le> sess_socket s"
  shows "leaked (disconnect_session s w) = leaked w - 1"
    "socks (disconnect_session s w) = (socks w)(sess_socket s := None)"
    "udp_out (disconnect_session s w) = udp_out w"
proof -
  obtain r w1 where sd: "send_msg (sess_socket s) (message PACKET_DISCONNECT (protocol_version s) None 0) w = (r, w1)"
    by force
  obtain s' w2 where de: "session_destroy s w1 = (s', w2)" by force
  have eq: "disconnect_session s w = sys_free True w2"
    using sd de by (auto simp: disconnect_session_def send_msg_def message_def split: prod.splits)
  note f = send_msg_frame(1) [OF sd, unfolded socket_frame_def] and d = session_destroy_result [OF assms(1) de]
  show "leaked (disconnect_session s w) = leaked w - 1" using f d(1) by (simp add: eq leaked_free)
  show "udp_out (disconnect_session s w) = udp_out w"
    using f d(5) by (simp add: eq env_frame_def sys_free_def)
  have "(socks w1)(sess_socket s := None) = (socks w)(sess_socket s := None)"
    using f by (simp add: fun_eq_iff)
  with d(2) assms(2) show "socks (disconnect_session s w) = (socks w)(sess_socket s := None)"
    by (simp add: eq)
qed

lemma disconnect_slots_result:
  assumes "disconnect_slots xs w = (ys, w')"
    and "\<And>s. Some s \<in> set xs \<Longrightarrow> udp_socket (udp s) < 0 \<and> 0 \<le> sess_socket s"
  shows "ys = replicate (length xs) None \<and> leaked w' = leaked w - int (occupied xs) \<and> udp_out w' = udp_out w \<and>
    (\<forall>fd. socks w' fd = (if \<exists>s. Some s \<in> set xs \<and> sess_socket s = fd then None else socks w fd))"
  using assms
proof (induction xs arbitrary: w ys)
  case (Cons x xs)
  define v where "v = (case x of None \<Rightarrow> w | Some s \<Rightarrow> disconnect_session s w)"
  obtain zs u where rest: "disconnect_slots xs v = (zs, u)" by force
  have u: "ys = None # zs" "u = w'"
    using Cons.prems(1) rest by (simp_all add: Let_def v_def [symmetric])
  have "leaked v = leaked w - (if x = None then 0 else 1)" "udp_out v = udp_out w"
    "socks v fd = (if \<exists>s. x = Some s \<and> sess_socket s = fd then None else socks w fd)" for fd
    using Cons.prems(2) disconnect_session_result by (auto simp: v_def split: option.split)
  with u(1) Cons.IH [OF rest [unfolded u(2)]] Cons.prems(2) show ?case by auto
qed simp

definition holds_good :: "session_manager \<Rightarrow> bool" where
  "holds_good m \<longleftrightarrow> (\<forall>s. Some s \<in> set (sessions m) \<longrightarrow> good_session s)"

lemma session_manager_disconnect_all_result:
  assumes run: "session_manager_disconnect_all m w = (m', w')" and m: "manager_ok m" and g: "holds_good m"
  shows "sessions m' = replicate MAX_SESSIONS None" "session_count m' = 0" "tun m' = None" "manager_ok m'"
    "manager_socket m' = manager_socket m"
    "leaked w' = leaked w - int (occupied (sessions m)) - (if tun m = None then 0 else 1)"
    "socks w' fd = (if (\<exists>s. Some s \<in> set (sessions m) \<and> sess_socket s = fd) \<or>
        (\<exists>d. tun m = Some d \<and> 0 \<le> dev_fd d \<and> dev_fd d = fd) then None else socks w fd)"
    "udp_out w' = udp_out w"
proof -
  obtain ys v where ds: "disconnect_slots (sessions m) w = (ys, v)" by force
  have "udp_socket (udp s) < 0 \<and> 0 \<le> sess_socket s" if "Some s \<in> set (sessions m)" for s
    using g that by (simp add: holds_good_def good_session_def)
  from disconnect_slots_result [OF ds this] have d: "ys = replicate (length (sessions m)) None"
      "leaked v = leaked w - int (occupied (sessions m))" "udp_out v = udp_out w"
      "socks v fd = (if \<exists>s. Some s \<in> set (sessions m) \<and> sess_socket s = fd then None else socks w fd)" for fd
    by blast+
  have len: "length (sessions m) = MAX_SESSIONS" using m by (simp add: manager_ok_def)
  have m': "m' = (mutex_unlock ((mutex_lock m)\<lparr>sessions := ys, session_count := 0\<rparr>))\<lparr>tun := None\<rparr>"
      "w' = tun_close (tun m) v"
    using run ds by (auto simp: session_manager_disconnect_all_def Let_def mutex_lock_def mutex_unlock_def)
  show "sessions m' = replicate MAX_SESSIONS None" "session_count m' = 0" "tun m' = None"
    "manager_socket m' = manager_socket m" and ok: "manager_ok m'"
    using m' d(1) len by (simp_all add: manager_ok_def mutex_unlock_def mutex_lock_def)
  show "leaked w' = leaked w - int (occupied (sessions m)) - (if tun m = None then 0 else 1)"
    using m'(2) d(2) by (auto simp: tun_close_def leaked_free split: option.split)
  show "socks w' fd = (if (\<exists>s. Some s \<in> set (sessions m) \<and> sess_socket s = fd) \<or>
        (\<exists>d. tun m = Some d \<and> 0 \<le> dev_fd d \<and> dev_fd d = fd) then None else socks w fd)"
    using m'(2) d(4) [of fd] by (auto simp: tun_close_def socks_release sys_free_def split: option.split)
  show "udp_out w' = udp_out w"
    using m'(2) d(3) by (auto simp: tun_close_def sys_free_def split: option.split)
qed

section \<open>The threads\<close>

lemma unlock_sessions:
  "\<not> locked m \<Longrightarrow> mutex_unlock ((mutex_lock m)\<lparr>sessions := xs\<rparr>) = m\<lparr>sessions := xs\<rparr>"
  by (simp add: mutex_lock_def mutex_unlock_def)

text \<open>
  A turn of \<^verbatim>\<open>tun_sender\<close> sends nothing, or one datagram: the packet, compressed, under the
  counter and the key of the session with the destination's last octet, whose counter it
  advances.
\<close>

lemma tun_sender_packet_result:
  assumes run: "tun_sender_packet S Z m w = (m', w')" and m: "manager_ok m"
  shows "m' = m \<and> udp_out w' = udp_out w \<or>
    (\<exists>i<MAX_SESSIONS. \<exists>s raw. sessions m ! i = Some s \<and> sess_state s = SESSION_ESTABLISHED \<and> peer_known (udp s) \<and>
      20 \<le> length raw \<and> tunnel_ip_octet s = raw ! 19 \<and>
      m' = m\<lparr>sessions := (sessions m)[i := Some (s\<lparr>crypto := (crypto s)\<lparr>tx_nonce := tx_nonce (crypto s) + 1\<rparr>\<rparr>)]\<rparr> \<and>
      (udp_out w' = udp_out w \<or>
       (\<exists>c. udp_out w' = udp_out w @ [(manager_socket m, Some (peer_addr (udp s)),
              tunnel_header (session_id s, tx_nonce (crypto s)) @ c)] \<and>
            aead_encrypt S (tunnel_pipeline_compress Z (host w) raw TUNNEL_PACKET_MAX_PLAINTEXT)
              (crypto_build_nonce (host w) (tx_nonce (crypto s))) (tx_key (crypto s)) = Some c)))"
    "manager_ok m'"
proof -
  obtain raw w1 where rd: "tun_read (the (tun m)) TUNNEL_PACKET_MAX_PLAINTEXT w = (raw, w1)" by force
  have w1: "host w1 = host w" "udp_out w1 = udp_out w"
    using rd by (auto simp: tun_read_def sys_read_packet_def split: option.splits list.splits)
  let ?z = "tunnel_pipeline_compress Z (host w) raw TUNNEL_PACKET_MAX_PLAINTEXT"
  let ?fs = "first_slot (is_target (raw ! 19)) 0 (sessions m)"
  have free: "\<not> locked m" and len: "length (sessions m) = MAX_SESSIONS" using m by (simp_all add: manager_ok_def)
  have A: "(m' = m \<and> udp_out w' = udp_out w \<or>
    (\<exists>i<MAX_SESSIONS. \<exists>s raw. sessions m ! i = Some s \<and> sess_state s = SESSION_ESTABLISHED \<and> peer_known (udp s) \<and>
      20 \<le> length raw \<and> tunnel_ip_octet s = raw ! 19 \<and>
      m' = m\<lparr>sessions := (sessions m)[i := Some (s\<lparr>crypto := (crypto s)\<lparr>tx_nonce := tx_nonce (crypto s) + 1\<rparr>\<rparr>)]\<rparr> \<and>
      (udp_out w' = udp_out w \<or>
       (\<exists>c. udp_out w' = udp_out w @ [(manager_socket m, Some (peer_addr (udp s)),
              tunnel_header (session_id s, tx_nonce (crypto s)) @ c)] \<and>
            aead_encrypt S (tunnel_pipeline_compress Z (host w) raw TUNNEL_PACKET_MAX_PLAINTEXT)
              (crypto_build_nonce (host w) (tx_nonce (crypto s))) (tx_key (crypto s)) = Some c)))) \<and> manager_ok m'"
  proof (cases "length raw < 20 \<or> length ?z = 0 \<or> ?fs = None")
    case True
    then have "m' = m \<and> w' = w1"
      using run free by (auto simp: tun_sender_packet_def rd w1 Let_def split: if_splits)
    with w1 m show ?thesis by simp
  next
    case False
    then obtain i where fs: "?fs = Some i" by auto
    then have i: "i < MAX_SESSIONS" "is_target (raw ! 19) (sessions m ! i)" using len by (auto simp: first_slot_0)
    then obtain s where s: "sessions m ! i = Some s" "sess_state s = SESSION_ESTABLISHED" "peer_known (udp s)"
        "tunnel_ip_octet s = raw ! 19" by (auto simp: is_target_def split: option.splits)
    let ?inp = "\<lparr>enc_session_id = session_id s, enc_counter = tx_nonce (crypto s), enc_plaintext = ?z\<rparr>"
    let ?s = "s\<lparr>crypto := (crypto s)\<lparr>tx_nonce := tx_nonce (crypto s) + 1\<rparr>\<rparr>"
    let ?m = "m\<lparr>sessions := (sessions m)[i := Some ?s]\<rparr>"
    obtain b w2 where en: "tunnel_packet_encode S ?inp (crypto ?s) w1 = (b, w2)" by force
    have "(m', w') = (?m, case b of None \<Rightarrow> w2
        | Some buf \<Rightarrow> sys_send_datagram (manager_socket m) (Some (peer_addr (udp s))) buf w2)"
      using run False fs s(1) en free
      by (simp add: tun_sender_packet_def rd w1(1) Let_def unlock_sessions split: option.splits)
    then have mw: "m' = ?m" "w' = (case b of None \<Rightarrow> w2
        | Some buf \<Rightarrow> sys_send_datagram (manager_socket m) (Some (peer_addr (udp s))) buf w2)" by simp_all
    note e = encode_header [OF en]
    have w2: "udp_out w2 = udp_out w" using e(1) w1 by (simp add: log_frame_def io_frame_def)
    have ok: "manager_ok ?m"
      using m i(1) s(1) by (auto simp: manager_ok_def occupied_replace nth_list_update)
    have out: "udp_out w' = udp_out w \<or>
       (\<exists>c. udp_out w' = udp_out w @ [(manager_socket m, Some (peer_addr (udp s)),
              tunnel_header (session_id s, tx_nonce (crypto s)) @ c)] \<and>
            aead_encrypt S ?z (crypto_build_nonce (host w) (tx_nonce (crypto s))) (tx_key (crypto s)) = Some c)"
    proof (cases b)
      case None with mw(2) w2 show ?thesis by simp
    next
      case (Some buf)
      from e(2) [OF Some] mw(2) w2 w1(1) Some show ?thesis by (auto simp: sys_send_datagram_def)
    qed
    have "20 \<le> length raw" using False by simp
    with i(1) s mw(1) out ok show ?thesis by blast
  qed
  from A show "m' = m \<and> udp_out w' = udp_out w \<or>
    (\<exists>i<MAX_SESSIONS. \<exists>s raw. sessions m ! i = Some s \<and> sess_state s = SESSION_ESTABLISHED \<and> peer_known (udp s) \<and>
      20 \<le> length raw \<and> tunnel_ip_octet s = raw ! 19 \<and>
      m' = m\<lparr>sessions := (sessions m)[i := Some (s\<lparr>crypto := (crypto s)\<lparr>tx_nonce := tx_nonce (crypto s) + 1\<rparr>\<rparr>)]\<rparr> \<and>
      (udp_out w' = udp_out w \<or>
       (\<exists>c. udp_out w' = udp_out w @ [(manager_socket m, Some (peer_addr (udp s)),
              tunnel_header (session_id s, tx_nonce (crypto s)) @ c)] \<and>
            aead_encrypt S (tunnel_pipeline_compress Z (host w) raw TUNNEL_PACKET_MAX_PLAINTEXT)
              (crypto_build_nonce (host w) (tx_nonce (crypto s))) (tx_key (crypto s)) = Some c)))"
    by blast
  from A show "manager_ok m'" by blast
qed

text \<open>
  A turn of \<^verbatim>\<open>udp_listener\<close> ignores the datagram, or takes its sender for the address of
  the session it names, and then writes at most one packet to the device: what the datagram
  decrypts and decompresses to.
\<close>

definition rebind :: "sockaddr_in \<Rightarrow> session \<Rightarrow> session" where
  "rebind addr s = s\<lparr>udp := (udp s)\<lparr>peer_addr := addr, peer_known := True\<rparr>\<rparr>"

lemma rebind_simps [simp]:
  "crypto (rebind a s) = crypto s" "session_id (rebind a s) = session_id s" "sess_state (rebind a s) = sess_state s"
  "tunnel_ip_octet (rebind a s) = tunnel_ip_octet s" "sess_socket (rebind a s) = sess_socket s"
  "protocol_version (rebind a s) = protocol_version s"
  "udp_socket (udp (rebind a s)) = udp_socket (udp s)" "peer_addr (udp (rebind a s)) = a"
  "peer_known (udp (rebind a s))"
  by (simp_all add: rebind_def)

lemma tun_write_result:
  assumes "tun_write dev b w = (r, w')"
  shows "udp_out w' = udp_out w" "tun_out w' = tun_out w \<or> tun_out w' = tun_out w @ [b]" "socks w' = socks w"
    "leaked w' = leaked w" "udp_in w' = udp_in w"
  using assms by (auto simp: tun_write_def sys_net_def Let_def split: if_splits)

lemma udp_listener_datagram_result:
  assumes run: "udp_listener_datagram S Z m w = (m', w')" and m: "manager_ok m"
  shows "udp_out w' = udp_out w" "manager_ok m'"
    "m' = m \<and> tun_out w' = tun_out w \<or>
     (\<exists>addr buf rest i s. udp_in w (manager_socket m) = (addr, buf) # rest \<and> i < MAX_SESSIONS \<and>
        sessions m ! i = Some s \<and>
        tunnel_packet_peek_session_id (host w) (take TUNNEL_PACKET_MAX_SIZE buf) = Some (session_id s) \<and>
        m' = m\<lparr>sessions := (sessions m)[i := Some (rebind addr s)]\<rparr> \<and>
        (tun_out w' = tun_out w \<or>
         (\<exists>z. tunnel_packet_decode S (host w) (take TUNNEL_PACKET_MAX_SIZE buf) (crypto s) = Some z \<and>
            tun_out w' = tun_out w @ [tunnel_pipeline_decompress Z (host w) z TUNNEL_PACKET_MAX_PLAINTEXT])))"
proof -
  have free: "\<not> locked m" and len: "length (sessions m) = MAX_SESSIONS" using m by (simp_all add: manager_ok_def)
  obtain d w1 where rv: "sys_recvfrom (manager_socket m) TUNNEL_PACKET_MAX_SIZE w = (d, w1)" by force
  have w1: "host w1 = host w" "udp_out w1 = udp_out w" "tun_out w1 = tun_out w"
    using rv by (auto simp: sys_recvfrom_def split: list.splits prod.splits if_splits)
  have "udp_out w' = udp_out w \<and> manager_ok m' \<and> (m' = m \<and> tun_out w' = tun_out w \<or>
     (\<exists>addr buf rest i s. udp_in w (manager_socket m) = (addr, buf) # rest \<and> i < MAX_SESSIONS \<and>
        sessions m ! i = Some s \<and>
        tunnel_packet_peek_session_id (host w) (take TUNNEL_PACKET_MAX_SIZE buf) = Some (session_id s) \<and>
        m' = m\<lparr>sessions := (sessions m)[i := Some (rebind addr s)]\<rparr> \<and>
        (tun_out w' = tun_out w \<or>
         (\<exists>z. tunnel_packet_decode S (host w) (take TUNNEL_PACKET_MAX_SIZE buf) (crypto s) = Some z \<and>
            tun_out w' = tun_out w @ [tunnel_pipeline_decompress Z (host w) z TUNNEL_PACKET_MAX_PLAINTEXT]))))"
  proof (cases d)
    case None
    with run rv w1 m show ?thesis by (simp add: udp_listener_datagram_def)
  next
    case (Some p)
    then obtain addr b where d: "d = Some (addr, b)" by (cases p) simp
    then obtain buf rest where ui: "udp_in w (manager_socket m) = (addr, buf) # rest" "b = take TUNNEL_PACKET_MAX_SIZE buf"
      using rv by (auto simp: sys_recvfrom_def split: list.splits prod.splits if_splits)
    let ?fs = "\<lambda>sid. first_slot (has_id sid) 0 (sessions m)"
    show ?thesis
    proof (cases "\<exists>sid i. tunnel_packet_peek_session_id (host w) b = Some sid \<and> ?fs sid = Some i")
      case False
      then have "m' = m \<and> w' = w1"
        using run rv d w1 free
        by (auto simp: udp_listener_datagram_def session_manager_get_eq split: option.splits)
      with w1 m show ?thesis by simp
    next
      case True
      then obtain sid i where pk: "tunnel_packet_peek_session_id (host w) b = Some sid" and fs: "?fs sid = Some i"
        by blast
      then obtain s where s: "sessions m ! i = Some s" "session_id s = sid" and i: "i < MAX_SESSIONS"
        using len by (auto simp: first_slot_0 has_id_def split: option.splits)
      let ?m = "m\<lparr>sessions := (sessions m)[i := Some (rebind addr s)]\<rparr>"
      have ok: "manager_ok ?m"
        using m i s(1) by (auto simp: manager_ok_def occupied_replace nth_list_update)
      have rb: "s\<lparr>udp := (udp s)\<lparr>peer_addr := addr, peer_known := True\<rparr>\<rparr> = rebind addr s" by (simp add: rebind_def)
      have "m' = ?m \<and> (w' = w1 \<or> (\<exists>z dev. tunnel_packet_decode S (host w) b (crypto s) = Some z \<and>
          w' = snd (tun_write dev (tunnel_pipeline_decompress Z (host w) z TUNNEL_PACKET_MAX_PLAINTEXT) w1)))"
        using run rv d w1 free pk fs s(1)
        by (auto simp: udp_listener_datagram_def session_manager_get_eq unlock_sessions rb Let_def
            split: option.splits if_splits)
      then consider "m' = ?m" "w' = w1" | z dev where "m' = ?m" "tunnel_packet_decode S (host w) b (crypto s) = Some z"
          "tun_write dev (tunnel_pipeline_decompress Z (host w) z TUNNEL_PACKET_MAX_PLAINTEXT) w1 =
            (fst (tun_write dev (tunnel_pipeline_decompress Z (host w) z TUNNEL_PACKET_MAX_PLAINTEXT) w1), w')"
        by (metis prod.collapse)
      then show ?thesis
      proof cases
        case 1
        with w1 ok ui i s pk show ?thesis by blast
      next
        case 2
        with tun_write_result(1,2) [OF 2(3)] w1 ok ui i s pk show ?thesis by metis
      qed
    qed
  qed
  then show "udp_out w' = udp_out w" "manager_ok m'"
    "m' = m \<and> tun_out w' = tun_out w \<or>
     (\<exists>addr buf rest i s. udp_in w (manager_socket m) = (addr, buf) # rest \<and> i < MAX_SESSIONS \<and>
        sessions m ! i = Some s \<and>
        tunnel_packet_peek_session_id (host w) (take TUNNEL_PACKET_MAX_SIZE buf) = Some (session_id s) \<and>
        m' = m\<lparr>sessions := (sessions m)[i := Some (rebind addr s)]\<rparr> \<and>
        (tun_out w' = tun_out w \<or>
         (\<exists>z. tunnel_packet_decode S (host w) (take TUNNEL_PACKET_MAX_SIZE buf) (crypto s) = Some z \<and>
            tun_out w' = tun_out w @ [tunnel_pipeline_decompress Z (host w) z TUNNEL_PACKET_MAX_PLAINTEXT])))"
    by blast+
qed

end
