(* ===== verification/ServerCore.thy ===== *)
theory ServerCore
  imports Logs
begin

text \<open>
  The listening socket of the server, \<^verbatim>\<open>src/server/server_core.h\<close> and
  \<^verbatim>\<open>server_core.c\<close>. What \<^verbatim>\<open>perror\<close> writes to the standard error is not modelled.
\<close>

definition SERVER_DEFAULT_PORT :: u16 where "SERVER_DEFAULT_PORT = 8080"

record server =
  srv_socket :: int
  running :: bool
  srv_port :: u16

definition server_init :: server where
  "server_init = \<lparr>srv_socket = -1, running = False, srv_port = 0\<rparr>"

definition server_cleanup :: "server \<Rightarrow> world \<Rightarrow> server \<times> world" where
  "server_cleanup s w =
     (let w = (if srv_socket s \<ge> 0 then sys_close (srv_socket s) w else w)
      in (s\<lparr>srv_socket := -1, running := False\<rparr>, w))"

definition server_create_socket :: "server \<Rightarrow> world \<Rightarrow> rc \<times> server \<times> world" where
  "server_create_socket s w =
     (case sys_socket w of (fd, w) \<Rightarrow>
        let s = s\<lparr>srv_socket := fd\<rparr>
        in if srv_socket s < 0 then
             (case server_cleanup s (log_msg ERROR_MSG SERVER_RT ''Failed to create socket'' [] w) of
                (s, w) \<Rightarrow> (1, s, w))
           else
             (case sys_net w of (ok, w) \<Rightarrow>
                if \<not> ok then
                  (case server_cleanup s (log_msg ERROR_MSG SERVER_RT ''Failed to set SO_REUSEADDR'' [] w) of
                     (s, w) \<Rightarrow> (1, s, w))
                else (0, s, w)))"

definition server_bind :: "server \<Rightarrow> world \<Rightarrow> rc \<times> server \<times> world" where
  "server_bind s w =
     (case sys_net w of (ok, w) \<Rightarrow>
        if \<not> ok then
          (case server_cleanup s (log_msg ERROR_MSG SERVER_RT ''Failed to bind socket'' [] w) of
             (s, w) \<Rightarrow> (1, s, w))
        else (0, s, w))"

definition server_listen :: "server \<Rightarrow> world \<Rightarrow> rc \<times> server \<times> world" where
  "server_listen s w =
     (case sys_net w of (ok, w) \<Rightarrow>
        if \<not> ok then
          (case server_cleanup s (log_msg ERROR_MSG SERVER_RT ''Failed to listen'' [] w) of
             (s, w) \<Rightarrow> (1, s, w))
        else (0, s, w))"

definition server_start :: "server \<Rightarrow> u16 \<Rightarrow> world \<Rightarrow> rc \<times> server \<times> world" where
  "server_start s port w =
     (if running s then (1, s, log_msg ERROR_MSG SERVER_RT ''Server is already running'' [] w)
      else
        (let w = log_msg INFO_MSG SERVER_RT ''Starting server...'' [] w;
             s = s\<lparr>srv_port := port\<rparr>
         in case server_create_socket s w of (r, s, w) \<Rightarrow>
           if r \<noteq> 0 then (1, s, log_msg ERROR_MSG SERVER_RT ''Failed to create listening socket'' [] w)
           else
             (case server_bind s w of (r, s, w) \<Rightarrow>
                if r \<noteq> 0 then (1, s, log_msg ERROR_MSG SERVER_RT ''Failed to bind server socket'' [] w)
                else
                  (case server_listen s w of (r, s, w) \<Rightarrow>
                     if r \<noteq> 0 then (1, s, log_msg ERROR_MSG SERVER_RT ''Failed to listen for connections'' [] w)
                     else
                       (let s = s\<lparr>running := True\<rparr>
                        in (0, s, log_msg INFO_MSG SERVER_RT ''Listening on port %u''
                              [FmtUnsigned (unat (srv_port s))] w))))))"

text \<open>\<^verbatim>\<open>inet_ntop\<close> for IPv4: none if the text and its terminating zero do not fit.\<close>

definition inet_ntop :: "u32 \<Rightarrow> nat \<Rightarrow> string option" where
  "inet_ntop a buffer_size =
     (let n = unat a;
          text = decimal (n div 16777216) @ ''.'' @ decimal (n div 65536 mod 256) @ ''.'' @
                 decimal (n div 256 mod 256) @ ''.'' @ decimal (n mod 256)
      in if length text < buffer_size then Some text else None)"

text \<open>The descriptor, or -1, and the text of the client's address.\<close>

definition server_accept :: "server \<Rightarrow> nat \<Rightarrow> world \<Rightarrow> int \<times> string \<times> world" where
  "server_accept s client_ip_size w =
     (case sys_accept w of (client, client_addr, w) \<Rightarrow>
        if client < 0 then (-1, [], log_msg ERROR_MSG SERVER_RT ''Failed to accept client'' [] w)
        else
          (let client_ip = (case inet_ntop (sin_addr client_addr) client_ip_size of
                              Some text \<Rightarrow> text
                            | None \<Rightarrow> take (client_ip_size - 1) ''<unknown>'')
           in (client, client_ip,
               log_msg INFO_MSG SERVER_RT (''Client connected'' @ [CHR 0x0A] @ ''Address: %s'' @ [CHR 0x0A] @ ''Port: %u'')
                 [FmtString client_ip, FmtUnsigned (unat (sin_port client_addr))] w)))"

definition server_shutdown :: "server \<Rightarrow> world \<Rightarrow> rc \<times> server \<times> world" where
  "server_shutdown s w =
     (if \<not> running s then (1, s, log_msg ERROR_MSG SERVER_RT ''Server is not running'' [] w)
      else
        (let w = log_msg INFO_MSG SERVER_RT ''Shutting down server...'' [] w
         in case server_cleanup s w of (s, w) \<Rightarrow>
              (0, s, log_msg INFO_MSG SERVER_RT ''Server shutdown complete'' [] w)))"

section \<open>Facts\<close>

text \<open>A server that could not start has closed its socket again; one that runs has one.\<close>

lemma server_start_result:
  assumes run: "server_start s port w = (r, s', w')" and idle: "\<not> running s"
    and free: "socks w (fd_script w (fd_calls w)) = None"
  shows "r = 0 \<or> r = 1" "r = 1 \<Longrightarrow> \<not> running s' \<and> srv_socket s' = -1 \<and> socks w' = socks w"
    "r = 0 \<Longrightarrow> running s' \<and> srv_port s' = port \<and> 0 \<le> srv_socket s' \<and>
       socks w' = (socks w)(srv_socket s' \<mapsto> sock_script w (fd_calls w))"
proof -
  let ?w = "log_msg INFO_MSG SERVER_RT ''Starting server...'' [] w"
  obtain fd w1 where sk: "sys_socket ?w = (fd, w1)" by force
  have k: "socks w1 = (if fd < 0 then socks w else (socks w)(fd \<mapsto> sock_script w (fd_calls w)))"
      "0 \<le> fd \<Longrightarrow> socks w fd = None"
    using sk free by (auto simp: sys_socket_def Let_def split: if_splits)
  show "r = 0 \<or> r = 1" "r = 1 \<Longrightarrow> \<not> running s' \<and> srv_socket s' = -1 \<and> socks w' = socks w"
    "r = 0 \<Longrightarrow> running s' \<and> srv_port s' = port \<and> 0 \<le> srv_socket s' \<and>
       socks w' = (socks w)(srv_socket s' \<mapsto> sock_script w (fd_calls w))"
    using run idle sk k
    by (auto simp: server_start_def server_create_socket_def server_bind_def server_listen_def server_cleanup_def
        sys_net_def socks_close Let_def fun_upd_idem split: if_splits)
qed

lemma server_accept_result:
  assumes "server_accept s n w = (fd, ip, w')"
  shows "fd = -1 \<or> 0 \<le> fd" "fd = -1 \<Longrightarrow> socks w' = socks w"
    "0 \<le> fd \<Longrightarrow> fd = fd_script w (fd_calls w) \<and> socks w' = (socks w)(fd \<mapsto> sock_script w (fd_calls w))"
    "fd_calls w' = Suc (fd_calls w)" "fd_script w' = fd_script w"
  using assms
  by (auto simp: server_accept_def sys_accept_def sys_socket_def Let_def split: if_splits)

lemma server_shutdown_result:
  assumes "server_shutdown s w = (r, s', w')" and "running s"
  shows "r = 0" "\<not> running s'" "srv_socket s' = -1" "0 \<le> srv_socket s \<Longrightarrow> socks w' = (socks w)(srv_socket s := None)"
  using assms by (auto simp: server_shutdown_def server_cleanup_def socks_close Let_def split: if_splits)

end
