(* ===== verification/ServerEnv.thy ===== *)
theory ServerEnv
  imports ServerCore SessionManager
begin

text \<open>
  The server's command environment, \<^verbatim>\<open>src/commands/server_env.h\<close>,
  \<^verbatim>\<open>server_env.c\<close> and \<^verbatim>\<open>main/server.c\<close>: the commands, the start of the server up
  to the creation of its threads, what the accepting thread does when \<^verbatim>\<open>select\<close> returns,
  and the parts of the shutdown. The theory \<open>Server\<close> runs them as concurrent threads.
\<close>

definition SERVER_SHELL_PREFIX :: string where "SERVER_SHELL_PREFIX = ''sencd-server > ''"

section \<open>Commands\<close>

datatype server_command_func = Idle_Mode | Cmd_Clear | Cmd_Shutdown

definition server_commands :: "(string \<times> server_command_func) list" where
  "server_commands = [(''idle'', Idle_Mode), (''clear'', Cmd_Clear), (''shutdown'', Cmd_Shutdown)]"

text \<open>Is a shutdown requested afterwards?\<close>

definition cmd_shutdown :: "server option \<Rightarrow> bool \<Rightarrow> world \<Rightarrow> bool \<times> world" where
  "cmd_shutdown active_server requested w =
     (let w = w\<lparr>force_logs := True\<rparr>
      in if (case active_server of None \<Rightarrow> True | Some s \<Rightarrow> \<not> running s) then
           (requested, log_msg WARN_MSG SERVER_RT ''Server is not running'' [] w)
         else
           (let w = log_msg INFO_MSG SERVER_RT ''Shutdown requested'' [] w;
                w = w\<lparr>force_logs := False\<rparr>
            in (True, w)))"

text \<open>The idle command need not return.\<close>

definition server_execute_command :: "server option \<Rightarrow> string \<Rightarrow> bool \<Rightarrow> world \<Rightarrow> (bool \<times> world) option" where
  "server_execute_command active_server input requested w =
     (case map_of server_commands input of
        Some Idle_Mode \<Rightarrow> (case idle_mode w of None \<Rightarrow> None | Some w \<Rightarrow> Some (requested, w))
      | Some Cmd_Clear \<Rightarrow> Some (requested, cmd_clear w)
      | Some Cmd_Shutdown \<Rightarrow> Some (cmd_shutdown active_server requested w)
      | None \<Rightarrow>
          (let w = w\<lparr>force_logs := True\<rparr>;
               w = log_msg ERROR_MSG SERVER_RT (''Unknown command'' @ [CHR 0x0A]) [] w;
               w = w\<lparr>force_logs := False\<rparr>
           in Some (requested, w)))"

section \<open>The accepting thread\<close>

definition server_listener_accept ::
    "sodium \<Rightarrow> server \<Rightarrow> session_manager \<Rightarrow> world \<Rightarrow> session_manager \<times> world" where
  "server_listener_accept S srv m w =
     (case server_accept srv INET_ADDRSTRLEN w of (client, client_ip, w) \<Rightarrow>
        if client < 0 then (m, w)
        else
          (case session_manager_connect S m SESSION_SERVER client client_ip w of (s, m, w) \<Rightarrow>
             (m, if s = None then sys_close client w else w)))"

text \<open>
  What the loop does when \<^verbatim>\<open>select\<close> returns: leave, go on with the next pass, or accept the
  client. \<open>intr\<close> tells whether an error was an interrupted call.
\<close>

datatype listener_action = Leave_Loop | Next_Pass | Accept_Client

definition server_listener_wake :: "int \<Rightarrow> bool \<Rightarrow> server \<Rightarrow> listener_action" where
  "server_listener_wake ready intr srv =
     (if \<not> running srv then Leave_Loop
      else if ready < 0 then (if intr then Next_Pass else Leave_Loop)
      else if ready = 0 then Next_Pass
      else Accept_Client)"

section \<open>Start and shutdown\<close>

text \<open>
  \<^verbatim>\<open>start_server_environment\<close> up to the creation of the threads: the server and the
  manager, or none when it returns early.
\<close>

definition server_abort :: "server \<Rightarrow> world \<Rightarrow> (server \<times> session_manager) option \<times> world" where
  "server_abort srv w =
     (case server_shutdown srv (w\<lparr>force_logs := False\<rparr>) of (_, _, w) \<Rightarrow> (None, w))"

definition server_environment_begin ::
    "sodium \<Rightarrow> string list \<Rightarrow> world \<Rightarrow> (server \<times> session_manager) option \<times> world" where
  "server_environment_begin S argv w =
     (let srv = server_init;
          w = w\<lparr>force_logs := True\<rparr>;
          port = (if length argv > 2 then of_int (atoi (argv ! 2)) else SERVER_DEFAULT_PORT)
      in case server_start srv port w of (r, srv, w) \<Rightarrow>
        if r \<noteq> 0 then (None, w\<lparr>force_logs := False\<rparr>)
        else
          (case session_manager_init S w of (r, m, w) \<Rightarrow>
             if r \<noteq> 0 then
               server_abort srv
                 (log_msg ERROR_MSG SERVER_RT ''Failed to initialize session manager'' [] w)
             else
               (case session_manager_udp_bind m port w of (r, m, w) \<Rightarrow>
                  if r \<noteq> 0 then
                    server_abort srv
                      (log_msg ERROR_MSG SERVER_RT ''Failed to start UDP tunnel listener'' [] w)
                  else (Some (srv, m), w\<lparr>force_logs := False\<rparr>))))"

text \<open>What the main thread does after it has joined the accepting thread, and at the end.\<close>

definition close_udp_socket :: "session_manager \<Rightarrow> world \<Rightarrow> world" where
  "close_udp_socket m w = sys_close (manager_socket m) w"

definition server_environment_end :: "session_manager \<Rightarrow> world \<Rightarrow> session_manager \<times> world" where
  "server_environment_end m w = session_manager_disconnect_all m w"

section \<open>main/server.c\<close>

text \<open>
  The arguments of \<^verbatim>\<open>main\<close> select the text that is printed or the start of the environment
  (its early part; \<open>None\<close> in the second component when it does not come to that).
\<close>

datatype server_main_action = Print_Usage | Print_Help | Start_Environment | Print_Invalid

definition server_main :: "string list \<Rightarrow> server_main_action" where
  "server_main argv =
     (if length argv < 2 then Print_Usage
      else if argv ! 1 = ''--help'' then Print_Help
      else if argv ! 1 = ''start'' then Start_Environment
      else Print_Invalid)"

section \<open>Facts\<close>

text \<open>
  The defect behind the double close: when the handshake fails, the session has closed the
  socket, and the accepting thread closes the same descriptor once more.
\<close>

lemma server_listener_accept_result:
  assumes "server_listener_accept S srv m w = (m', w')"
  obtains (none) "m' = m" "socks w' = socks w"
  | (tried) fd addr w1 s w2 where "server_accept srv INET_ADDRSTRLEN w = (fd, addr, w1)" "0 \<le> fd"
      "session_manager_connect S m SESSION_SERVER fd addr w1 = (s, m', w2)"
      "w' = (if s = None then sys_close fd w2 else w2)"
proof -
  obtain fd addr w1 where ac: "server_accept srv INET_ADDRSTRLEN w = (fd, addr, w1)" by (metis prod_cases3)
  note a = server_accept_result [OF ac]
  obtain s m2 w2 where co: "session_manager_connect S m SESSION_SERVER fd addr w1 = (s, m2, w2)"
    by (metis prod_cases3)
  show thesis
  proof (cases "fd < 0")
    case True
    with assms ac a have "m' = m" "socks w' = socks w" by (auto simp: server_listener_accept_def)
    then show thesis by (rule none)
  next
    case False
    with assms ac co have "m' = m2" "w' = (if s = None then sys_close fd w2 else w2)"
      by (auto simp: server_listener_accept_def)
    with ac co False show thesis by (intro tried) auto
  qed
qed

end
