(* ===== verification/Server.thy ===== *)
theory Server
  imports ManagerFacts ServerEnv
begin

text \<open>
  The server as a whole: \<^verbatim>\<open>start_server_environment\<close> with the four threads it runs
  (the main thread, \<^verbatim>\<open>server_listener\<close>, \<^verbatim>\<open>session_manager_udp_listener\<close> and
  \<^verbatim>\<open>session_manager_tun_sender\<close>) as a step relation. A step of a thread is what it does
  from one blocking call or loop head to the next; the steps of different threads interleave
  in any order, \<^verbatim>\<open>select\<close> returns any result, and the environment changes its inputs at
  any time.
\<close>

section \<open>Program counters\<close>

text \<open>
  A thread that loops on \<^verbatim>\<open>select\<close>: before its allocations, at the head of the loop, in
  the call, and after its return. The accepting thread has one more place, from the return of
  \<^verbatim>\<open>select\<close> with a client until the client has been accepted and its handshake is over: there
  it waits as long as a read of the handshake waits. The main thread: at the prompt, in \<^verbatim>\<open>fgets\<close>, in idle
  mode (with the terminal settings to restore), and then one place for each statement of the
  shutdown.
\<close>

datatype thread_pc = Starting | AtHead | InSelect | Finished

datatype listener_pc = LStarting | LAtHead | LInSelect | LAccepting | LFinished

datatype main_pc =
    AtPrompt | Reading | Idling bool | Stopping | JoinListener | CloseUdp | ClearUdp | JoinUdp | JoinTun
  | Disconnecting | Ended

primrec phase :: "main_pc \<Rightarrow> nat" where
  "phase AtPrompt = 0"
| "phase Reading = 0"
| "phase (Idling old) = 0"
| "phase Stopping = 1"
| "phase JoinListener = 2"
| "phase CloseUdp = 3"
| "phase ClearUdp = 4"
| "phase JoinUdp = 5"
| "phase JoinTun = 6"
| "phase Disconnecting = 7"
| "phase Ended = 8"

text \<open>
  The state: the variables of \<^verbatim>\<open>start_server_environment\<close> and of the file, the world, the
  program counters, and as an observation that no step reads, the packets the sender has
  encrypted: the slot of the session, the counter, and the datagram unless encryption failed.
\<close>

record server_state =
  srv :: server
  mgr :: session_manager
  requested :: bool
  env :: world
  main_at :: main_pc
  listener_at :: listener_pc
  udp_at :: thread_pc
  tun_at :: thread_pc
  sealed :: "(nat \<times> u64 \<times> bytes option) list"

section \<open>Idle mode in steps\<close>

definition idle_begin :: "world \<Rightarrow> bool \<times> world" where
  "idle_begin w =
     (case enable_raw_mode w of (old, w) \<Rightarrow>
      let w = w\<lparr>idle_f := True\<rparr>;
          w = cmd_clear w
      in (old, printf (''C-x to exit'' @ [CHR 0x0A, CHR 0x0A]) w))"

definition idle_end :: "bool \<Rightarrow> world \<Rightarrow> world" where
  "idle_end old w = cmd_clear (disable_raw_mode old (w\<lparr>idle_f := False\<rparr>))"

lemma idle_mode_split:
  "idle_mode w = (case idle_begin w of (old, w) \<Rightarrow> map_option (idle_end old) (idle_loop w))"
  by (simp add: idle_mode_def idle_begin_def idle_end_def enable_raw_mode_def Let_def split: option.split)

section \<open>The turns of the threads\<close>

text \<open>The turn of the main thread; none when it waits for another thread or has ended.\<close>

definition main_turn :: "server_state \<Rightarrow> server_state option" where
  "main_turn st =
     (case main_at st of
        AtPrompt \<Rightarrow>
          Some (if requested st then st\<lparr>main_at := Stopping\<rparr>
                else st\<lparr>env := printf SERVER_SHELL_PREFIX (env st), main_at := Reading\<rparr>)
      | Reading \<Rightarrow>
          (case sys_fgets 256 (env st) of
             (None, w) \<Rightarrow> Some (st\<lparr>env := w, main_at := Stopping\<rparr>)
           | (Some line, w) \<Rightarrow>
               if map_of server_commands (cut_newline line) = Some Idle_Mode then
                 (case idle_begin w of (old, w) \<Rightarrow> Some (st\<lparr>env := w, main_at := Idling old\<rparr>))
               else
                 (case server_execute_command (Some (srv st)) (cut_newline line) (requested st) w of
                    None \<Rightarrow> None
                  | Some (req, w) \<Rightarrow> Some (st\<lparr>requested := req, env := w, main_at := AtPrompt\<rparr>)))
      | Idling old \<Rightarrow>
          (case sys_getchar (env st) of (c, w) \<Rightarrow>
             Some (if c = Some EXIT_KEY then st\<lparr>env := idle_end old w, main_at := AtPrompt\<rparr> else st\<lparr>env := w\<rparr>))
      | Stopping \<Rightarrow>
          (case server_shutdown (srv st) (env st) of (_, s, w) \<Rightarrow>
             Some (st\<lparr>srv := s, env := w, main_at := JoinListener\<rparr>))
      | JoinListener \<Rightarrow> if listener_at st = LFinished then Some (st\<lparr>main_at := CloseUdp\<rparr>) else None
      | CloseUdp \<Rightarrow> Some (st\<lparr>env := close_udp_socket (mgr st) (env st), main_at := ClearUdp\<rparr>)
      | ClearUdp \<Rightarrow> Some (st\<lparr>mgr := (mgr st)\<lparr>manager_socket := -1\<rparr>, main_at := JoinUdp\<rparr>)
      | JoinUdp \<Rightarrow> if udp_at st = Finished then Some (st\<lparr>main_at := JoinTun\<rparr>) else None
      | JoinTun \<Rightarrow> if tun_at st = Finished then Some (st\<lparr>main_at := Disconnecting\<rparr>) else None
      | Disconnecting \<Rightarrow>
          (case server_environment_end (mgr st) (env st) of (m, w) \<Rightarrow>
             Some (st\<lparr>mgr := m, env := w, main_at := Ended\<rparr>))
      | Ended \<Rightarrow> None)"

text \<open>
  The turns of the other threads take the result of \<^verbatim>\<open>select\<close>; the accepting thread also
  whether a negative one was an interrupted call. It has no turn while it waits for the client.
\<close>

definition listener_turn :: "sodium \<Rightarrow> int \<Rightarrow> bool \<Rightarrow> server_state \<Rightarrow> server_state option" where
  "listener_turn S ready intr st =
     (case listener_at st of
        LStarting \<Rightarrow> Some (st\<lparr>listener_at := LAtHead\<rparr>)
      | LAtHead \<Rightarrow> Some (st\<lparr>listener_at := if running (srv st) then LInSelect else LFinished\<rparr>)
      | LInSelect \<Rightarrow>
          Some (st\<lparr>listener_at :=
            (case server_listener_wake ready intr (srv st) of
               Leave_Loop \<Rightarrow> LFinished
             | Next_Pass \<Rightarrow> LAtHead
             | Accept_Client \<Rightarrow> LAccepting)\<rparr>)
      | LAccepting \<Rightarrow>
          (case server_listener_accept S (srv st) (mgr st) (env st) of (m, w) \<Rightarrow>
             if stalled w then None else Some (st\<lparr>mgr := m, env := w, listener_at := LAtHead\<rparr>))
      | LFinished \<Rightarrow> None)"

definition udp_turn :: "sodium \<Rightarrow> zstd \<Rightarrow> int \<Rightarrow> server_state \<Rightarrow> server_state option" where
  "udp_turn S Z ready st =
     (case udp_at st of
        Starting \<Rightarrow>
          (case udp_listener_start (env st) of (go, w) \<Rightarrow>
             Some (st\<lparr>env := w, udp_at := if go then AtHead else Finished\<rparr>))
      | AtHead \<Rightarrow>
          Some (if manager_socket (mgr st) \<ge> 0 then st\<lparr>udp_at := InSelect\<rparr>
                else st\<lparr>env := buffers_free (env st), udp_at := Finished\<rparr>)
      | InSelect \<Rightarrow>
          (case udp_listener_wake S Z ready (mgr st) (env st) of (go, m, w) \<Rightarrow>
             Some (if go then st\<lparr>mgr := m, env := w, udp_at := AtHead\<rparr>
                   else st\<lparr>mgr := m, env := buffers_free w, udp_at := Finished\<rparr>))
      | Finished \<Rightarrow> None)"

text \<open>What an observer sees the sender encrypt between two states of the manager.\<close>

definition observe :: "session_manager \<Rightarrow> session_manager \<Rightarrow> world \<Rightarrow> world \<Rightarrow> (nat \<times> u64 \<times> bytes option) list" where
  "observe m m' w w' =
     (case first_slot (\<lambda>i. sessions m ! i \<noteq> sessions m' ! i) 0 [0..<length (sessions m)] of
        None \<Rightarrow> []
      | Some i \<Rightarrow>
          [(i, tx_nonce (crypto (the (sessions m ! i))),
            if length (udp_out w) < length (udp_out w') then Some (snd (snd (last (udp_out w')))) else None)])"

definition tun_turn :: "sodium \<Rightarrow> zstd \<Rightarrow> int \<Rightarrow> server_state \<Rightarrow> server_state option" where
  "tun_turn S Z ready st =
     (case tun_at st of
        Starting \<Rightarrow>
          (case tun_sender_start (mgr st) (env st) of (go, w) \<Rightarrow>
             Some (st\<lparr>env := w, tun_at := if go then AtHead else Finished\<rparr>))
      | AtHead \<Rightarrow>
          Some (if manager_socket (mgr st) \<ge> 0 then st\<lparr>tun_at := InSelect\<rparr>
                else st\<lparr>env := buffers_free (env st), tun_at := Finished\<rparr>)
      | InSelect \<Rightarrow>
          (case tun_sender_wake S Z ready (mgr st) (env st) of (go, m, w) \<Rightarrow>
             Some (if go then
                     st\<lparr>mgr := m, env := w, tun_at := AtHead,
                        sealed := sealed st @ observe (mgr st) m (env st) w\<rparr>
                   else st\<lparr>mgr := m, env := buffers_free w, tun_at := Finished\<rparr>))
      | Finished \<Rightarrow> None)"

datatype actor = Main | Listener | Udp_Receiver | Tun_Sender | Environment

inductive server_step :: "sodium \<Rightarrow> zstd \<Rightarrow> actor \<Rightarrow> server_state \<Rightarrow> server_state \<Rightarrow> bool"
  for S :: sodium and Z :: zstd where
  main: "main_turn st = Some st' \<Longrightarrow> server_step S Z Main st st'"
| listener: "listener_turn S ready intr st = Some st' \<Longrightarrow> listener_at st \<noteq> LAccepting \<or> unused 1 (env st) \<Longrightarrow>
    server_step S Z Listener st st'"
| udp_receiver: "udp_turn S Z ready st = Some st' \<Longrightarrow> server_step S Z Udp_Receiver st st'"
| tun_sender: "tun_turn S Z ready st = Some st' \<Longrightarrow> server_step S Z Tun_Sender st st'"
| environment: "input_change (env st) w \<Longrightarrow> server_step S Z Environment st (st\<lparr>env := w\<rparr>)"

inductive_cases main_stepE: "server_step S Z Main st st'"
inductive_cases listener_stepE: "server_step S Z Listener st st'"
inductive_cases udp_stepE: "server_step S Z Udp_Receiver st st'"
inductive_cases tun_stepE: "server_step S Z Tun_Sender st st'"

definition server_initial :: "server \<Rightarrow> session_manager \<Rightarrow> world \<Rightarrow> server_state" where
  "server_initial s m w =
     \<lparr>srv = s, mgr = m, requested = False, env = w, main_at = AtPrompt,
      listener_at = LStarting, udp_at = Starting, tun_at = Starting, sealed = []\<rparr>"

inductive server_run :: "sodium \<Rightarrow> zstd \<Rightarrow> server_state \<Rightarrow> server_state \<Rightarrow> bool"
  for S :: sodium and Z :: zstd and st0 :: server_state where
  start: "server_run S Z st0 st0"
| step: "server_run S Z st0 st \<Longrightarrow> server_step S Z a st st' \<Longrightarrow> server_run S Z st0 st'"

end
