(* ===== verification/ServerFacts.thy ===== *)
theory ServerFacts
  imports Server
begin

text \<open>
  The invariants of the running server: what each program counter means for the shared
  state, which descriptors are open, how many blocks are allocated, and that no session
  encrypts two packets under the same counter.
\<close>

section \<open>Steps that only talk\<close>

definition open_fds :: "world \<Rightarrow> int set" where
  "open_fds w = {fd. socks w fd \<noteq> None}"

definition quiet :: "world \<Rightarrow> world \<Rightarrow> bool" where
  "quiet w w' \<longleftrightarrow> open_fds w' = open_fds w \<and> leaked w' = leaked w \<and> udp_out w' = udp_out w"

lemma quiet_refl [simp, intro]: "quiet w w"
  by (simp add: quiet_def)

lemma quiet_trans [trans]: "quiet u v \<Longrightarrow> quiet v w \<Longrightarrow> quiet u w"
  by (simp add: quiet_def)

lemma quiet_log_msg [simp]: "quiet w (log_msg t r m as w') \<longleftrightarrow> quiet w w'"
  by (simp add: quiet_def open_fds_def)

lemma quiet_printf: "\<not> is_log_line s \<Longrightarrow> quiet w (printf s w') \<longleftrightarrow> quiet w w'"
  by (simp add: quiet_def open_fds_def leaked_def log_lines_def printf_def)

lemma quiet_update [simp]:
  "quiet w (w'\<lparr>force_logs := b\<rparr>) \<longleftrightarrow> quiet w w'" "quiet w (w'\<lparr>idle_f := b\<rparr>) \<longleftrightarrow> quiet w w'"
  "quiet w (w'\<lparr>tty_raw := b\<rparr>) \<longleftrightarrow> quiet w w'" "quiet w (w'\<lparr>stdin_buf := x\<rparr>) \<longleftrightarrow> quiet w w'"
  by (simp_all add: quiet_def open_fds_def leaked_def log_lines_def)

lemma plain_texts:
  "\<not> is_log_line SERVER_SHELL_PREFIX" "\<not> is_log_line (CHR 0x1B # s)" "\<not> is_log_line (CHR ''C'' # s)"
  by (simp_all add: is_log_line_def SERVER_SHELL_PREFIX_def)

lemma quiet_cmd_clear [simp]: "quiet w (cmd_clear w') \<longleftrightarrow> quiet w w'"
  by (simp add: cmd_clear_def quiet_printf plain_texts)

lemma quiet_idle: "idle_begin w = (old, w') \<Longrightarrow> quiet w w'" "quiet w (idle_end old w)"
  by (auto simp: idle_begin_def idle_end_def enable_raw_mode_def disable_raw_mode_def Let_def quiet_printf plain_texts)

lemma quiet_fgets: "sys_fgets n w = (r, w') \<Longrightarrow> quiet w w'"
  by (auto simp: sys_fgets_def split: if_splits prod.splits)

lemma quiet_getchar: "sys_getchar w = (c, w') \<Longrightarrow> quiet w w'"
  by (auto simp: sys_getchar_def split: list.splits)

lemma quiet_command:
  assumes "server_execute_command s input req w = Some (req', w')" and "map_of server_commands input \<noteq> Some Idle_Mode"
  shows "quiet w w'"
  using assms
  by (auto simp: server_execute_command_def cmd_shutdown_def Let_def
      split: option.splits server_command_func.splits if_splits)

lemma quiet_input: "input_change w w' \<Longrightarrow> quiet w w'"
  by (auto simp: input_change_def quiet_def open_fds_def leaked_def log_lines_def)

lemma quiet_listener_datagram:
  assumes "udp_listener_datagram S Z m w = (m', w')"
  shows "quiet w w'"
proof -
  obtain d w1 where rv: "sys_recvfrom (manager_socket m) TUNNEL_PACKET_MAX_SIZE w = (d, w1)" by force
  have "quiet w w1"
    using rv by (auto simp: sys_recvfrom_def quiet_def open_fds_def leaked_def log_lines_def
        split: list.splits prod.splits if_splits)
  moreover have "quiet w1 (snd (tun_write dev b w1))" for dev b
    by (auto simp: tun_write_def sys_net_def quiet_def open_fds_def leaked_def log_lines_def log_unfold
        is_log_line_def log_line_def log_failure_def Let_def)
  moreover have "w' = w1 \<or> (\<exists>dev b. w' = snd (tun_write dev b w1))"
    using assms rv
    by (auto simp: udp_listener_datagram_def Let_def split: option.splits prod.splits if_splits)
  ultimately show ?thesis by (auto intro: quiet_trans)
qed

lemma sender_packet_fds:
  assumes "tun_sender_packet S Z m w = (m', w')"
  shows "open_fds w' = open_fds w" "leaked w' = leaked w"
proof -
  obtain raw w1 where rd: "tun_read (the (tun m)) TUNNEL_PACKET_MAX_PLAINTEXT w = (raw, w1)" by force
  have 1: "open_fds w1 = open_fds w" "leaked w1 = leaked w"
    using rd by (auto simp: tun_read_def sys_read_packet_def open_fds_def split: option.splits list.splits if_splits)
  have "w' = w1 \<or> (\<exists>inp ctx b w2 fd p. tunnel_packet_encode S inp ctx w1 = (b, w2) \<and>
      (w' = w2 \<or> (\<exists>buf. w' = sys_send_datagram fd p buf w2)))"
    using assms rd
    by (simp add: tun_sender_packet_def Let_def split: option.splits prod.splits if_splits) metis+
  then have "\<exists>v. log_frame w1 v \<and> socks w' = socks v \<and> leaked w' = leaked v"
    by (elim disjE exE conjE) (auto simp: sys_send_datagram_def dest: encode_header(1))
  then obtain v where "log_frame w1 v" "socks w' = socks v" "leaked w' = leaked v" by blast
  then show "open_fds w' = open_fds w" "leaked w' = leaked w"
    using 1 by (simp_all add: log_frame_def open_fds_def)
qed

section \<open>Steps that change one session\<close>

definition slot_fds :: "session_manager \<Rightarrow> int set" where
  "slot_fds m = {fd. \<exists>s. Some s \<in> set (sessions m) \<and> sess_socket s = fd}"

definition distinct_sockets :: "session_manager \<Rightarrow> bool" where
  "distinct_sockets m \<longleftrightarrow>
     (\<forall>i j s t. i < length (sessions m) \<longrightarrow> j < length (sessions m) \<longrightarrow> sessions m ! i = Some s \<longrightarrow>
        sessions m ! j = Some t \<longrightarrow> sess_socket s = sess_socket t \<longrightarrow> i = j)"

text \<open>Well-formed tables of established sessions, each with a socket of its own.\<close>

definition table_ok :: "session_manager \<Rightarrow> bool" where
  "table_ok m \<longleftrightarrow> manager_ok m \<and> holds_good m \<and> distinct_sockets m"

text \<open>The manager after one session was replaced by one on the same socket.\<close>

definition touches :: "session_manager \<Rightarrow> session_manager \<Rightarrow> bool" where
  "touches m m' \<longleftrightarrow>
     (\<exists>i s t. i < length (sessions m) \<and> sessions m ! i = Some s \<and> sess_socket t = sess_socket s \<and>
        tunnel_ip_octet t = tunnel_ip_octet s \<and> good_session t = good_session s \<and>
        m' = m\<lparr>sessions := (sessions m)[i := Some t]\<rparr>)"

lemma slot_fds_nth:
  "slot_fds m = {fd. \<exists>i<length (sessions m). \<exists>s. sessions m ! i = Some s \<and> sess_socket s = fd}"
  by (auto simp: slot_fds_def in_set_conv_nth)

lemma holds_good_nth:
  "holds_good m \<longleftrightarrow> (\<forall>i<length (sessions m). \<forall>s. sessions m ! i = Some s \<longrightarrow> good_session s)"
  by (auto simp: holds_good_def in_set_conv_nth)

lemma touches_keeps:
  assumes "touches m m'"
  shows "slot_fds m' = slot_fds m" "occupied (sessions m') = occupied (sessions m)" "tun m' = tun m"
    "manager_socket m' = manager_socket m" "table_ok m \<Longrightarrow> table_ok m'"
proof -
  obtain i s t where i: "i < length (sessions m)" "sessions m ! i = Some s" "sess_socket t = sess_socket s"
      "tunnel_ip_octet t = tunnel_ip_octet s" "good_session t = good_session s"
      and m': "m' = m\<lparr>sessions := (sessions m)[i := Some t]\<rparr>"
    using assms unfolding touches_def by blast
  have "(\<exists>u. sessions m' ! j = Some u \<and> sess_socket u = fd) \<longleftrightarrow> (\<exists>u. sessions m ! j = Some u \<and> sess_socket u = fd)"
    for j fd
    using i(1-3) m' by (cases "j = i") auto
  then show "slot_fds m' = slot_fds m"
    using m' unfolding slot_fds_nth by simp
  show "occupied (sessions m') = occupied (sessions m)" "tun m' = tun m" "manager_socket m' = manager_socket m"
    using i(1,2) m' by (simp_all add: occupied_replace)
  show "table_ok m'" if t: "table_ok m"
  proof -
    have "manager_ok m'"
      using t i m' by (auto simp: table_ok_def manager_ok_def occupied_replace nth_list_update)
    moreover have "holds_good m'"
      using t i m' by (auto simp: table_ok_def holds_good_nth nth_list_update)
    moreover have "distinct_sockets m'"
      unfolding distinct_sockets_def
    proof (intro allI impI)
      fix j k u v
      assume a: "j < length (sessions m')" "k < length (sessions m')" "sessions m' ! j = Some u"
        "sessions m' ! k = Some v" "sess_socket u = sess_socket v"
      have "\<exists>u'. sessions m ! j = Some u' \<and> sess_socket u' = sess_socket u"
           "\<exists>v'. sessions m ! k = Some v' \<and> sess_socket v' = sess_socket v"
        using a i(1-3) m' by (auto simp: nth_list_update split: if_splits)
      then show "j = k"
        using t a(1,2,5) m' unfolding table_ok_def distinct_sockets_def by (metis length_list_update session_manager.ext_inject session_manager.surjective session_manager.update_convs(1))
    qed
    ultimately show ?thesis by (simp add: table_ok_def)
  qed
qed

lemma rebind_good [simp]: "good_session (rebind a s) = good_session s"
  by (simp add: good_session_def)

lemma listener_datagram_touches:
  assumes "udp_listener_datagram S Z m w = (m', w')" and "manager_ok m"
  shows "m' = m \<or> touches m m'"
proof -
  have "length (sessions m) = MAX_SESSIONS" using assms(2) by (simp add: manager_ok_def)
  with udp_listener_datagram_result(3) [OF assms] show ?thesis
    unfolding touches_def by (metis rebind_simps(4,5) rebind_good)
qed

lemma sender_packet_touches:
  assumes "tun_sender_packet S Z m w = (m', w')" and "manager_ok m"
  shows "m' = m \<or> touches m m'"
proof -
  have len: "length (sessions m) = MAX_SESSIONS" using assms(2) by (simp add: manager_ok_def)
  have g: "good_session (s\<lparr>crypto := (crypto s)\<lparr>tx_nonce := n\<rparr>\<rparr>) = good_session s" for s n
    by (simp add: good_session_def)
  from tun_sender_packet_result(1) [OF assms] consider "m' = m"
    | i s where "i < MAX_SESSIONS" "sessions m ! i = Some s"
      "m' = m\<lparr>sessions := (sessions m)[i := Some (s\<lparr>crypto := (crypto s)\<lparr>tx_nonce := tx_nonce (crypto s) + 1\<rparr>\<rparr>)]\<rparr>"
    by blast
  then show ?thesis
  proof cases
    case 2
    then show ?thesis
      unfolding touches_def
      by (intro disjI2 exI [of _ i] exI [of _ s] exI [of _ "s\<lparr>crypto := (crypto s)\<lparr>tx_nonce := tx_nonce (crypto s) + 1\<rparr>\<rparr>"])
        (simp add: len g)
  qed simp
qed

section \<open>Accepting a client\<close>

text \<open>A manager with one more session, new in all respects, on a socket that was not in use.\<close>

definition admits :: "int \<Rightarrow> session_manager \<Rightarrow> session_manager \<Rightarrow> bool" where
  "admits fd m m' \<longleftrightarrow>
     (\<exists>i<MAX_SESSIONS. \<exists>s. sessions m ! i = None \<and> good_session s \<and> sess_socket s = fd \<and>
        tx_nonce (crypto s) = 0 \<and> tunnel_ip_octet s = of_nat (i + 2) \<and>
        m' = mutex_unlock (m\<lparr>sessions := (sessions m)[i := Some s], session_count := session_count m + 1\<rparr>))"

lemma distinct_sockets_add:
  assumes d: "distinct_sockets m" and "i < length (sessions m)" and "sessions m ! i = None"
    and new: "sess_socket s \<notin> slot_fds m" and ss: "sessions m' = (sessions m)[i := Some s]"
  shows "distinct_sockets m'"
  unfolding distinct_sockets_def
proof (intro allI impI)
  fix j k u v
  assume a: "j < length (sessions m')" "k < length (sessions m')" "sessions m' ! j = Some u"
    "sessions m' ! k = Some v" "sess_socket u = sess_socket v"
  have len: "length (sessions m') = length (sessions m)" using ss by simp
  have other: "n \<noteq> i \<Longrightarrow> sessions m' ! n = sessions m ! n" for n using ss by simp
  have n: "x \<noteq> i \<Longrightarrow> sessions m' ! x = Some y \<Longrightarrow> x < length (sessions m) \<Longrightarrow> sess_socket y \<noteq> sess_socket s" for x y
    using new other unfolding slot_fds_nth mem_Collect_eq by metis
  have at: "sessions m' ! i = Some s" using ss assms(2) by simp
  show "j = k"
  proof (cases "j = i \<or> k = i")
    case True
    then show ?thesis using a at n len by (metis option.inject)
  next
    case False
    then show ?thesis using a other len d unfolding distinct_sockets_def by metis
  qed
qed

lemma admits_keeps:
  assumes "admits fd m m'" and "table_ok m" and "fd \<notin> slot_fds m"
  shows "table_ok m'" "slot_fds m' = insert fd (slot_fds m)" "occupied (sessions m') = Suc (occupied (sessions m))"
    "tun m' = tun m" "manager_socket m' = manager_socket m"
proof -
  obtain i s where i: "i < MAX_SESSIONS" "sessions m ! i = None" "good_session s" "sess_socket s = fd"
      "tunnel_ip_octet s = of_nat (i + 2)"
      and m': "m' = mutex_unlock (m\<lparr>sessions := (sessions m)[i := Some s], session_count := session_count m + 1\<rparr>)"
    using assms(1) unfolding admits_def by blast
  have len: "length (sessions m) = MAX_SESSIONS" and ok: "manager_ok m" "holds_good m" "distinct_sockets m"
    using assms(2) by (simp_all add: table_ok_def manager_ok_def)
  have ss: "sessions m' = (sessions m)[i := Some s]" using m' by simp
  have "place_session i s = s" using i(5) by (simp add: place_session_def)
  with manager_ok_fill [OF ok(1) i(1,2), of s] m' have "manager_ok m'" by simp
  moreover have "holds_good m'"
    using ok(2) i ss len by (auto simp: holds_good_nth nth_list_update)
  moreover have "distinct_sockets m'"
    by (rule distinct_sockets_add [OF ok(3) _ i(2) _ ss]) (use assms(3) i(1,4) len in simp_all)
  ultimately show "table_ok m'" by (simp add: table_ok_def)
  have "Some u \<in> set (sessions m') \<longleftrightarrow> u = s \<or> Some u \<in> set (sessions m)" for u
  proof -
    have "set (sessions m') \<subseteq> insert (Some s) (set (sessions m))" using ss set_update_subset_insert by metis
    moreover have "Some s \<in> set (sessions m')" using ss i(1) len set_update_memI by metis
    moreover have "Some u \<in> set (sessions m')" if old: "Some u \<in> set (sessions m)"
    proof -
      obtain j where j: "j < length (sessions m)" "sessions m ! j = Some u" using old unfolding in_set_conv_nth by blast
      then have "sessions m' ! j = Some u" using i(2) ss by (cases "j = i") simp_all
      with j(1) ss show ?thesis by (metis length_list_update nth_mem)
    qed
    ultimately show ?thesis by blast
  qed
  then show "slot_fds m' = insert fd (slot_fds m)"
    unfolding slot_fds_def set_eq_iff mem_Collect_eq insert_iff using i(4) by metis
  show "occupied (sessions m') = Suc (occupied (sessions m))"
    using ss occupied_fill [of i "sessions m"] i(1,2) len by simp
  show "tun m' = tun m" "manager_socket m' = manager_socket m" using m' by simp_all
qed

lemma server_accept_fds:
  assumes "server_accept s n w = (fd, addr, w')" and "unused 1 w"
  shows "fd < 0 \<Longrightarrow> quiet w w'" "leaked w' = leaked w" "udp_out w' = udp_out w"
    "0 \<le> fd \<Longrightarrow> fd \<notin> open_fds w \<and> open_fds w' = insert fd (open_fds w)"
  using assms
  by (auto simp: server_accept_def sys_accept_def sys_socket_def Let_def quiet_def open_fds_def unused_def
      leaked_def log_lines_def log_unfold is_log_line_def log_line_def log_failure_def split: if_splits)

text \<open>
  A turn of the accepting thread admits a client on a new socket or leaves the table, the
  open descriptors and the heap as they were.
\<close>

lemma server_listener_accept_effect:
  assumes run: "server_listener_accept S sv m w = (m', w')" and m: "table_ok m" and free: "unused 1 w"
    and sub: "slot_fds m \<subseteq> open_fds w"
  shows "m' = m \<and> quiet w w' \<or>
    (\<exists>fd. 0 \<le> fd \<and> fd \<notin> open_fds w \<and> admits fd m m' \<and> open_fds w' = insert fd (open_fds w) \<and>
      leaked w' = leaked w + 1 \<and> udp_out w' = udp_out w)"
proof -
  obtain fd addr w1 where ac: "server_accept sv INET_ADDRSTRLEN w = (fd, addr, w1)" by (metis prod_cases3)
  note a = server_accept_fds [OF ac free]
  obtain r m2 w2 where co: "session_manager_connect S m SESSION_SERVER fd addr w1 = (r, m2, w2)" by (metis prod_cases3)
  have eq: "(m', w') = (if fd < 0 then (m, w1) else (m2, if r = None then sys_close fd w2 else w2))"
    unfolding run [symmetric] by (simp add: server_listener_accept_def ac co)
  show ?thesis
  proof (cases "fd < 0")
    case True
    with eq a(1) show ?thesis by simp
  next
    case False
    then have pos: "0 \<le> fd" by simp
    have ok: "manager_ok m" using m by (simp add: table_ok_def)
    note c = session_manager_connect_result [OF co ok pos]
    have mw: "m' = m2" "w' = (if r = None then sys_close fd w2 else w2)" using eq False by simp_all
    note a4 = a(4) [OF pos]
    show ?thesis
    proof (cases r)
      case None
      have k: "m2 = m" "leaked w2 = leaked w1" "\<And>fd'. fd' \<noteq> fd \<Longrightarrow> socks w2 fd' = socks w1 fd'"
        using c(1) [OF None] by blast+
      have "open_fds w' = open_fds w2 - {fd}" "leaked w' = leaked w2" "udp_out w' = udp_out w2"
        using mw None by (auto simp: open_fds_def socks_close)
      moreover have "open_fds w2 - {fd} = open_fds w1 - {fd}" using k(3) unfolding open_fds_def by force
      ultimately have "quiet w w'" using a(2,3) a4 k(2) c(3) by (auto simp: quiet_def)
      with k(1) mw show ?thesis by simp
    next
      case (Some s)
      note k = c(2) [OF Some]
      have ad: "admits fd m m2" using k unfolding admits_def by fast
      have "socks w2 fd' \<noteq> None \<longleftrightarrow> fd' = fd \<or> fd' \<in> open_fds w" for fd'
        using k a4 by (cases "fd' = fd") (auto simp: open_fds_def)
      then have "open_fds w2 = insert fd (open_fds w)" unfolding open_fds_def [of w2] by blast
      moreover have "leaked w2 = leaked w1 + 1" using k by fast
      ultimately have "0 \<le> fd \<and> fd \<notin> open_fds w \<and> admits fd m m' \<and> open_fds w' = insert fd (open_fds w) \<and>
          leaked w' = leaked w + 1 \<and> udp_out w' = udp_out w"
        using mw Some a(2,3) a4 c(3) pos ad by simp
      then show ?thesis by blast
    qed
  qed
qed

end
