(* ===== verification/ServerSafety.thy ===== *)
theory ServerSafety
  imports ServerFacts
begin

text \<open>
  The invariants of the interleaved server and what follows from them: when the main thread
  has ended, every descriptor is closed and every block is freed; no session encrypts two
  packets under one counter; and a shutdown that has begun comes to its end.
\<close>

section \<open>The invariant\<close>

text \<open>What the place of the main thread says about the shared state.\<close>

definition control_ok :: "server_state \<Rightarrow> bool" where
  "control_ok st \<longleftrightarrow>
     (running (srv st) \<longleftrightarrow> phase (main_at st) \<le> 1) \<and>
     (0 \<le> manager_socket (mgr st) \<longleftrightarrow> phase (main_at st) \<le> 4) \<and>
     (3 \<le> phase (main_at st) \<longrightarrow> listener_at st = LFinished) \<and>
     (6 \<le> phase (main_at st) \<longrightarrow> udp_at st = Finished) \<and>
     (7 \<le> phase (main_at st) \<longrightarrow> tun_at st = Finished) \<and>
     (tun (mgr st) = None \<longleftrightarrow> phase (main_at st) = 8) \<and>
     (phase (main_at st) = 8 \<longrightarrow> occupied (sessions (mgr st)) = 0)"

definition dev_fds :: "session_manager \<Rightarrow> int set" where
  "dev_fds m = (case tun m of None \<Rightarrow> {} | Some d \<Rightarrow> {dev_fd d})"

text \<open>The open descriptors are those of the sessions and the three of the server itself.\<close>

definition fds_ok :: "server_state \<Rightarrow> bool" where
  "fds_ok st \<longleftrightarrow>
     open_fds (env st) = slot_fds (mgr st) \<union>
       (if phase (main_at st) \<le> 1 then {srv_socket (srv st)} else {}) \<union>
       (if phase (main_at st) \<le> 3 then {manager_socket (mgr st)} else {}) \<union> dev_fds (mgr st) \<and>
     (\<forall>fd \<in> dev_fds (mgr st). 0 \<le> fd \<and> fd \<notin> slot_fds (mgr st)) \<and>
     (phase (main_at st) \<le> 1 \<longrightarrow> 0 \<le> srv_socket (srv st) \<and>
        srv_socket (srv st) \<notin> slot_fds (mgr st) \<union> dev_fds (mgr st) \<union> {manager_socket (mgr st)}) \<and>
     (phase (main_at st) \<le> 3 \<longrightarrow> manager_socket (mgr st) \<notin> slot_fds (mgr st) \<union> dev_fds (mgr st))"

text \<open>The blocks in use: one per session, three per packet thread, one for the device.\<close>

definition thread_blocks :: "thread_pc \<Rightarrow> int" where
  "thread_blocks pc = (if pc = AtHead \<or> pc = InSelect then 3 else 0)"

definition blocks_held :: "server_state \<Rightarrow> int" where
  "blocks_held st = int (occupied (sessions (mgr st))) + thread_blocks (udp_at st) + thread_blocks (tun_at st) +
     (if tun (mgr st) = None then 0 else 1)"

definition server_ok :: "int \<Rightarrow> server_state \<Rightarrow> bool" where
  "server_ok base st \<longleftrightarrow>
     table_ok (mgr st) \<and> control_ok st \<and> fds_ok st \<and> leaked (env st) = base + blocks_held st"

section \<open>Every step keeps it\<close>

lemma server_ok_quiet:
  assumes "server_ok base st" and "quiet (env st) w" and "phase pc = phase (main_at st)"
  shows "server_ok base (st\<lparr>env := w, main_at := pc\<rparr>)" "server_ok base (st\<lparr>env := w\<rparr>)"
    "server_ok base (st\<lparr>main_at := pc\<rparr>)" "server_ok base (st\<lparr>requested := b, env := w, main_at := pc\<rparr>)"
  using assms
  by (simp_all add: server_ok_def control_ok_def fds_ok_def blocks_held_def quiet_def)

lemma sys_close_fds: "open_fds (sys_close fd w) = open_fds w - {fd}" "udp_out (sys_close fd w) = udp_out w"
  by (auto simp: open_fds_def socks_close)

lemma server_ok_stop:
  assumes "server_ok base st" and "main_at st = AtPrompt \<or> main_at st = Reading"
  shows "server_ok base (st\<lparr>main_at := Stopping\<rparr>)"
  using assms by (auto simp: server_ok_def control_ok_def fds_ok_def blocks_held_def)

lemma server_ok_shutdown:
  assumes ok: "server_ok base st" and at: "main_at st = Stopping" and sd: "server_shutdown (srv st) (env st) = (r, s, w)"
  shows "server_ok base (st\<lparr>srv := s, env := w, main_at := JoinListener\<rparr>)"
proof -
  have r: "running (srv st)" "0 \<le> srv_socket (srv st)"
    using ok at by (simp_all add: server_ok_def control_ok_def fds_ok_def)
  have s: "\<not> running s" "open_fds w = open_fds (env st) - {srv_socket (srv st)}" "leaked w = leaked (env st)"
    using sd r by (auto simp: server_shutdown_def server_cleanup_def open_fds_def socks_close Let_def split: if_splits)
  show ?thesis
    using ok at s by (auto simp: server_ok_def control_ok_def fds_ok_def blocks_held_def)
qed

lemma server_ok_disconnect:
  assumes ok: "server_ok base st" and at: "main_at st = Disconnecting"
    and dc: "session_manager_disconnect_all (mgr st) (env st) = (m, w)"
  shows "server_ok base (st\<lparr>mgr := m, env := w, main_at := Ended\<rparr>)"
proof -
  have t: "manager_ok (mgr st)" "holds_good (mgr st)" using ok by (simp_all add: server_ok_def table_ok_def)
  note d = session_manager_disconnect_all_result [OF dc t]
  have o: "open_fds w = open_fds (env st) - slot_fds (mgr st) - dev_fds (mgr st)"
    using ok unfolding open_fds_def d(7)
    by (auto simp: slot_fds_def dev_fds_def server_ok_def fds_ok_def split: option.splits if_splits)
  have fin: "udp_at st = Finished" "tun_at st = Finished" "listener_at st = LFinished" "tun (mgr st) \<noteq> None"
      "manager_socket (mgr st) < 0" "\<not> running (srv st)"
    using ok at by (simp_all add: server_ok_def control_ok_def not_le)
  have "slot_fds m = {}" "dev_fds m = {}" "occupied (sessions m) = 0"
    using d(1,3) by (auto simp: slot_fds_def dev_fds_def occupied_def)
  moreover have "table_ok m"
    using d(1,4) by (auto simp: table_ok_def holds_good_def distinct_sockets_def)
  ultimately show ?thesis
    using ok at o d fin by (auto simp: server_ok_def control_ok_def fds_ok_def blocks_held_def thread_blocks_def)
qed

lemma server_ok_main:
  assumes ok: "server_ok base st" and run: "main_turn st = Some st'"
  shows "server_ok base st'"
proof (cases "main_at st")
  case AtPrompt
  have "quiet (env st) (printf SERVER_SHELL_PREFIX (env st))" by (simp add: quiet_printf plain_texts)
  with ok AtPrompt run server_ok_stop show ?thesis
    by (auto simp: main_turn_def intro: server_ok_quiet split: if_splits)
next
  case Reading
  obtain line w where fg: "sys_fgets 256 (env st) = (line, w)" by force
  note q = quiet_fgets [OF fg]
  have ok1: "server_ok base (st\<lparr>env := w\<rparr>)" by (rule server_ok_quiet(2) [OF ok q refl])
  show ?thesis
  proof (cases line)
    case None
    then have "st' = st\<lparr>env := w\<rparr>\<lparr>main_at := Stopping\<rparr>" using run Reading fg by (simp add: main_turn_def)
    with server_ok_stop [OF ok1] Reading show ?thesis by simp
  next
    case (Some input)
    show ?thesis
    proof (cases "map_of server_commands (cut_newline input) = Some Idle_Mode")
      case True
      obtain old v where ib: "idle_begin w = (old, v)" by force
      then have "st' = st\<lparr>env := v, main_at := Idling old\<rparr>"
        using run Reading fg Some True by (simp add: main_turn_def)
      with server_ok_quiet(1) [OF ok quiet_trans [OF q quiet_idle(1) [OF ib]], of "Idling old"] Reading
      show ?thesis by simp
    next
      case False
      then obtain req v where ex: "server_execute_command (Some (srv st)) (cut_newline input) (requested st) w = Some (req, v)"
          and st': "st' = st\<lparr>requested := req, env := v, main_at := AtPrompt\<rparr>"
        using run Reading fg Some by (auto simp: main_turn_def split: option.splits)
      from server_ok_quiet(4) [OF ok quiet_trans [OF q quiet_command [OF ex False]], of AtPrompt req] Reading st'
      show ?thesis by simp
    qed
  qed
next
  case (Idling old)
  obtain c w where gc: "sys_getchar (env st) = (c, w)" by force
  note q = quiet_getchar [OF gc]
  show ?thesis
    using run Idling gc server_ok_quiet(1) [OF ok quiet_trans [OF q quiet_idle(2) [of w old]], of AtPrompt]
      server_ok_quiet(2) [OF ok q refl]
    by (auto simp: main_turn_def split: if_splits)
next
  case Stopping
  obtain r s w where sd: "server_shutdown (srv st) (env st) = (r, s, w)" by (metis prod_cases3)
  from server_ok_shutdown [OF ok Stopping sd] run Stopping sd show ?thesis by (simp add: main_turn_def)
next
  case Disconnecting
  obtain m w where dc: "session_manager_disconnect_all (mgr st) (env st) = (m, w)" by force
  from server_ok_disconnect [OF ok Disconnecting dc] run Disconnecting dc show ?thesis
    by (simp add: main_turn_def server_environment_end_def)
next
  case CloseUdp
  have "open_fds (sys_close (manager_socket (mgr st)) (env st)) = open_fds (env st) - {manager_socket (mgr st)}"
    by (rule sys_close_fds)
  with ok run CloseUdp show ?thesis
    by (auto simp: main_turn_def close_udp_socket_def server_ok_def control_ok_def fds_ok_def blocks_held_def)
next
  case ClearUdp
  with ok run show ?thesis
    by (auto simp: main_turn_def server_ok_def control_ok_def fds_ok_def blocks_held_def table_ok_def manager_ok_def
        holds_good_def distinct_sockets_def slot_fds_def dev_fds_def)
next
  case JoinListener
  with ok run show ?thesis
    by (auto simp: main_turn_def server_ok_def control_ok_def fds_ok_def blocks_held_def split: if_splits)
next
  case JoinUdp
  with ok run show ?thesis
    by (auto simp: main_turn_def server_ok_def control_ok_def fds_ok_def blocks_held_def split: if_splits)
next
  case JoinTun
  with ok run show ?thesis
    by (auto simp: main_turn_def server_ok_def control_ok_def fds_ok_def blocks_held_def split: if_splits)
next
  case Ended
  with run show ?thesis by (simp add: main_turn_def)
qed

text \<open>A step of another thread that leaves the program counter of the main thread alone.\<close>

lemma server_ok_sent:
  assumes ok: "server_ok base st" and q: "open_fds w = open_fds (env st)" "leaked w = leaked (env st)"
    and t: "m = mgr st \<or> touches (mgr st) m"
  shows "server_ok base (st\<lparr>mgr := m, env := w\<rparr>)"
  using t
proof
  assume "m = mgr st"
  with ok q show ?thesis by (simp add: server_ok_def control_ok_def fds_ok_def blocks_held_def)
next
  assume t: "touches (mgr st) m"
  have "table_ok (mgr st)" using ok by (simp add: server_ok_def)
  note k = touches_keeps(1-4) [OF t] touches_keeps(5) [OF t this]
  have "dev_fds m = dev_fds (mgr st)" using k(3) by (simp add: dev_fds_def)
  with ok q k show ?thesis
    by (simp add: server_ok_def control_ok_def fds_ok_def blocks_held_def)
qed

lemma server_ok_touch:
  "server_ok base st \<Longrightarrow> quiet (env st) w \<Longrightarrow> m = mgr st \<or> touches (mgr st) m \<Longrightarrow>
   server_ok base (st\<lparr>mgr := m, env := w\<rparr>)"
  by (rule server_ok_sent) (simp_all add: quiet_def)

lemma server_ok_admits:
  assumes ok: "server_ok base st" and ph: "phase (main_at st) < 3" and new: "0 \<le> fd" "fd \<notin> open_fds (env st)" and ad: "admits fd (mgr st) m"
    and w: "open_fds w = insert fd (open_fds (env st))" "leaked w = leaked (env st) + 1"
  shows "server_ok base (st\<lparr>mgr := m, env := w\<rparr>)"
proof -
  have t: "table_ok (mgr st)" "fd \<notin> slot_fds (mgr st)"
    using ok new(2) by (auto simp: server_ok_def fds_ok_def)
  note k = admits_keeps [OF ad t]
  have d: "dev_fds m = dev_fds (mgr st)" using k(4) by (simp add: dev_fds_def)
  have "fds_ok (st\<lparr>mgr := m, env := w\<rparr>)"
    using ok new w d k(2,5) by (auto simp: server_ok_def fds_ok_def split: if_splits)
  with ok w k ph show ?thesis
    by (simp add: server_ok_def control_ok_def blocks_held_def)
qed

lemma server_ok_pc:
  "server_ok base st \<Longrightarrow> phase (main_at st) < 3 \<or> pc = LFinished \<Longrightarrow> server_ok base (st\<lparr>listener_at := pc\<rparr>)"
  by (auto simp: server_ok_def control_ok_def fds_ok_def blocks_held_def)

lemma server_ok_listener:
  assumes ok: "server_ok base st" and run: "listener_turn S ready intr st = Some st'"
    and free: "listener_at st \<noteq> LAccepting \<or> unused 1 (env st)"
  shows "server_ok base st'"
proof -
  have ph: "phase (main_at st) < 3" if "listener_at st \<noteq> LFinished"
    using ok that by (auto simp: server_ok_def control_ok_def)
  show ?thesis
  proof (cases "listener_at st = LAccepting")
    case True
    obtain m w where ac: "server_listener_accept S (srv st) (mgr st) (env st) = (m, w)" by force
    have st': "st' = st\<lparr>mgr := m, env := w\<rparr>\<lparr>listener_at := LAtHead\<rparr>"
      using run True ac by (simp add: listener_turn_def split: if_splits)
    have t: "table_ok (mgr st)" "slot_fds (mgr st) \<subseteq> open_fds (env st)"
      using ok by (auto simp: server_ok_def fds_ok_def)
    from server_listener_accept_effect [OF ac t(1) _ t(2)] free True
    consider "m = mgr st" "quiet (env st) w" | fd where "0 \<le> fd" "fd \<notin> open_fds (env st)" "admits fd (mgr st) m"
        "open_fds w = insert fd (open_fds (env st))" "leaked w = leaked (env st) + 1" by auto
    then have "server_ok base (st\<lparr>mgr := m, env := w\<rparr>)"
    proof cases
      case 1
      with server_ok_touch [OF ok] show ?thesis by blast
    next
      case 2
      show ?thesis by (rule server_ok_admits [OF ok _ 2]) (use ph True in simp)
    qed
    with st' ph True show ?thesis by (auto intro!: server_ok_pc)
  qed (use run ok ph in \<open>auto simp: listener_turn_def intro!: server_ok_pc split: listener_pc.splits if_splits\<close>)
qed

lemma leaked_three:
  "allocate_three w = (a, b, c, w') \<Longrightarrow>
     leaked w' = leaked w + (if a then 1 else 0) + (if b then 1 else 0) + (if c then 1 else 0) \<and>
     open_fds w' = open_fds w \<and> udp_out w' = udp_out w"
  "leaked (free_three a b c w) = leaked w - (if a then 1 else 0) - (if b then 1 else 0) - (if c then 1 else 0)"
  "open_fds (free_three a b c w) = open_fds w" "udp_out (free_three a b c w) = udp_out w"
  by (auto simp: allocate_three_def free_three_def sys_malloc_def sys_free_def open_fds_def leaked_def log_lines_def
      Let_def)

lemma start_effect:
  assumes "udp_listener_start w = (go, w') \<or> tun_sender_start m w = (go, w')"
  shows "open_fds w' = open_fds w" "udp_out w' = udp_out w" "leaked w' = leaked w + (if go then 3 else 0)"
proof -
  obtain a b c v where al: "allocate_three w = (a, b, c, v)" by (metis prod_cases4)
  note l = leaked_three(1) [OF al]
  have f: "leaked (x\<lparr>force_logs := t\<rparr>) = leaked x" "open_fds (x\<lparr>force_logs := t\<rparr>) = open_fds x" for x t
    by (simp_all add: leaked_def log_lines_def open_fds_def)
  have udp: "udp_out (x\<lparr>force_logs := t\<rparr>) = udp_out x" for x t by simp
  have g: "open_fds (log_msg t r k as x) = open_fds x" for t r k as x by (simp add: open_fds_def)
  have l': "leaked v = leaked w + (if a then 1 else 0) + (if b then 1 else 0) + (if c then 1 else 0)"
    "open_fds v = open_fds w" "udp_out v = udp_out w" using l by blast+
  note s = fst_conv snd_conv if_True if_False not_True_eq_False not_False_eq_True simp_thms f g l' udp
    leaked_log_msg log_msg_frame leaked_three(2-) add_0_right diff_0_right add_diff_cancel_right'
  have "if go then a \<and> b \<and> c \<and> w' = v
    else open_fds w' = open_fds w \<and> udp_out w' = udp_out w \<and> leaked w' = leaked w"
    using assms
  proof
    assume "udp_listener_start w = (go, w')"
    then have gw: "go = fst (udp_listener_start w)" "w' = snd (udp_listener_start w)" by simp_all
    show ?thesis unfolding gw udp_listener_start_def al prod.case by (cases a; cases b; cases c) (simp_all only: s)
  next
    assume "tun_sender_start m w = (go, w')"
    then have gw: "go = fst (tun_sender_start m w)" "w' = snd (tun_sender_start m w)" by simp_all
    show ?thesis
      unfolding gw tun_sender_start_def al Let_def prod.case
      by (cases "tun m = None"; cases a; cases b; cases c) (simp_all only: s)
  qed
  then show "open_fds w' = open_fds w" "udp_out w' = udp_out w" "leaked w' = leaked w + (if go then 3 else 0)"
    using l by (auto split: if_splits)
qed

text \<open>The packet threads: starting, leaving the loop, and a change of place inside the loop.\<close>

lemma server_ok_start:
  assumes ok: "server_ok base st" and w: "open_fds w = open_fds (env st)" "leaked w = leaked (env st) + (if go then 3 else 0)"
  shows "udp_at st = Starting \<Longrightarrow> server_ok base (st\<lparr>env := w, udp_at := if go then AtHead else Finished\<rparr>)"
    "tun_at st = Starting \<Longrightarrow> server_ok base (st\<lparr>env := w, tun_at := if go then AtHead else Finished\<rparr>)"
  using ok w by (auto simp: server_ok_def control_ok_def fds_ok_def blocks_held_def thread_blocks_def)

lemma server_ok_loop:
  assumes ok: "server_ok base st" and pc: "pc = AtHead \<or> pc = InSelect"
  shows "udp_at st = AtHead \<or> udp_at st = InSelect \<Longrightarrow> server_ok base (st\<lparr>udp_at := pc\<rparr>)"
    "tun_at st = AtHead \<or> tun_at st = InSelect \<Longrightarrow> server_ok base (st\<lparr>tun_at := pc\<rparr>)"
    "tun_at st = AtHead \<or> tun_at st = InSelect \<Longrightarrow> server_ok base (st\<lparr>tun_at := pc, sealed := l\<rparr>)"
  using ok pc by (elim disjE; simp add: server_ok_def control_ok_def fds_ok_def blocks_held_def thread_blocks_def)+

lemma server_ok_leave:
  assumes ok: "server_ok base st"
  shows "udp_at st = AtHead \<or> udp_at st = InSelect \<Longrightarrow>
      server_ok base (st\<lparr>env := buffers_free (env st), udp_at := Finished\<rparr>)"
    "tun_at st = AtHead \<or> tun_at st = InSelect \<Longrightarrow>
      server_ok base (st\<lparr>env := buffers_free (env st), tun_at := Finished\<rparr>)"
  using ok
  by (auto simp: server_ok_def control_ok_def fds_ok_def blocks_held_def thread_blocks_def buffers_free_def
      leaked_three(2-))

lemma server_ok_udp:
  assumes ok: "server_ok base st" and run: "udp_turn S Z ready st = Some st'"
  shows "server_ok base st'"
proof (cases "udp_at st")
  case Starting
  obtain go w where sw: "udp_listener_start (env st) = (go, w)" by force
  note e = start_effect(1,3) [OF disjI1 [OF sw]]
  from server_ok_start(1) [OF ok e Starting] run Starting sw show ?thesis by (simp add: udp_turn_def)
next
  case AtHead
  with ok run server_ok_leave(1) [OF ok] server_ok_loop(1) [OF ok] show ?thesis
    by (auto simp: udp_turn_def split: if_splits)
next
  case InSelect
  obtain go m w where wk: "udp_listener_wake S Z ready (mgr st) (env st) = (go, m, w)" by (metis prod_cases3)
  have "manager_ok (mgr st)" using ok by (simp add: server_ok_def table_ok_def)
  moreover have "(m = mgr st \<and> w = env st) \<or> udp_listener_datagram S Z (mgr st) (env st) = (m, w)"
    using wk by (auto simp: udp_listener_wake_def split: if_splits)
  ultimately have "m = mgr st \<or> touches (mgr st) m" "quiet (env st) w"
    by (auto dest: listener_datagram_touches quiet_listener_datagram)
  then have ok1: "server_ok base (st\<lparr>mgr := m, env := w\<rparr>)" using server_ok_touch [OF ok] by blast
  from run InSelect wk have "st' = (if go then st\<lparr>mgr := m, env := w\<rparr>\<lparr>udp_at := AtHead\<rparr>
      else (st\<lparr>mgr := m, env := w\<rparr>)\<lparr>env := buffers_free w, udp_at := Finished\<rparr>)"
    by (auto simp: udp_turn_def)
  with server_ok_leave(1) [OF ok1] server_ok_loop(1) [OF ok1, of AtHead] InSelect show ?thesis
    by (auto split: if_splits)
next
  case Finished
  with run show ?thesis by (simp add: udp_turn_def)
qed

lemma server_ok_tun:
  assumes ok: "server_ok base st" and run: "tun_turn S Z ready st = Some st'"
  shows "server_ok base st'"
proof (cases "tun_at st")
  case Starting
  obtain go w where sw: "tun_sender_start (mgr st) (env st) = (go, w)" by force
  note e = start_effect(1,3) [OF disjI2 [OF sw]]
  from server_ok_start(2) [OF ok e Starting] run Starting sw show ?thesis by (simp add: tun_turn_def)
next
  case AtHead
  with ok run server_ok_leave(2) [OF ok] server_ok_loop(2) [OF ok] show ?thesis
    by (auto simp: tun_turn_def split: if_splits)
next
  case InSelect
  obtain go m w where wk: "tun_sender_wake S Z ready (mgr st) (env st) = (go, m, w)" by (metis prod_cases3)
  have mo: "manager_ok (mgr st)" using ok by (simp add: server_ok_def table_ok_def)
  have "(m = mgr st \<and> w = env st) \<or> tun_sender_packet S Z (mgr st) (env st) = (m, w)"
    using wk by (auto simp: tun_sender_wake_def split: if_splits)
  then have ok1: "server_ok base (st\<lparr>mgr := m, env := w\<rparr>)"
  proof
    assume p: "tun_sender_packet S Z (mgr st) (env st) = (m, w)"
    show ?thesis by (rule server_ok_sent [OF ok sender_packet_fds [OF p] sender_packet_touches [OF p mo]])
  qed (use ok in simp)
  from run InSelect wk have "st' = (if go then st\<lparr>mgr := m, env := w\<rparr>\<lparr>tun_at := AtHead,
        sealed := sealed st @ observe (mgr st) m (env st) w\<rparr>
      else (st\<lparr>mgr := m, env := w\<rparr>)\<lparr>env := buffers_free w, tun_at := Finished\<rparr>)"
    by (auto simp: tun_turn_def)
  with server_ok_leave(2) [OF ok1] server_ok_loop(3) [OF ok1, of AtHead] InSelect show ?thesis
    by (auto split: if_splits)
next
  case Finished
  with run show ?thesis by (simp add: tun_turn_def)
qed

lemma server_ok_step:
  assumes "server_step S Z a st st'" and "server_ok base st"
  shows "server_ok base st'"
  using assms
proof cases
  case (environment w)
  with assms(2) server_ok_quiet(2) [OF assms(2) quiet_input refl] show ?thesis by simp
qed (blast intro: assms(2) server_ok_main server_ok_listener server_ok_udp server_ok_tun)+

lemma server_ok_run: "server_run S Z st0 st \<Longrightarrow> server_ok base st0 \<Longrightarrow> server_ok base st"
  by (induction rule: server_run.induct) (auto intro: server_ok_step)

section \<open>The end of a run\<close>

lemma server_ended:
  assumes "server_ok base st" and "main_at st = Ended"
  shows "open_fds (env st) = {}" "leaked (env st) = base" "sessions (mgr st) = replicate MAX_SESSIONS None"
proof -
  have o: "occupied (sessions (mgr st)) = 0" and len: "length (sessions (mgr st)) = MAX_SESSIONS"
    and t: "tun (mgr st) = None" and f: "udp_at st = Finished" "tun_at st = Finished"
    using assms by (simp_all add: server_ok_def control_ok_def table_ok_def manager_ok_def)
  have n: "x = None" if "x \<in> set (sessions (mgr st))" for x
    using o that by (auto simp: occupied_def filter_empty_conv)
  then show "sessions (mgr st) = replicate MAX_SESSIONS None" using len by (metis replicate_length_same)
  have "slot_fds (mgr st) = {}" using n unfolding slot_fds_def by blast
  with assms t show "open_fds (env st) = {}" by (simp add: server_ok_def fds_ok_def dev_fds_def)
  show "leaked (env st) = base"
    using assms o t f by (simp add: server_ok_def blocks_held_def thread_blocks_def)
qed

section \<open>A shutdown that has begun ends\<close>

text \<open>
  The thread whose turn the shutdown is waiting for, and how many turns of the awaited
  threads are left at most. A thread that starts needs its allocations, the test at the head
  of its loop, and, when that succeeded just before the descriptor was cleared, the test after
  \<^verbatim>\<open>select\<close>.
\<close>

definition awaited :: "server_state \<Rightarrow> actor" where
  "awaited st =
     (if main_at st = JoinListener \<and> listener_at st \<noteq> LFinished then Listener
      else if main_at st = JoinUdp \<and> udp_at st \<noteq> Finished then Udp_Receiver
      else if main_at st = JoinTun \<and> tun_at st \<noteq> Finished then Tun_Sender
      else Main)"

primrec turns_left :: "thread_pc \<Rightarrow> nat" where
  "turns_left Starting = 2"
| "turns_left AtHead = 1"
| "turns_left InSelect = 1"
| "turns_left Finished = 0"

primrec listener_turns_left :: "listener_pc \<Rightarrow> nat" where
  "listener_turns_left LStarting = 2"
| "listener_turns_left LAtHead = 1"
| "listener_turns_left LInSelect = 1"
| "listener_turns_left LAccepting = 2"
| "listener_turns_left LFinished = 0"

definition shutdown_rank :: "server_state \<Rightarrow> nat" where
  "shutdown_rank st =
     4 * (8 - phase (main_at st)) +
     (if main_at st = JoinListener then listener_turns_left (listener_at st)
      else if main_at st = JoinUdp then turns_left (udp_at st)
      else if main_at st = JoinTun then turns_left (tun_at st) else 0)"

lemma turns_left_le: "turns_left pc \<le> 2" "listener_turns_left lpc \<le> 2"
  by (cases pc; simp) (cases lpc; simp)

lemma main_turn_phase:
  assumes "main_turn st = Some st'" and "1 \<le> phase (main_at st)"
  shows "phase (main_at st') = Suc (phase (main_at st))" "phase (main_at st) \<le> 7"
    "listener_at st' = listener_at st" "udp_at st' = udp_at st" "tun_at st' = tun_at st"
  using assms by (auto simp: main_turn_def split: main_pc.splits if_splits prod.splits)

lemma phase_rank: "phase (main_at st') = Suc (phase (main_at st)) \<Longrightarrow> phase (main_at st) \<le> 7 \<Longrightarrow>
  shutdown_rank st' < shutdown_rank st"
  using turns_left_le(2) [of "listener_at st'"] turns_left_le(1) [of "udp_at st'"] turns_left_le(1) [of "tun_at st'"]
  by (auto simp: shutdown_rank_def)

lemma main_turn_enabled:
  assumes "1 \<le> phase (main_at st)" and "main_at st \<noteq> Ended" and "awaited st = Main"
  shows "\<exists>st'. main_turn st = Some st'"
  using assms by (cases "main_at st") (auto simp: main_turn_def awaited_def split: if_splits prod.splits)

lemma listener_turn_stops:
  assumes run: "listener_turn S ready intr st = Some st'" and "\<not> running (srv st)"
  shows "main_at st' = main_at st" "listener_turns_left (listener_at st') < listener_turns_left (listener_at st)"
    "udp_at st' = udp_at st" "tun_at st' = tun_at st"
  using assms
  by (auto simp: listener_turn_def server_listener_wake_def split: listener_pc.splits if_splits prod.splits)

lemma udp_turn_stops:
  assumes run: "udp_turn S Z ready st = Some st'"
  shows "main_at st' = main_at st" "listener_at st' = listener_at st" "tun_at st' = tun_at st"
    "manager_socket (mgr st) < 0 \<Longrightarrow> turns_left (udp_at st') < turns_left (udp_at st)"
  using assms
  by (auto simp: udp_turn_def udp_listener_wake_def split: thread_pc.splits if_splits prod.splits)

lemma tun_turn_stops:
  assumes run: "tun_turn S Z ready st = Some st'"
  shows "main_at st' = main_at st" "listener_at st' = listener_at st" "udp_at st' = udp_at st"
    "manager_socket (mgr st) < 0 \<Longrightarrow> turns_left (tun_at st') < turns_left (tun_at st)"
  using assms
  by (auto simp: tun_turn_def tun_sender_wake_def split: thread_pc.splits if_splits prod.splits)

text \<open>
  Once the main thread has left its loop, some step of the awaited thread is possible until
  the main thread has ended, unless that is the accepting thread with a client it has accepted, every such step lowers the rank, and no step of any other thread
  raises it: a schedule that gives the awaited threads their turns ends the server after at
  most 28 of them.
\<close>

definition shutdown_waits :: "server_state \<Rightarrow> bool" where
  "shutdown_waits st \<longleftrightarrow> main_at st = JoinListener \<and> listener_at st = LAccepting"

lemma shutdown_enabled:
  assumes "1 \<le> phase (main_at st)" and "main_at st \<noteq> Ended" and "\<not> shutdown_waits st"
  shows "\<exists>st'. server_step S Z (awaited st) st st'"
proof -
  have l: "\<exists>st'. listener_turn S 0 False st = Some st'" if "listener_at st \<noteq> LFinished" "listener_at st \<noteq> LAccepting"
    using that by (cases "listener_at st") (auto simp: listener_turn_def split: prod.splits)
  have u: "\<exists>st'. udp_turn S Z 0 st = Some st'" if "udp_at st \<noteq> Finished"
    using that by (cases "udp_at st") (auto simp: udp_turn_def split: prod.splits)
  have t: "\<exists>st'. tun_turn S Z 0 st = Some st'" if "tun_at st \<noteq> Finished"
    using that by (cases "tun_at st") (auto simp: tun_turn_def split: prod.splits)
  have m: "\<exists>st'. main_turn st = Some st'" if "awaited st = Main"
    by (rule main_turn_enabled [OF assms(1,2) that])
  show ?thesis
  proof (cases "awaited st")
    case Main
    with m show ?thesis by (metis server_step.main)
  next
    case Listener
    then have "listener_at st \<noteq> LFinished" "listener_at st \<noteq> LAccepting"
      using assms(3) by (auto simp: awaited_def shutdown_waits_def split: if_splits)
    with l Listener show ?thesis by (metis server_step.listener)
  next
    case Udp_Receiver
    then have "udp_at st \<noteq> Finished" by (auto simp: awaited_def split: if_splits)
    with u Udp_Receiver show ?thesis by (metis server_step.udp_receiver)
  next
    case Tun_Sender
    then have "tun_at st \<noteq> Finished" by (auto simp: awaited_def split: if_splits)
    with t Tun_Sender show ?thesis by (metis server_step.tun_sender)
  next
    case Environment
    then show ?thesis by (simp add: awaited_def split: if_splits)
  qed
qed

lemma shutdown_lowers:
  assumes step: "server_step S Z a st st'" and ok: "server_ok base st" and ph: "1 \<le> phase (main_at st)"
  shows "1 \<le> phase (main_at st')" "shutdown_rank st' \<le> shutdown_rank st"
    "main_at st \<noteq> Ended \<Longrightarrow> a = awaited st \<Longrightarrow> shutdown_rank st' < shutdown_rank st"
proof -
  have run: "main_at st = JoinListener \<Longrightarrow> \<not> running (srv st)"
      and sock: "main_at st = JoinUdp \<or> main_at st = JoinTun \<Longrightarrow> manager_socket (mgr st) < 0"
    using ok by (auto simp: server_ok_def control_ok_def not_le)
  have "1 \<le> phase (main_at st') \<and> shutdown_rank st' \<le> shutdown_rank st \<and>
      (main_at st \<noteq> Ended \<longrightarrow> a = awaited st \<longrightarrow> shutdown_rank st' < shutdown_rank st)"
    using step
  proof cases
    case main
    note p = main_turn_phase [OF main(2) ph]
    from phase_rank [OF p(1,2)] p(1) show ?thesis by simp
  next
    case (listener ready intr)
    have m: "main_at st' = main_at st" "udp_at st' = udp_at st" "tun_at st' = tun_at st"
      using listener(2) by (auto simp: listener_turn_def split: listener_pc.splits prod.splits if_splits)
    with listener_turn_stops(2) [OF listener(2)] run ph listener(1) show ?thesis
      by (auto simp: shutdown_rank_def awaited_def split: if_splits)
  next
    case (udp_receiver ready)
    with udp_turn_stops [OF udp_receiver(2)] sock ph show ?thesis
      by (auto simp: shutdown_rank_def awaited_def split: if_splits)
  next
    case (tun_sender ready)
    with tun_turn_stops [OF tun_sender(2)] sock ph show ?thesis
      by (auto simp: shutdown_rank_def awaited_def split: if_splits)
  next
    case (environment w)
    with ph show ?thesis by (simp add: shutdown_rank_def awaited_def)
  qed
  then show "1 \<le> phase (main_at st')" "shutdown_rank st' \<le> shutdown_rank st"
    "main_at st \<noteq> Ended \<Longrightarrow> a = awaited st \<Longrightarrow> shutdown_rank st' < shutdown_rank st" by blast+
qed

lemma shutdown_rank_bound: "1 \<le> phase (main_at st) \<Longrightarrow> shutdown_rank st \<le> 28"
  using turns_left_le(2) [of "listener_at st"] turns_left_le(1) [of "udp_at st"] turns_left_le(1) [of "tun_at st"]
  by (cases "main_at st") (auto simp: shutdown_rank_def)

end
