(* ===== verification/ServerNonces.thy ===== *)
theory ServerNonces
  imports ServerSafety
begin

text \<open>
  The counters of the server's sender: each session encrypts its packets under 0, 1, 2 and so
  on, whatever the other threads do, and what has left on the UDP socket is what the sender
  has encrypted.
\<close>

section \<open>The observed packets\<close>

definition counters_of :: "nat \<Rightarrow> (nat \<times> u64 \<times> bytes option) list \<Rightarrow> u64 list" where
  "counters_of i l = map (fst \<circ> snd) (filter (\<lambda>e. fst e = i) l)"

lemma counters_of_simps [simp]:
  "counters_of i [] = []" "counters_of i (l @ l') = counters_of i l @ counters_of i l'"
  "counters_of i (e # l) = (if fst e = i then [fst (snd e)] else []) @ counters_of i l"
  by (simp_all add: counters_of_def)

lemma length_counters_of: "length (counters_of i l) \<le> length l"
  by (simp add: counters_of_def)

lemma distinct_counters:
  "(\<And>i. distinct (counters_of i l)) \<Longrightarrow> distinct (map (\<lambda>e. (fst e, fst (snd e))) l)"
proof (induction l)
  case (Cons e l)
  have "distinct (counters_of i l)" for i using Cons.prems [of i] by simp
  moreover have "fst (snd e) \<notin> set (counters_of (fst e) l)" using Cons.prems [of "fst e"] by simp
  then have "(fst e, fst (snd e)) \<notin> set (map (\<lambda>e. (fst e, fst (snd e))) l)"
    by (auto simp: counters_of_def)
  ultimately show ?case using Cons.IH by simp
qed simp

lemma distinct_of_nat:
  assumes "k < 2 ^ 64"
  shows "distinct (map of_nat [0..<k] :: u64 list)"
proof -
  have "unat (of_nat x :: u64) = x" if "x \<in> set [0..<k]" for x
    using that assms by (intro unat_of_nat_small) simp
  then have "inj_on (of_nat :: nat \<Rightarrow> u64) (set [0..<k])" by (rule inj_on_inverseI [of _ unat])
  then show ?thesis by (simp add: distinct_map)
qed

definition is_sealed :: "sodium \<Rightarrow> session \<Rightarrow> u64 \<Rightarrow> bytes \<Rightarrow> bool" where
  "is_sealed S s n d \<longleftrightarrow>
     (\<exists>m c. d = tunnel_header (session_id s, n) @ c \<and>
        aead_encrypt S m (zeros 4 @ bytes_be 8 n) (tx_key (crypto s)) = Some c)"

text \<open>What a slot of the table knows of the packets observed for it.\<close>

definition slot_ok :: "sodium \<Rightarrow> nat \<Rightarrow> session option \<Rightarrow> (nat \<times> u64 \<times> bytes option) list \<Rightarrow> bool" where
  "slot_ok S i x l \<longleftrightarrow>
     (case x of
        None \<Rightarrow> counters_of i l = []
      | Some s \<Rightarrow> tx_nonce (crypto s) = of_nat (length (counters_of i l)) \<and>
          (\<forall>n d. (i, n, Some d) \<in> set l \<longrightarrow> is_sealed S s n d))"

definition nonces_ok :: "sodium \<Rightarrow> bytes list \<Rightarrow> server_state \<Rightarrow> bool" where
  "nonces_ok S out0 st \<longleftrightarrow>
     (\<forall>e \<in> set (sealed st). fst e < MAX_SESSIONS) \<and>
     (\<forall>i. counters_of i (sealed st) = map of_nat [0..<length (counters_of i (sealed st))]) \<and>
     map (snd \<circ> snd) (udp_out (env st)) = out0 @ List.map_filter (snd \<circ> snd) (sealed st) \<and>
     (main_at st \<noteq> Ended \<longrightarrow> (\<forall>i<MAX_SESSIONS. slot_ok S i (sessions (mgr st) ! i) (sealed st)))"

section \<open>Every step keeps the count\<close>

definition same_keys :: "session \<Rightarrow> session \<Rightarrow> bool" where
  "same_keys s t \<longleftrightarrow> session_id t = session_id s \<and> tx_key (crypto t) = tx_key (crypto s)"

definition slot_rel :: "session option \<Rightarrow> session option \<Rightarrow> bool" where
  "slot_rel x y \<longleftrightarrow>
     (case (x, y) of
        (None, None) \<Rightarrow> True
      | (None, Some t) \<Rightarrow> tx_nonce (crypto t) = 0
      | (Some s, None) \<Rightarrow> False
      | (Some s, Some t) \<Rightarrow> same_keys s t \<and> tx_nonce (crypto t) = tx_nonce (crypto s))"

lemma slot_rel_refl [simp]: "slot_rel x x"
  by (cases x) (simp_all add: slot_rel_def same_keys_def)

lemma is_sealed_same: "same_keys s t \<Longrightarrow> is_sealed S t n d = is_sealed S s n d"
  by (simp add: is_sealed_def same_keys_def)

lemma counters_of_empty: "counters_of i l = [] \<Longrightarrow> (i, n, d) \<notin> set l"
  by (force simp: counters_of_def filter_empty_conv)

lemma slot_ok_rel: "slot_ok S i x l \<Longrightarrow> slot_rel x y \<Longrightarrow> slot_ok S i y l"
  by (cases x; cases y) (auto simp: slot_ok_def slot_rel_def is_sealed_same counters_of_empty)

lemma nonces_ok_frame:
  assumes "nonces_ok S out0 st" and "sealed st' = sealed st" and "udp_out (env st') = udp_out (env st)"
    and "main_at st' = Ended \<or> main_at st \<noteq> Ended \<and>
      (\<forall>i<MAX_SESSIONS. slot_rel (sessions (mgr st) ! i) (sessions (mgr st') ! i))"
  shows "nonces_ok S out0 st'"
  using assms by (auto simp: nonces_ok_def intro: slot_ok_rel)

lemma nonces_ok_main:
  assumes n: "nonces_ok S out0 st" and ok: "server_ok base st" and run: "main_turn st = Some st'"
  shows "nonces_ok S out0 st'"
proof -
  have t: "manager_ok (mgr st)" "holds_good (mgr st)" using ok by (simp_all add: server_ok_def table_ok_def)
  have "main_at st \<noteq> Ended" using run by (auto simp: main_turn_def)
  moreover have "sealed st' = sealed st"
    using run by (auto simp: main_turn_def split: main_pc.splits if_splits prod.splits option.splits)
  moreover have "main_at st' = Ended \<or> sessions (mgr st') = sessions (mgr st)"
    using run by (auto simp: main_turn_def split: main_pc.splits if_splits prod.splits option.splits)
  moreover have "udp_out (env st') = udp_out (env st)"
  proof (cases "main_at st")
    case Reading
    then show ?thesis
      using run
      by (auto simp: main_turn_def quiet_def dest!: quiet_fgets quiet_idle(1) quiet_command
          split: if_splits prod.splits option.splits)
  next
    case (Idling old)
    obtain c w where gc: "sys_getchar (env st) = (c, w)" by force
    with quiet_getchar [OF gc] quiet_idle(2) [of w old] run Idling show ?thesis
      by (auto simp: main_turn_def quiet_def split: if_splits)
  next
    case Stopping
    then show ?thesis
      using run by (auto simp: main_turn_def server_shutdown_def server_cleanup_def Let_def split: prod.splits if_splits)
  next
    case Disconnecting
    obtain m w where dc: "session_manager_disconnect_all (mgr st) (env st) = (m, w)" by force
    with session_manager_disconnect_all_result(8) [OF dc t] run Disconnecting show ?thesis
      by (auto simp: main_turn_def server_environment_end_def)
  qed (use run in \<open>auto simp: main_turn_def printf_def close_udp_socket_def split: if_splits\<close>)
  ultimately show ?thesis using nonces_ok_frame [OF n] by auto
qed

lemma nonces_ok_touch:
  assumes "nonces_ok S out0 st" and "main_at st \<noteq> Ended" and "main_at st' = main_at st" and "sealed st' = sealed st"
    and "udp_out (env st') = udp_out (env st)" and "i < length (sessions (mgr st))" and "slot_rel (sessions (mgr st) ! i) x"
    and "sessions (mgr st') = (sessions (mgr st))[i := x]"
  shows "nonces_ok S out0 st'"
  using assms by (intro nonces_ok_frame [OF assms(1)]) (auto simp: nth_list_update)

lemma nonces_ok_listener:
  assumes n: "nonces_ok S out0 st" and ok: "server_ok base st" and run: "listener_turn S' ready intr st = Some st'"
    and free: "listener_at st \<noteq> LAccepting \<or> unused 1 (env st)"
  shows "nonces_ok S out0 st'"
proof -
  have at: "main_at st \<noteq> Ended" if "listener_at st \<noteq> LFinished"
    using ok that by (auto simp: server_ok_def control_ok_def)
  have same: "sealed st' = sealed st" "main_at st' = main_at st"
    using run by (auto simp: listener_turn_def split: listener_pc.splits prod.splits if_splits)
  show ?thesis
  proof (cases "listener_at st = LAccepting")
    case False
    with run at same show ?thesis
      by (intro nonces_ok_frame [OF n]) (auto simp: listener_turn_def split: listener_pc.splits)
  next
    case True
    obtain m w where ac: "server_listener_accept S' (srv st) (mgr st) (env st) = (m, w)" by force
    have st': "mgr st' = m" "env st' = w" using run True ac by (auto simp: listener_turn_def split: if_splits)
    have t: "table_ok (mgr st)" "slot_fds (mgr st) \<subseteq> open_fds (env st)"
      using ok by (auto simp: server_ok_def fds_ok_def)
    have len: "length (sessions (mgr st)) = MAX_SESSIONS" using t(1) by (simp add: table_ok_def manager_ok_def)
    from server_listener_accept_effect [OF ac t(1) _ t(2)] free True
    consider "m = mgr st" "udp_out w = udp_out (env st)"
      | fd where "admits fd (mgr st) m" "udp_out w = udp_out (env st)" by (auto simp: quiet_def)
    then show ?thesis
    proof cases
      case 1
      with same st' at True show ?thesis by (intro nonces_ok_frame [OF n]) auto
    next
      case 2
      then obtain i s where "i < MAX_SESSIONS" "sessions (mgr st) ! i = None" "tx_nonce (crypto s) = 0"
          "sessions m = (sessions (mgr st))[i := Some s]" unfolding admits_def by auto
      with 2 same st' at True len show ?thesis
        by (intro nonces_ok_touch [OF n, where i = i and x = "Some s"]) (auto simp: slot_rel_def)
    qed
  qed
qed

lemma nonces_ok_udp:
  assumes n: "nonces_ok S out0 st" and ok: "server_ok base st" and run: "udp_turn S' Z ready st = Some st'"
  shows "nonces_ok S out0 st'"
proof -
  have at: "main_at st \<noteq> Ended" if "udp_at st \<noteq> Finished"
    using ok that by (auto simp: server_ok_def control_ok_def)
  have same: "sealed st' = sealed st" "main_at st' = main_at st"
    using run by (auto simp: udp_turn_def split: thread_pc.splits prod.splits if_splits)
  have bf: "udp_out (buffers_free w) = udp_out w" for w by (simp add: buffers_free_def leaked_three)
  show ?thesis
  proof (cases "udp_at st = InSelect")
    case False
    with run at same start_effect(2) [OF disjI1] show ?thesis
      by (intro nonces_ok_frame [OF n])
        (auto simp: udp_turn_def bf split: thread_pc.splits prod.splits if_splits)
  next
    case True
    have mo: "manager_ok (mgr st)" using ok by (simp add: server_ok_def table_ok_def)
    have len: "length (sessions (mgr st)) = MAX_SESSIONS" using mo by (simp add: manager_ok_def)
    obtain go m w where wk: "udp_listener_wake S' Z ready (mgr st) (env st) = (go, m, w)"
      by (metis prod_cases3)
    have st': "mgr st' = m" "udp_out (env st') = udp_out w" using run True wk by (auto simp: udp_turn_def bf split: if_splits)
    consider "m = mgr st" "w = env st" | "udp_listener_datagram S' Z (mgr st) (env st) = (m, w)"
      using wk by (auto simp: udp_listener_wake_def split: if_splits)
    then show ?thesis
    proof cases
      case 1
      with same st' at True show ?thesis by (intro nonces_ok_frame [OF n]) auto
    next
      case 2
      note r = udp_listener_datagram_result [OF 2 mo]
      from r(3) consider "m = mgr st" | i addr s where "i < MAX_SESSIONS" "sessions (mgr st) ! i = Some s"
          "m = (mgr st)\<lparr>sessions := (sessions (mgr st))[i := Some (rebind addr s)]\<rparr>" by blast
      then show ?thesis
      proof cases
        case 1
        with same st' at True r(1) show ?thesis by (intro nonces_ok_frame [OF n]) auto
      next
        case (2 i addr s)
        with same st' at True r(1) len show ?thesis
          by (intro nonces_ok_touch [OF n, where i = i and x = "Some (rebind addr s)"])
            (auto simp: slot_rel_def same_keys_def)
      qed
    qed
  qed
qed

text \<open>A packet the sender encrypts is observed, under the counter its session had.\<close>

lemma observe_same: "sessions m' = sessions m \<Longrightarrow> observe m m' w w' = []"
  by (simp add: observe_def first_slot_None [THEN iffD2])

lemma observe_changed:
  assumes "i < length (sessions m)" and "sessions m ! i = Some s" and "sessions m' = (sessions m)[i := Some t]" and "t \<noteq> s"
  shows "observe m m' w w' = [(i, tx_nonce (crypto s),
    if length (udp_out w) < length (udp_out w') then Some (snd (snd (last (udp_out w')))) else None)]"
proof -
  have "first_slot (\<lambda>j. sessions m ! j \<noteq> sessions m' ! j) 0 [0..<length (sessions m)] = Some i"
    using assms by (auto simp: first_slot_0)
  with assms(2) show ?thesis by (simp add: observe_def)
qed

lemma nonces_ok_send:
  assumes n: "nonces_ok S out0 st" and ok: "server_ok base st" and at: "main_at st \<noteq> Ended" "main_at st' = main_at st"
    and snd: "tun_sender_packet S Z (mgr st) (env st) = (m, w)"
    and st': "mgr st' = m" "udp_out (env st') = udp_out w" "sealed st' = sealed st @ observe (mgr st) m (env st) w"
  shows "nonces_ok S out0 st'"
proof -
  have mo: "manager_ok (mgr st)" using ok by (simp add: server_ok_def table_ok_def)
  have len: "length (sessions (mgr st)) = MAX_SESSIONS" using mo by (simp add: manager_ok_def)
  from tun_sender_packet_result(1) [OF snd mo]
  consider "m = mgr st" "udp_out w = udp_out (env st)"
    | i s where "i < MAX_SESSIONS" "sessions (mgr st) ! i = Some s"
      "m = (mgr st)\<lparr>sessions := (sessions (mgr st))[i := Some (s\<lparr>crypto := (crypto s)\<lparr>tx_nonce := tx_nonce (crypto s) + 1\<rparr>\<rparr>)]\<rparr>"
      "udp_out w = udp_out (env st) \<or> (\<exists>p d. udp_out w = udp_out (env st) @ [(manager_socket (mgr st), p, d)] \<and>
         is_sealed S s (tx_nonce (crypto s)) d)"
    unfolding is_sealed_def crypto_build_nonce_be by blast
  then show ?thesis
  proof cases
    case 1
    with at st' show ?thesis by (intro nonces_ok_frame [OF n]) (auto simp: observe_same)
  next
    case (2 i s)
    let ?t = "s\<lparr>crypto := (crypto s)\<lparr>tx_nonce := tx_nonce (crypto s) + 1\<rparr>\<rparr>"
    have "tx_nonce (crypto ?t) \<noteq> tx_nonce (crypto s)" by simp
    then have "?t \<noteq> s" by metis
    with 2 len obtain d where ob: "observe (mgr st) m (env st) w = [(i, tx_nonce (crypto s), d)]"
        and d: "map (snd \<circ> snd) (udp_out w) = map (snd \<circ> snd) (udp_out (env st)) @ (case d of None \<Rightarrow> [] | Some x \<Rightarrow> [x])"
          "\<And>x. d = Some x \<Longrightarrow> is_sealed S s (tx_nonce (crypto s)) x"
      using observe_changed [of i "mgr st" s m ?t "env st" w] by auto
    have so: "slot_ok S j (sessions (mgr st) ! j) (sealed st)" if "j < MAX_SESSIONS" for j
      using n at(1) that by (simp add: nonces_ok_def)
    from so [OF 2(1)] 2(2) have c: "tx_nonce (crypto s) = of_nat (length (counters_of i (sealed st)))"
        "\<And>k x. (i, k, Some x) \<in> set (sealed st) \<Longrightarrow> is_sealed S s k x" by (simp_all add: slot_ok_def)
    obtain t where t: "t = ?t" by blast
    have keys: "same_keys s t" "tx_nonce (crypto t) = of_nat (Suc (length (counters_of i (sealed st))))"
      using c(1) by (simp_all add: t same_keys_def)
    have mt: "sessions m = (sessions (mgr st))[i := Some t]" using 2(3) by (simp add: t)
    have "slot_ok S j (sessions m ! j) (sealed st')" if "j < MAX_SESSIONS" for j
    proof (cases "j = i")
      case True
      have "is_sealed S t n x" if "(i, n, Some x) \<in> set (sealed st')" for n x
        using that c(2) d(2) st'(3) ob by (auto simp: is_sealed_same [OF keys(1)])
      with True mt len 2(1) st'(3) ob keys(2) show ?thesis by (simp add: slot_ok_def)
    next
      case False
      with so [OF that] mt st' ob show ?thesis by (auto simp: slot_ok_def split: option.splits)
    qed
    moreover have "counters_of j (sealed st') = map of_nat [0..<length (counters_of j (sealed st'))]" for j
      using n st' ob c(1) by (auto simp: nonces_ok_def)
    moreover have "map (snd \<circ> snd) (udp_out w) = out0 @ List.map_filter (snd \<circ> snd) (sealed st')"
      using n st' ob d(1) by (auto simp: nonces_ok_def map_filter_def split: option.splits)
    moreover have "fst e < MAX_SESSIONS" if "e \<in> set (sealed st')" for e
      using n that st'(3) ob 2(1) by (auto simp: nonces_ok_def)
    ultimately show ?thesis using st' by (simp add: nonces_ok_def)
  qed
qed

lemma nonces_ok_tun:
  assumes n: "nonces_ok S out0 st" and ok: "server_ok base st" and run: "tun_turn S Z ready st = Some st'"
  shows "nonces_ok S out0 st'"
proof -
  have at: "main_at st \<noteq> Ended" if "tun_at st \<noteq> Finished"
    using ok that by (auto simp: server_ok_def control_ok_def)
  have same: "main_at st' = main_at st"
    using run by (auto simp: tun_turn_def split: thread_pc.splits prod.splits if_splits)
  have bf: "udp_out (buffers_free w) = udp_out w" for w by (simp add: buffers_free_def leaked_three)
  show ?thesis
  proof (cases "tun_at st = InSelect")
    case False
    with run at same start_effect(2) [OF disjI2] show ?thesis
      by (intro nonces_ok_frame [OF n])
        (auto simp: tun_turn_def bf split: thread_pc.splits prod.splits if_splits)
  next
    case True
    obtain go m w where wk: "tun_sender_wake S Z ready (mgr st) (env st) = (go, m, w)"
      by (metis prod_cases3)
    consider "m = mgr st" "w = env st" | "go" "tun_sender_packet S Z (mgr st) (env st) = (m, w)"
      using wk by (auto simp: tun_sender_wake_def split: if_splits)
    then show ?thesis
    proof cases
      case 1
      with run True wk at same show ?thesis
        by (intro nonces_ok_frame [OF n]) (auto simp: tun_turn_def bf observe_same split: if_splits)
    next
      case 2
      then have "st' = st\<lparr>mgr := m, env := w, tun_at := AtHead, sealed := sealed st @ observe (mgr st) m (env st) w\<rparr>"
        using run True wk by (simp add: tun_turn_def)
      with at True show ?thesis by (intro nonces_ok_send [OF n ok _ _ 2(2)]) simp_all
    qed
  qed
qed

lemma nonces_ok_step:
  assumes "server_step S Z a st st'" and "server_ok base st" and "nonces_ok S out0 st"
  shows "nonces_ok S out0 st'"
  using assms(1)
proof cases
  case (environment w)
  then have "udp_out w = udp_out (env st)" by (simp add: input_change_def)
  with environment assms(3) show ?thesis by (simp add: nonces_ok_def)
next
  case main
  then show ?thesis by (intro nonces_ok_main [OF assms(3,2)])
next
  case (listener ready intr)
  then show ?thesis by (intro nonces_ok_listener [OF assms(3,2)])
next
  case (udp_receiver ready)
  then show ?thesis by (intro nonces_ok_udp [OF assms(3,2)])
next
  case (tun_sender ready)
  then show ?thesis by (intro nonces_ok_tun [OF assms(3,2)])
qed

lemma nonces_ok_run:
  "server_run S Z st0 st \<Longrightarrow> server_ok base st0 \<Longrightarrow> nonces_ok S out0 st0 \<Longrightarrow> nonces_ok S out0 st"
  by (induction rule: server_run.induct) (blast intro: nonces_ok_step server_ok_run)+

lemma nonces_ok_initial:
  assumes "sessions m = replicate MAX_SESSIONS None"
  shows "nonces_ok S (map (snd \<circ> snd) (udp_out w)) (server_initial s m w)"
  using assms by (simp add: nonces_ok_def server_initial_def slot_ok_def map_filter_def)

lemma nonces_distinct:
  assumes "nonces_ok S out0 st" and "length (sealed st) < 2 ^ 64"
  shows "distinct (map (\<lambda>e. (fst e, fst (snd e))) (sealed st))"
proof (rule distinct_counters)
  fix i
  have "length (counters_of i (sealed st)) < 2 ^ 64"
    using assms(2) length_counters_of [of i "sealed st"] by simp
  from distinct_of_nat [OF this] show "distinct (counters_of i (sealed st))"
    using assms(1) unfolding nonces_ok_def by metis
qed

end
