(* ===== verification/ServerStart.thy ===== *)
theory ServerStart
  imports ServerNonces
begin

text \<open>
  The start of the server: what \<^verbatim>\<open>start_server_environment\<close> has set up when it creates
  its threads is a state in which the invariants of the running server hold.
\<close>

section \<open>The kernel's descriptors\<close>

text \<open>
  The four descriptors the start asks for: the listening socket, the TUN device, the control
  socket that configures it (closed again, so that the last may get its number), and the UDP
  socket. The kernel hands out none that is open.
\<close>

definition kernel_fresh :: "world \<Rightarrow> bool" where
  "kernel_fresh w \<longleftrightarrow>
     (let f = (\<lambda>i. fd_script w (fd_calls w + i))
      in (\<forall>i<4. socks w (f i) = None) \<and> f 1 \<noteq> f 0 \<and> f 2 \<noteq> f 0 \<and> f 2 \<noteq> f 1 \<and> f 3 \<noteq> f 0 \<and> f 3 \<noteq> f 1)"

definition same_script :: "nat \<Rightarrow> world \<Rightarrow> world \<Rightarrow> bool" where
  "same_script k w w' \<longleftrightarrow> fd_script w' = fd_script w \<and> fd_calls w' = fd_calls w + k \<and> udp_out w' = udp_out w"

lemma same_script_trans: "same_script j u v \<Longrightarrow> same_script k v w \<Longrightarrow> same_script (j + k) u w"
  by (simp add: same_script_def)

lemma server_start_fds:
  assumes "server_start s port w = (0, s', w')" and "\<not> running s"
  shows "same_script 1 w w'" "srv_socket s' = fd_script w (fd_calls w)" "leaked w' = leaked w"
proof -
  let ?w = "log_msg INFO_MSG SERVER_RT ''Starting server...'' [] w"
  obtain fd w1 where sk: "sys_socket ?w = (fd, w1)" by force
  note k = sys_socket_other(2,4,5,7) [OF sk]
  have o: "udp_out w1 = udp_out w" using sk by (auto simp: sys_socket_def Let_def split: if_splits)
  show "same_script 1 w w'" "srv_socket s' = fd_script w (fd_calls w)" "leaked w' = leaked w"
    using assms sk k o
    by (auto simp: server_start_def server_create_socket_def server_bind_def server_listen_def server_cleanup_def same_script_def
        sys_net_def Let_def split: if_splits)
qed

lemma tun_assign_address_fds:
  assumes "tun_assign_address n config w = (r, w')"
  shows "same_script 1 w w'"
proof -
  obtain fd w1 where sk: "sys_socket w = (fd, w1)" by force
  note k = sys_socket_other(4,5) [OF sk]
  have o: "udp_out w1 = udp_out w" using sk by (auto simp: sys_socket_def Let_def split: if_splits)
  have c: "same_script 1 w (configure a f v) = same_script 1 w v" for a f v by (simp add: configure_def same_script_def)
  show ?thesis
    using assms sk k o
    by (auto simp: tun_assign_address_def tun_assign_fail_def sys_net_def Let_def c same_script_def configure_def
        split: if_splits option.splits)
qed

lemma tun_open_fds:
  assumes "tun_open config w = (Some dev, w')"
  shows "same_script 2 w w'"
proof -
  obtain fd w1 where sk: "sys_socket w = (fd, w1)" by force
  note k = sys_socket_other(4,5) [OF sk]
  have o: "udp_out w1 = udp_out w" using sk by (auto simp: sys_socket_def Let_def split: if_splits)
  obtain ok w2 where nt: "sys_net w1 = (ok, w2)" by force
  let ?n = "take (IFNAMSIZ - 1) (cfg_ifname config)"
  let ?w = "w2\<lparr>ifaces := (ifaces w2)(?n \<mapsto> \<lparr>if_addr = 0, if_netmask = 0, if_up = False\<rparr>)\<rparr>"
  obtain r w3 where as: "tun_assign_address ?n config ?w = (r, w3)" by force
  obtain got w4 where ml: "sys_malloc w3 = (got, w4)" by force
  have s1: "same_script 1 w ?w" using k o nt by (auto simp: same_script_def sys_net_def)
  have s2: "same_script 2 w w3" using same_script_trans [OF s1 tun_assign_address_fds [OF as]] by (simp add: numeral_2_eq_2)
  have s3: "same_script 2 w w4" using s2 ml by (auto simp: same_script_def sys_malloc_def Let_def)
  show ?thesis
    using assms sk nt as ml s3
    by (auto simp: tun_open_def Let_def same_script_def split: if_splits)
qed

lemma crypto_identity_load_or_create_frame:
  assumes "crypto_identity_load_or_create S ctx path w = (r, ctx', w')"
  shows "local_frame w w'"
proof -
  obtain loaded ctx1 w1 where ld: "crypto_identity_load S ctx path w = (loaded, ctx1, w1)" by (metis prod_cases3)
  obtain r2 ctx2 w2 where gen: "crypto_generate_identity S ctx1 w1 = (r2, ctx2, w2)" by (metis prod_cases3)
  obtain opened w3 where opn: "sys_fopen_wb path w2 = (opened, w3)" by force
  have f1: "local_frame w w1" by (rule log_local_frame [OF crypto_identity_load_frame [OF ld]])
  have f2: "local_frame w1 w2"
    using gen by (auto simp: crypto_generate_identity_def split: prod.splits option.splits dest: sys_random_local
        intro: local_frame_log_msg)
  note f3 = local_frame_trans [OF local_frame_trans [OF f1 f2] sys_fopen_wb_local [OF opn]]
  have f4: "local_frame w (sys_chmod path (sys_fwrite path b (sys_fwrite path a w3)))" for a b
    by (rule local_frame_trans [OF local_frame_trans [OF local_frame_trans [OF f3 sys_fwrite_local] sys_fwrite_local]
        sys_chmod_local])
  have "w' = w1 \<or> w' = w2 \<or> (\<exists>m t. w' = log_msg m OTHER_RT t [] w3) \<or>
      (\<exists>a b. w' = sys_chmod path (sys_fwrite path b (sys_fwrite path a w3)))"
    using assms ld gen opn
    by (auto simp: crypto_identity_load_or_create_def Let_def split: if_splits)
  then show ?thesis
    using f1 local_frame_trans [OF f1 f2] f3 f4 by (auto intro: local_frame_log_msg)
qed

section \<open>The initialisation of the manager\<close>

lemma local_frame_script: "local_frame w w' \<Longrightarrow> same_script 0 w w'"
  by (simp add: local_frame_def env_frame_def same_script_def)

lemma session_manager_init_result:
  assumes run: "session_manager_init S w = (0, m, w')" and free: "unused 2 w"
  shows "sessions m = replicate MAX_SESSIONS None" "manager_ok m" "manager_socket m = -1"
    "\<exists>dev. tun m = Some dev \<and> 0 \<le> dev_fd dev \<and> dev_fd dev = fd_script w (fd_calls w) \<and>
       socks w' = (socks w)(dev_fd dev \<mapsto> sock_script w (fd_calls w))"
    "leaked w' = leaked w + 1" "same_script 2 w w'"
proof -
  let ?m = "\<lparr>sessions = replicate MAX_SESSIONS None, identity = crypto_context_init, locked = False,
               tun = None, session_count = 0, manager_socket = -1\<rparr>"
  let ?c = "\<lparr>cfg_address = SERVER_DEFAULT_VNI, cfg_netmask = DEFAULT_NETMASK, cfg_ifname = SERVER_TUN_INTERFACE_NAME\<rparr>"
  obtain path w1 where cp: "crypto_config_path ''server_identity.key'' PATH_MAX w = (path, w1)" by force
  obtain r ctx w2 where id: "crypto_identity_load_or_create S crypto_context_init (the path) w1 = (r, ctx, w2)"
    by (metis prod_cases3)
  obtain dev w3 where op: "tun_open ?c w2 = (dev, w3)" by force
  have "path \<noteq> None \<and> r = 0 \<and> dev \<noteq> None \<and> m = ?m\<lparr>identity := ctx, tun := dev\<rparr> \<and> w' = w3"
    using run cp id op by (auto simp: session_manager_init_def Let_def split: option.splits if_splits)
  then obtain d where m: "m = ?m\<lparr>identity := ctx, tun := Some d\<rparr>" and d: "dev = Some d" and w': "w' = w3"
    by blast
  have lf: "local_frame w w2"
    by (rule local_frame_trans [OF crypto_config_path_frame [OF cp] crypto_identity_load_or_create_frame [OF id]])
  have sm: "fd_script w2 = fd_script w" "fd_calls w2 = fd_calls w" "socks w2 = socks w" "leaked w2 = leaked w"
      "sock_script w2 = sock_script w"
    using lf by (simp_all add: local_frame_def env_frame_def)
  have "unused 2 w2" using free sm by (simp add: unused_def)
  note t = tun_open_result(2) [OF op this d]
  show "sessions m = replicate MAX_SESSIONS None" "manager_socket m = -1" by (simp_all add: m)
  show "manager_ok m" by (simp add: m manager_ok_def occupied_def)
  show "\<exists>dev. tun m = Some dev \<and> 0 \<le> dev_fd dev \<and> dev_fd dev = fd_script w (fd_calls w) \<and>
       socks w' = (socks w)(dev_fd dev \<mapsto> sock_script w (fd_calls w))" "leaked w' = leaked w + 1"
    using t sm w' by (simp_all add: m)
  show "same_script 2 w w'"
    using same_script_trans [OF local_frame_script [OF lf] tun_open_fds [OF op [unfolded d]]] w'
    by (simp add: numeral_2_eq_2)
qed

section \<open>The whole start\<close>

lemma session_manager_udp_bind_result:
  assumes run: "session_manager_udp_bind m port w = (0, m', w')"
  shows "m' = m\<lparr>manager_socket := fd_script w (fd_calls w)\<rparr>" "0 \<le> fd_script w (fd_calls w)"
    "socks w' = (socks w)(fd_script w (fd_calls w) \<mapsto> sock_script w (fd_calls w))" "leaked w' = leaked w"
    "udp_out w' = udp_out w"
proof -
  obtain fd w1 where sk: "sys_socket w = (fd, w1)" by force
  note k = sys_socket_other(2,7) [OF sk]
  have o: "udp_out w1 = udp_out w" using sk by (auto simp: sys_socket_def Let_def split: if_splits)
  show "m' = m\<lparr>manager_socket := fd_script w (fd_calls w)\<rparr>" "0 \<le> fd_script w (fd_calls w)"
    "socks w' = (socks w)(fd_script w (fd_calls w) \<mapsto> sock_script w (fd_calls w))" "leaked w' = leaked w"
    "udp_out w' = udp_out w"
    using run sk k o by (auto simp: session_manager_udp_bind_def sys_net_def Let_def split: if_splits)
qed

lemma server_begins:
  assumes run: "server_environment_begin S argv w0 = (Some (s, m), w)"
    and none: "open_fds w0 = {}" and fresh: "kernel_fresh w0"
  shows "server_ok (leaked w0) (server_initial s m w)"
    "nonces_ok S' (map (snd \<circ> snd) (udp_out w0)) (server_initial s m w)"
proof -
  define port where "port = (if length argv > 2 then of_int (atoi (argv ! 2)) else SERVER_DEFAULT_PORT)"
  let ?w = "w0\<lparr>force_logs := True\<rparr>"
  let ?f = "\<lambda>i. fd_script w0 (fd_calls w0 + i)"
  obtain r1 s1 w1 where st: "server_start server_init port ?w = (r1, s1, w1)" by (metis prod_cases3)
  obtain r2 m2 w2 where ini: "session_manager_init S w1 = (r2, m2, w2)" by (metis prod_cases3)
  obtain r3 m3 w3 where bi: "session_manager_udp_bind m2 port w2 = (r3, m3, w3)" by (metis prod_cases3)
  have ab: "fst (server_abort a b) = None" for a b by (simp add: server_abort_def split: prod.split)
  have ok: "r1 = 0" "r2 = 0" "r3 = 0" "s = s1" "m = m3" "w = w3\<lparr>force_logs := False\<rparr>"
    using run st ini bi ab
    by (auto simp: server_environment_begin_def port_def [symmetric] Let_def split: if_splits dest: arg_cong [of _ _ fst])
  have s0: "socks w0 = (\<lambda>_. None)" using none by (auto simp: open_fds_def)
  have f: "?f 1 \<noteq> ?f 0" "?f 2 \<noteq> ?f 0" "?f 2 \<noteq> ?f 1" "?f 3 \<noteq> ?f 0" "?f 3 \<noteq> ?f 1"
    using fresh by (simp_all add: kernel_fresh_def)
  have idle: "\<not> running server_init" by (simp add: server_init_def)
  have free1: "socks ?w (fd_script ?w (fd_calls ?w)) = None" by (simp add: s0)
  note A = server_start_result(3) [OF st idle free1 ok(1)] server_start_fds [OF st [unfolded ok(1)] idle]
  have fl: "leaked (x\<lparr>force_logs := b\<rparr>) = leaked x" for x b by (simp add: leaked_def log_lines_def)
  have a: "running s1" "srv_socket s1 = ?f 0" "0 \<le> ?f 0" "socks w1 = (socks w0)(?f 0 \<mapsto> sock_script w0 (fd_calls w0))"
      "leaked w1 = leaked w0" "same_script 1 w0 w1"
    using A by (auto simp: same_script_def fl)
  have "unused 2 w1"
    using a(4,6) f s0 by (auto simp: unused_def same_script_def less_Suc_eq numeral_2_eq_2)
  note b = session_manager_init_result [OF ini [unfolded ok(2)] this]
  obtain dev where dev: "tun m2 = Some dev" "0 \<le> dev_fd dev" "dev_fd dev = ?f 1"
      "socks w2 = (socks w1)(dev_fd dev \<mapsto> sock_script w1 (fd_calls w1))"
    using b(4) a(6) by (auto simp: same_script_def)
  have w2: "fd_script w2 (fd_calls w2) = ?f 3" "udp_out w2 = udp_out w0"
    using b(6) a(6) by (simp_all add: same_script_def numeral_3_eq_3)
  note c = session_manager_udp_bind_result [OF bi [unfolded ok(3)], unfolded w2]
  have "open_fds w = {?f 0, ?f 1, ?f 3}"
    using c(3) dev(3,4) a(4) s0 ok(6) by (auto simp: open_fds_def)
  moreover have "slot_fds m = {}" "dev_fds m = {?f 1}" "tun m \<noteq> None" "manager_socket m = ?f 3" "occupied (sessions m) = 0"
    using c(1) ok(5) dev b(1) by (auto simp: slot_fds_def dev_fds_def occupied_def)
  moreover have "table_ok m"
    using c(1) ok(5) b(1,2) by (auto simp: table_ok_def manager_ok_def holds_good_def distinct_sockets_def occupied_def)
  moreover have "leaked w = leaked w0 + 1" using c(4) b(5) a(5) ok(6) by (simp add: fl)
  ultimately show "server_ok (leaked w0) (server_initial s m w)"
    using a(1-3) f c(2) dev(2,3) ok(4)
    by (auto simp: server_ok_def control_ok_def fds_ok_def blocks_held_def thread_blocks_def server_initial_def)
  have "udp_out w = udp_out w0" using c(5) ok(6) by simp
  with nonces_ok_initial [of m S' w s] c(1) ok(5) b(1)
  show "nonces_ok S' (map (snd \<circ> snd) (udp_out w0)) (server_initial s m w)" by simp
qed

section \<open>The server starts\<close>

text \<open>An environment in which every call of the start succeeds.\<close>

definition cooperative :: "world \<Rightarrow> bool" where
  "cooperative w \<longleftrightarrow>
     (\<forall>i. net_ok w i) \<and> (\<forall>i. malloc_ok w i) \<and> (\<forall>i. 0 \<le> fd_script w i) \<and>
     (\<forall>p. writable w p) \<and> (\<forall>p. mkdir_ok w p) \<and>
     (\<exists>home. home_env w = Some home \<and> home \<noteq> [] \<and> length home < 4000)"

lemma cooperative_frame: "env_frame w w' \<Longrightarrow> cooperative w' = cooperative w"
  by (simp add: cooperative_def env_frame_def)

lemma cooperative_simps [simp]:
  "cooperative (w\<lparr>force_logs := b\<rparr>) = cooperative w" "cooperative (w\<lparr>net_calls := n\<rparr>) = cooperative w"
  "cooperative (w\<lparr>ifaces := f\<rparr>) = cooperative w" "cooperative (log_msg m r t as w) = cooperative w"
  "cooperative (configure nm g w) = cooperative w" "cooperative (sys_close fd w) = cooperative w"
  by (auto simp: cooperative_def configure_def sys_close_def split: option.splits)

lemma cooperative_calls:
  assumes "cooperative w"
  shows "\<exists>w'. sys_net w = (True, w') \<and> cooperative w'" "\<exists>w'. sys_malloc w = (True, w') \<and> cooperative w'"
    "\<exists>fd w'. sys_socket w = (fd, w') \<and> 0 \<le> fd \<and> cooperative w'"
  using assms by (auto simp: cooperative_def sys_net_def sys_malloc_def sys_socket_def Let_def not_less)

lemma server_start_cooperates:
  assumes c: "cooperative w"
  shows "\<exists>s' w'. server_start server_init port w = (0, s', w') \<and> running s' \<and> cooperative w'"
proof -
  have c': "cooperative (log_msg INFO_MSG SERVER_RT ''Starting server...'' [] w)" using c by simp
  obtain fd w1 where 1: "sys_socket (log_msg INFO_MSG SERVER_RT ''Starting server...'' [] w) = (fd, w1)" "0 \<le> fd"
      "cooperative w1" using cooperative_calls(3) [OF c'] by blast
  obtain w2 where 2: "sys_net w1 = (True, w2)" "cooperative w2" using cooperative_calls(1) [OF 1(3)] by blast
  obtain w3 where 3: "sys_net w2 = (True, w3)" "cooperative w3" using cooperative_calls(1) [OF 2(2)] by blast
  obtain w4 where 4: "sys_net w3 = (True, w4)" "cooperative w4" using cooperative_calls(1) [OF 3(2)] by blast
  show ?thesis
    using 1 2(1) 3(1) 4
    by (simp add: server_start_def server_init_def server_create_socket_def server_bind_def server_listen_def Let_def)
qed

lemma tun_open_cooperates:
  assumes c: "cooperative w" and a: "inet_pton (cfg_address config) = Some a" and n: "inet_pton (cfg_netmask config) = Some n"
  shows "\<exists>dev w'. tun_open config w = (Some dev, w') \<and> cooperative w'"
proof -
  let ?n = "take (IFNAMSIZ - 1) (cfg_ifname config)"
  obtain fd w1 where 1: "sys_socket w = (fd, w1)" "0 \<le> fd" "cooperative w1" using cooperative_calls(3) [OF c] by blast
  obtain w2 where 2: "sys_net w1 = (True, w2)" "cooperative w2" using cooperative_calls(1) [OF 1(3)] by blast
  let ?w = "w2\<lparr>ifaces := (ifaces w2)(?n \<mapsto> \<lparr>if_addr = 0, if_netmask = 0, if_up = False\<rparr>)\<rparr>"
  have "\<exists>w'. tun_assign_address ?n config ?w = (0, w') \<and> cooperative w'"
  proof -
    let ?c = "\<lambda>f. configure (take (IFNAMSIZ - 1) ?n) f"
    have c3: "cooperative ?w" using 2(2) by simp
    obtain s v1 where a1: "sys_socket ?w = (s, v1)" "0 \<le> s" "cooperative v1" using cooperative_calls(3) [OF c3] by blast
    obtain v2 where a2: "sys_net v1 = (True, v2)" "cooperative v2" using cooperative_calls(1) [OF a1(3)] by blast
    obtain v3 where a3: "sys_net (?c (\<lambda>i. i\<lparr>if_addr := a\<rparr>) v2) = (True, v3)" "cooperative v3"
      using cooperative_calls(1) [of "?c (\<lambda>i. i\<lparr>if_addr := a\<rparr>) v2"] a2(2) by auto
    obtain v4 where a4: "sys_net (?c (\<lambda>i. i\<lparr>if_netmask := n\<rparr>) v3) = (True, v4)" "cooperative v4"
      using cooperative_calls(1) [of "?c (\<lambda>i. i\<lparr>if_netmask := n\<rparr>) v3"] a3(2) by auto
    obtain v5 where a5: "sys_net v4 = (True, v5)" "cooperative v5" using cooperative_calls(1) [OF a4(2)] by blast
    show ?thesis
      using a1(1,2) a2(1) a3(1) a4(1) a5 a n by (simp add: tun_assign_address_def Let_def)
  qed
  then obtain w3 where 3: "tun_assign_address ?n config ?w = (0, w3)" "cooperative w3" by blast
  obtain w4 where 4: "sys_malloc w3 = (True, w4)" "cooperative w4" using cooperative_calls(2) [OF 3(2)] by blast
  show ?thesis using 1(1,2) 2(1) 3(1) 4 by (simp add: tun_open_def Let_def)
qed

lemma crypto_config_path_cooperates:
  assumes c: "cooperative w" and "length name < 80"
  shows "\<exists>path w'. crypto_config_path name PATH_MAX w = (Some path, w') \<and> cooperative w'"
proof -
  obtain home where h: "home_env w = Some home" "home \<noteq> []" "length home < 4000" and "\<And>p. mkdir_ok w p"
    using c unfolding cooperative_def by blast
  obtain res w' where mk: "sys_mkdir (home @ ''/'' @ SENCD_CONFIG_DIRNAME) w = (res, w')" "res \<noteq> MkdirFailed" "cooperative w'"
    using c by (cases "sys_mkdir (home @ ''/'' @ SENCD_CONFIG_DIRNAME) w") (auto simp: sys_mkdir_def cooperative_def split: if_splits)
  have "length SENCD_CONFIG_DIRNAME = 13" by (simp add: SENCD_CONFIG_DIRNAME_def)
  with h mk assms(2) show ?thesis by (simp add: crypto_config_path_def PATH_MAX_def Let_def)
qed

lemma crypto_identity_cooperates:
  assumes c: "cooperative w" and S: "sign_correct S"
  shows "\<exists>ctx' w'. crypto_identity_load_or_create S ctx path w = (0, ctx', w') \<and> cooperative w'"
proof -
  obtain loaded ctx1 w1 where ld: "crypto_identity_load S ctx path w = (loaded, ctx1, w1)" by (metis prod_cases3)
  obtain seed w2 where sr: "sys_random SIGN_SEEDBYTES w1 = (seed, w2)" by force
  from S sys_random_frame(4) [OF sr] obtain pk sk where keys: "sign_keypair S seed = Some (pk, sk)"
    unfolding sign_correct_def by blast
  have "\<exists>ctx' w'. crypto_identity_load_or_create S ctx path w = (0, ctx', w')"
  proof -
    have f: "env_frame w w1" using log_local_frame [OF crypto_identity_load_frame [OF ld]] by (simp add: local_frame_def)
    have "writable w2 p" for p using c f sr by (auto simp: cooperative_def env_frame_def sys_random_def)
    then show ?thesis
      using ld sr keys
      by (cases loaded) (simp_all add: crypto_identity_load_or_create_def crypto_generate_identity_def sys_fopen_wb_def Let_def)
  qed
  then obtain ctx' w' where run: "crypto_identity_load_or_create S ctx path w = (0, ctx', w')" by blast
  from crypto_identity_load_or_create_frame [OF run] c run show ?thesis
    by (auto simp: local_frame_def cooperative_frame)
qed

lemma server_vni: "inet_pton SERVER_DEFAULT_VNI = Some 0x0A080001" "inet_pton DEFAULT_NETMASK = Some 0xFFFFFF00"
  unfolding SERVER_DEFAULT_VNI_def DEFAULT_NETMASK_def by code_simp+

lemma server_cooperates:
  assumes c: "cooperative w" and S: "sign_correct S"
  shows "\<exists>s m w'. server_environment_begin S argv w = (Some (s, m), w')"
proof -
  define port where "port = (if length argv > 2 then of_int (atoi (argv ! 2)) else SERVER_DEFAULT_PORT)"
  obtain s1 w1 where 1: "server_start server_init port (w\<lparr>force_logs := True\<rparr>) = (0, s1, w1)" "cooperative w1"
    using server_start_cooperates [of "w\<lparr>force_logs := True\<rparr>" port] c by auto
  obtain path w2 where 2: "crypto_config_path ''server_identity.key'' PATH_MAX w1 = (Some path, w2)" "cooperative w2"
    using crypto_config_path_cooperates [OF 1(2), of "''server_identity.key''"] by auto
  obtain ctx w3 where 3: "crypto_identity_load_or_create S crypto_context_init path w2 = (0, ctx, w3)" "cooperative w3"
    using crypto_identity_cooperates [OF 2(2) S] by blast
  let ?c = "\<lparr>cfg_address = SERVER_DEFAULT_VNI, cfg_netmask = DEFAULT_NETMASK, cfg_ifname = SERVER_TUN_INTERFACE_NAME\<rparr>"
  obtain dev w4 where 4: "tun_open ?c w3 = (Some dev, w4)" "cooperative w4"
    using tun_open_cooperates [OF 3(2), of ?c "0x0A080001" "0xFFFFFF00"] server_vni by auto
  obtain fd w5 where 5: "sys_socket w4 = (fd, w5)" "0 \<le> fd" "cooperative w5" using cooperative_calls(3) [OF 4(2)] by blast
  obtain w6 where 6: "sys_net w5 = (True, w6)" "cooperative w6" using cooperative_calls(1) [OF 5(3)] by blast
  obtain w7 where 7: "sys_net w6 = (True, w7)" using cooperative_calls(1) [OF 6(2)] by blast
  show ?thesis
    using 1(1) 2(1) 3(1) 4(1) 5(1,2) 6(1) 7
    by (simp add: server_environment_begin_def port_def [symmetric] session_manager_init_def session_manager_udp_bind_def Let_def)
qed

end
