(* ===== verification/Waiting.thy ===== *)
theory Waiting
  imports Packet
begin

text \<open>
  When the receiver of packets waits: on an open stream that holds the beginning of a packet
  and not all of it, and never on a stream that has ended.
\<close>

section \<open>What leaves the mark alone\<close>

lemma stalled_stays [simp]:
  "stalled (sys_close fd w) = stalled w" "stalled (sys_free b w) = stalled w" "stalled (printf t w) = stalled w"
  by (simp_all add: sys_close_def sys_free_def printf_def split: option.split)

lemma sys_malloc_stalled: "sys_malloc w = (g, w') \<Longrightarrow> stalled w' = stalled w"
  by (auto simp: sys_malloc_def Let_def)

lemma stream_open_cong: "socks w' fd = socks w fd \<Longrightarrow> stream_open fd w' = stream_open fd w"
  by (simp add: stream_open_def)

section \<open>One packet\<close>

text \<open>The beginning of a packet: fewer bytes than a header, or a proper part of an acceptable packet.\<close>

definition unfinished :: "bytes \<Rightarrow> bool" where
  "unfinished bs \<longleftrightarrow> length bs < PACKET_HEADER_SIZE \<or>
     (\<exists>pad p rest. acceptable p \<and> rest \<noteq> [] \<and> wire_packet pad p = bs @ rest)"

lemma wire_packet_prefix:
  assumes "acceptable p" "acceptable q" and eq: "wire_packet pad p @ xs = wire_packet pad' q @ ys"
  shows "p = q \<and> xs = ys"
proof -
  have h: "wire_header pad (header p) = wire_header pad' (header q)"
    and b: "payload_bytes p @ xs = payload_bytes q @ ys"
    using eq by (simp_all add: wire_packet_def append_eq_append_conv)
  from arg_cong [OF h, of "parse_header BigEndian"] have hd: "header p = header q" by (simp add: parse_wire_header)
  with assms(1,2) have "length (payload_bytes p) = length (payload_bytes q)"
    "payload p = None \<longleftrightarrow> payload q = None" by (simp_all add: acceptable_def wf_packet_def)
  with b have "payload_bytes p = payload_bytes q" "xs = ys" by simp_all
  with hd \<open>payload p = None \<longleftrightarrow> payload q = None\<close> show ?thesis
    by (cases p; cases q) (auto simp: payload_bytes_def split: option.splits)
qed

lemma finished_packet: "acceptable p \<Longrightarrow> \<not> unfinished (wire_packet pad p @ bs)"
proof
  assume p: "acceptable p" and u: "unfinished (wire_packet pad p @ bs)"
  have "PACKET_HEADER_SIZE \<le> length (wire_packet pad p @ bs)" by (simp add: wire_packet_def)
  with u obtain pad' q rest where q: "acceptable q" "rest \<noteq> []" "wire_packet pad' q = wire_packet pad p @ bs @ rest"
    by (auto simp: unfinished_def)
  from wire_packet_prefix [OF p q(1), of pad "bs @ rest" pad' "[]"] q(2,3) show False by simp
qed

text \<open>
  A header that is accepted announces a packet; what follows it is the beginning of its body
  exactly when it is shorter than announced.
\<close>

lemma unfinished_body:
  assumes len: "length hb = PACKET_HEADER_SIZE" and h: "h = parse_header e hb"
    and ok: "version h = CURRENT_PROTOCOL_VERSION" "ptype h \<le> type_code PACKET_ERROR" "payload_length h \<le> MAX_PACKET_SIZE"
  shows "unfinished (hb @ bs) \<longleftrightarrow> length bs < unat (payload_length h)"
proof
  let ?n = "unat (payload_length h)" and ?pad = "(hb ! 6, hb ! 7)"
  have hb: "wire_header ?pad h = hb" unfolding h using len by (rule wire_parse_header)
  show "unfinished (hb @ bs)" if short: "length bs < ?n"
  proof -
    define p where "p = \<lparr>payload = Some (bs @ zeros (?n - length bs)), header = h\<rparr>"
    have "acceptable p"
      using short ok by (auto simp: acceptable_def wf_packet_def p_def payload_bytes_def)
    moreover have "wire_packet ?pad p = (hb @ bs) @ zeros (?n - length bs)"
      by (simp add: wire_packet_def p_def payload_bytes_def hb)
    moreover from short have "zeros (?n - length bs) \<noteq> []" by (simp add: zeros_def)
    ultimately show ?thesis unfolding unfinished_def by blast
  qed
  show "length bs < ?n" if u: "unfinished (hb @ bs)"
  proof -
    from u len obtain pad p rest where p: "acceptable p" "rest \<noteq> []" "wire_packet pad p = hb @ bs @ rest"
      by (auto simp: unfinished_def)
    then have "wire_header pad (header p) = hb" "payload_bytes p = bs @ rest"
      using len by (simp_all add: wire_packet_def append_eq_append_conv)
    moreover from this(1) have "header p = h" using parse_wire_header [of e pad "header p"] h by simp
    moreover from p(1) have "length (payload_bytes p) = unat (payload_length (header p))"
      by (simp add: acceptable_def wf_packet_def)
    ultimately have "length bs + length rest = ?n" by simp
    with length_greater_0_conv [of rest, THEN iffD2, OF p(2)] show ?thesis by linarith
  qed
qed

lemma packet_receive_wait:
  assumes rcv: "packet_receive fd q w = (r, p, w')"
  shows "r = 0 \<Longrightarrow> stalled w' = stalled w \<and> stream_open fd w' = stream_open fd w"
    "stalled w' \<Longrightarrow> stalled w \<or> (r \<noteq> 0 \<and> stream_open fd w \<and> unfinished (pending fd w))"
    "stream_open fd w \<Longrightarrow> unfinished (pending fd w) \<Longrightarrow> (\<And>i. malloc_ok w i) \<Longrightarrow> stalled w'"
proof -
  let ?v = "sys_free (payload q \<noteq> None) w"
  obtain hb w1 where s1: "recv_all fd PACKET_HEADER_SIZE ?v = (hb, w1)" by force
  have v: "stalled ?v = stalled w" "stream_open fd ?v = stream_open fd w" by (simp_all add: stream_open_def)
  note wait = recv_all_wait [OF s1, unfolded v]
  have "(r = 0 \<longrightarrow> stalled w' = stalled w \<and> stream_open fd w' = stream_open fd w) \<and>
      (stalled w' \<longrightarrow> stalled w \<or> (r \<noteq> 0 \<and> stream_open fd w \<and> unfinished (pending fd w))) \<and>
      (stream_open fd w \<longrightarrow> unfinished (pending fd w) \<longrightarrow> (\<forall>i. malloc_ok w i) \<longrightarrow> stalled w')"
  proof (cases hb)
    case None
    have "length (pending fd w) < PACKET_HEADER_SIZE"
      using sock_in.get_enough [OF _ s1] None by (cases "length (pending fd w) < PACKET_HEADER_SIZE") (auto simp: not_less)
    then have "unfinished (pending fd w)" by (simp add: unfinished_def)
    moreover have "r = 1" "stalled w' = stalled w1"
      using rcv s1 None by (auto simp: packet_receive_unfold)
    ultimately show ?thesis using wait(1) None by simp
  next
    case (Some bs)
    let ?h = "parse_header (host w) bs"
    have bs: "length bs = PACKET_HEADER_SIZE" "pending fd w = bs @ pending fd w1"
      using sock_in.get_length [OF s1 [unfolded Some]] sock_in.get_Some [OF s1 [unfolded Some]] by simp_all
    have w1: "stalled w1 = stalled w" "stream_open fd w1 = stream_open fd w" using wait Some by simp_all
    show ?thesis
    proof (cases "version ?h = CURRENT_PROTOCOL_VERSION \<and> ptype ?h \<le> type_code PACKET_ERROR \<and> payload_length ?h \<le> MAX_PACKET_SIZE")
      case False
      have "\<not> unfinished (pending fd w)"
      proof
        assume "unfinished (pending fd w)"
        with bs obtain pad p rest where p: "acceptable p" "wire_packet pad p = bs @ pending fd w1 @ rest"
          by (auto simp: unfinished_def)
        then have "wire_header pad (header p) = bs" using bs(1) by (simp add: wire_packet_def append_eq_append_conv)
        then have "header p = ?h" using parse_wire_header [of "host w" pad "header p"] by simp
        with p(1) False show False by (simp add: acceptable_def)
      qed
      moreover have "r = 1" "stalled w' = stalled w1"
        using rcv s1 Some False by (auto simp: packet_receive_unfold Let_def not_less split: if_splits)
      ultimately show ?thesis using w1(1) by simp
    next
      case True
      note u = unfinished_body [OF bs(1) refl, of "host w" "pending fd w1"]
      have u: "unfinished (pending fd w) \<longleftrightarrow> length (pending fd w1) < unat (payload_length ?h)"
        unfolding bs(2) by (rule u) (use True in simp_all)
      show ?thesis
      proof (cases "payload_length ?h = 0")
        case zero: True
        then have "r = 0" "w' = w1"
          using rcv s1 Some True by (auto simp: packet_receive_unfold Let_def not_less split: if_splits)
        with u zero w1 show ?thesis by simp
      next
        case False
        obtain g w2 where s2: "sys_malloc w1 = (g, w2)" by force
        have w2: "stalled w2 = stalled w" "stream_open fd w2 = stream_open fd w" "pending fd w2 = pending fd w1"
          using sys_malloc_stalled [OF s2] stream_open_cong [OF fun_cong [OF sys_malloc_streams(1) [OF s2]]]
            sys_malloc_streams(2) [OF s2] w1 by simp_all
        obtain b w3 where s3: "recv_all fd (unat (payload_length ?h)) w2 = (b, w3)" by force
        note wait3 = recv_all_wait [OF s3, unfolded w2]
        have b: "b = None \<longleftrightarrow> length (pending fd w1) < unat (payload_length ?h)"
          using sock_in.get_short [OF _ s3] sock_in.get_enough [OF _ s3] w2(3) by (cases "length (pending fd w1) < unat (payload_length ?h)") auto
        have g: "g" if "\<forall>i. malloc_ok w i"
        proof -
          have "malloc_ok w1 i" for i using recv_all_frame(1) [OF s1] that by (simp add: io_frame_def)
          then show ?thesis using s2 by (auto simp: sys_malloc_def Let_def)
        qed
        have "\<not> g \<Longrightarrow> r = 1 \<and> stalled w' = stalled w2" "g \<Longrightarrow> b = None \<Longrightarrow> r = 1 \<and> stalled w' = stalled w3"
          "g \<Longrightarrow> b \<noteq> None \<Longrightarrow> r = 0 \<and> w' = w3"
          using rcv s1 Some True False s2 s3 by (auto simp: packet_receive_unfold Let_def not_less split: if_splits)
        with g b u wait3 w2(1) show ?thesis by (cases g; cases b) auto
      qed
    qed
  qed
  then show "r = 0 \<Longrightarrow> stalled w' = stalled w \<and> stream_open fd w' = stream_open fd w"
    "stalled w' \<Longrightarrow> stalled w \<or> (r \<noteq> 0 \<and> stream_open fd w \<and> unfinished (pending fd w))"
    "stream_open fd w \<Longrightarrow> unfinished (pending fd w) \<Longrightarrow> (\<And>i. malloc_ok w i) \<Longrightarrow> stalled w'" by blast+
qed

end
