(* ===== verification/Progress.thy ===== *)
theory Progress
  imports Prelude
begin

text \<open>
  What the threads of the server and of the client share as transition systems: finite paths,
  infinite executions, weak fairness, and two interfaces: \<open>invariant_kept\<close>, for what holds in
  every state of an execution, and \<open>progress\<close>, for what every fair execution comes to.
\<close>

section \<open>Executions\<close>

text \<open>
  \<open>step a s s'\<close>: the actor \<open>a\<close> takes the system from \<open>s\<close> to \<open>s'\<close>. A path lists the actors of
  finitely many steps; an execution gives the actor and the state of every point in time.
\<close>

inductive path :: "('a \<Rightarrow> 's \<Rightarrow> 's \<Rightarrow> bool) \<Rightarrow> 's \<Rightarrow> 'a list \<Rightarrow> 's \<Rightarrow> bool"
  for step :: "'a \<Rightarrow> 's \<Rightarrow> 's \<Rightarrow> bool" and s0 :: 's where
  path_here: "path step s0 [] s0"
| path_step: "path step s0 as s \<Longrightarrow> step a s s' \<Longrightarrow> path step s0 (as @ [a]) s'"

lemma path_trans: "path step s1 bs s2 \<Longrightarrow> path step s0 as s1 \<Longrightarrow> path step s0 (as @ bs) s2"
  by (induction rule: path.induct) (auto simp: append_assoc [symmetric] intro: path_step simp del: append_assoc)

lemma path_first: "step a s0 s1 \<Longrightarrow> path step s1 bs s2 \<Longrightarrow> path step s0 (a # bs) s2"
  using path_trans [of step s1 bs s2 s0 "[a]"] path_step [OF path_here, of step a s0 s1] by simp

definition execution :: "('a \<Rightarrow> 's \<Rightarrow> 's \<Rightarrow> bool) \<Rightarrow> (nat \<Rightarrow> 'a) \<Rightarrow> (nat \<Rightarrow> 's) \<Rightarrow> bool" where
  "execution step actor state \<longleftrightarrow> (\<forall>n. step (actor n) (state n) (state (Suc n)))"

text \<open>Weak fairness to an actor: at every time it will act again, or there is a time at which it cannot.\<close>

definition fair_to :: "('a \<Rightarrow> 's \<Rightarrow> 's \<Rightarrow> bool) \<Rightarrow> (nat \<Rightarrow> 'a) \<Rightarrow> (nat \<Rightarrow> 's) \<Rightarrow> 'a \<Rightarrow> bool" where
  "fair_to step actor state a \<longleftrightarrow> (\<forall>n. \<exists>m\<ge>n. actor m = a \<or> (\<nexists>s'. step a (state m) s'))"

definition fair_execution :: "('a \<Rightarrow> 's \<Rightarrow> 's \<Rightarrow> bool) \<Rightarrow> 'a set \<Rightarrow> (nat \<Rightarrow> 'a) \<Rightarrow> (nat \<Rightarrow> 's) \<Rightarrow> bool" where
  "fair_execution step threads actor state \<longleftrightarrow>
     execution step actor state \<and> (\<forall>a\<in>threads. fair_to step actor state a)"

text \<open>A condition that does not last for ever, although it may come back.\<close>

definition never_lasting :: "('s \<Rightarrow> bool) \<Rightarrow> (nat \<Rightarrow> 's) \<Rightarrow> bool" where
  "never_lasting P state \<longleftrightarrow> (\<forall>n. \<exists>m\<ge>n. \<not> P (state m))"

text \<open>
  Fair executions exist: a path to a state in which the threads are at rest, and the step
  of another actor that leaves that state alone, make one.
\<close>

lemma path_execution:
  assumes "path step s0 as s" and "step e s s"
  shows "\<exists>actor state. execution step actor state \<and> state 0 = s0 \<and> (\<forall>m\<ge>length as. state m = s \<and> actor m = e)"
  using assms
proof induction
  case path_here
  then show ?case by (intro exI [of _ "\<lambda>_. e"] exI [of _ "\<lambda>_. s0"]) (simp add: execution_def)
next
  case (path_step as s a s')
  have "\<exists>actor state. (\<forall>n<length as. step (actor n) (state n) (state (Suc n))) \<and> state 0 = s0 \<and> state (length as) = s"
    using path_step.hyps(1)
  proof induction
    case (path_step as s a s')
    then obtain actor state where "\<forall>n<length as. step (actor n) (state n) (state (Suc n))" "state 0 = s0"
        "state (length as) = s" by blast
    with path_step.hyps(2) show ?case
      by (intro exI [of _ "actor(length as := a)"] exI [of _ "state(Suc (length as) := s')"]) (auto simp: less_Suc_eq)
  qed auto
  then obtain actor state where pre: "\<forall>n<length as. step (actor n) (state n) (state (Suc n))" "state 0 = s0"
      "state (length as) = s" by blast
  let ?actor = "\<lambda>n. if n < length as then actor n else if n = length as then a else e"
  let ?state = "\<lambda>n. if n \<le> length as then state n else s'"
  have "step (?actor n) (?state n) (?state (Suc n))" for n
    using pre path_step.hyps(2) path_step.prems by (cases "n < length as"; cases "n = length as") auto
  then show ?case using pre(2) by (intro exI [of _ ?actor] exI [of _ ?state]) (auto simp: execution_def)
qed

lemma fair_execution_exists:
  assumes "path step s0 as s" and "step e s s" and "\<And>a. a \<in> threads \<Longrightarrow> \<nexists>s'. step a s s'"
  shows "\<exists>actor state. fair_execution step threads actor state \<and> state 0 = s0 \<and> (\<forall>m\<ge>length as. state m = s)"
proof -
  obtain actor state where x: "execution step actor state" "state 0 = s0" "\<forall>m\<ge>length as. state m = s \<and> actor m = e"
    using path_execution [OF assms(1,2)] by blast
  have "fair_to step actor state a" if "a \<in> threads" for a
  proof (unfold fair_to_def, rule allI)
    show "\<exists>m\<ge>n. actor m = a \<or> (\<nexists>s'. step a (state m) s')" for n
      using x(3) assms(3) [OF that] by (intro exI [of _ "max n (length as)"]) simp
  qed
  with x show ?thesis by (auto simp: fair_execution_def)
qed

section \<open>Invariants\<close>

locale invariant_kept =
  fixes step :: "'a \<Rightarrow> 's \<Rightarrow> 's \<Rightarrow> bool" and inv :: "'s \<Rightarrow> bool"
  assumes inv_step: "step a s s' \<Longrightarrow> inv s \<Longrightarrow> inv s'"
begin

lemma inv_path: "path step s0 as s \<Longrightarrow> inv s0 \<Longrightarrow> inv s"
  by (induction rule: path.induct) (auto intro: inv_step)

lemma inv_execution:
  assumes "execution step actor state" and "inv (state k)" and "k \<le> n"
  shows "inv (state n)"
  using assms(3,2) by (induction rule: dec_induct) (use assms(1) in \<open>auto simp: execution_def intro: inv_step\<close>)

end

section \<open>Progress\<close>

text \<open>
  A system that in every state is done for good or awaits the next step of one of its threads:
  that step lowers a rank; it is possible unless the thread waits for something the
  environment can give it; and the steps of others raise no rank and, as long as they do not
  lower it, leave the same thread awaited. The executions that come to the end are those in
  which no wait lasts for ever.
\<close>

locale progress = invariant_kept step inv
  for step :: "'a \<Rightarrow> 's \<Rightarrow> 's \<Rightarrow> bool" and inv :: "'s \<Rightarrow> bool" +
  fixes finished :: "'s \<Rightarrow> bool" and rank :: "'s \<Rightarrow> nat" and awaited :: "'s \<Rightarrow> 'a"
    and waits :: "'s \<Rightarrow> bool" and threads :: "'a set"
  assumes awaited_thread: "awaited s \<in> threads"
    and awaited_enabled: "inv s \<Longrightarrow> \<not> finished s \<Longrightarrow> \<not> waits s \<Longrightarrow> \<exists>s'. step (awaited s) s s'"
    and wait_ends: "inv s \<Longrightarrow> \<not> finished s \<Longrightarrow> waits s \<Longrightarrow>
      \<exists>a s1 s2. step a s s1 \<and> step (awaited s) s1 s2 \<and> rank s2 < rank s"
    and awaited_lowers: "inv s \<Longrightarrow> \<not> finished s \<Longrightarrow> step (awaited s) s s' \<Longrightarrow> rank s' < rank s"
    and others_wait: "inv s \<Longrightarrow> \<not> finished s \<Longrightarrow> step a s s' \<Longrightarrow>
      rank s' < rank s \<or> (rank s' = rank s \<and> awaited s' = awaited s \<and> waits s' = waits s)"
    and finished_stays: "inv s \<Longrightarrow> finished s \<Longrightarrow> step a s s' \<Longrightarrow> finished s'"
begin

text \<open>It can always be brought to its end, in at most two steps for each unit of its rank.\<close>

lemma can_finish:
  assumes "inv s"
  shows "\<exists>as s'. path step s as s' \<and> finished s' \<and> length as \<le> 2 * rank s"
  using assms
proof (induction "rank s" arbitrary: s rule: less_induct)
  case less
  show ?case
  proof (cases "finished s")
    case True
    then show ?thesis by (intro exI [of _ "[]"] exI [of _ s]) (simp add: path_here)
  next
    case False
    have "\<exists>bs s1. path step s bs s1 \<and> rank s1 < rank s \<and> length bs \<le> 2"
    proof (cases "waits s")
      case True
      obtain a s1 s2 where st: "step a s s1" "step (awaited s) s1 s2" and lower: "rank s2 < rank s"
        using wait_ends [OF less.prems False True] by blast
      have "path step s [a, awaited s] s2"
        by (rule path_first [of step, OF st(1)], rule path_first [of step, OF st(2)], rule path_here)
      with lower show ?thesis by (intro exI [of _ "[a, awaited s]"] exI [of _ s2]) simp
    next
      case run: False
      obtain s1 where s1: "step (awaited s) s s1" using awaited_enabled [OF less.prems False run] by blast
      with awaited_lowers [OF less.prems False s1] path_first [of step, OF s1 path_here] show ?thesis
        by (intro exI [of _ "[awaited s]"] exI [of _ s1]) simp
    qed
    then obtain bs s1 where s1: "path step s bs s1" and lower: "rank s1 < rank s" and len: "length bs \<le> 2" by blast
    obtain as s' where "path step s1 as s'" "finished s'" "length as \<le> 2 * rank s1"
      using less.hyps [OF lower inv_path [OF s1 less.prems]] by blast
    with path_trans [OF _ s1] lower len show ?thesis
      by (intro exI [of _ "bs @ as"] exI [of _ s']) simp
  qed
qed

text \<open>While the rank stays, so does the thread that is awaited; fairness gives it its step.\<close>

lemma fair_lowers:
  assumes x: "fair_execution step threads actor state" and w: "never_lasting waits state"
    and k: "inv (state k)" "\<not> finished (state k)"
  shows "\<exists>n>k. finished (state n) \<or> rank (state n) < rank (state k)"
proof (rule ccontr)
  assume none: "\<nexists>n. k < n \<and> (finished (state n) \<or> rank (state n) < rank (state k))"
  have ex: "execution step actor state" and fair: "fair_to step actor state (awaited (state k))"
    using x awaited_thread by (auto simp: fair_execution_def)
  have run: "step (actor n) (state n) (state (Suc n))" for n using ex by (simp add: execution_def)
  have inv: "inv (state n)" if "k \<le> n" for n by (rule inv_execution [OF ex k(1) that])
  have live: "\<not> finished (state n)" if "k \<le> n" for n using none k(2) that by (cases "k = n") auto
  have same: "rank (state n) = rank (state k) \<and> awaited (state n) = awaited (state k) \<and> waits (state n) = waits (state k)" if "k \<le> n" for n
    using that
  proof (induction rule: dec_induct)
    case (step n)
    have "\<not> rank (state (Suc n)) < rank (state k)" using none step.hyps(1) by (meson le_imp_less_Suc)
    with others_wait [OF inv live run, of n] step show ?case by (auto dest: less_imp_le)
  qed simp
  obtain l where "k \<le> l" "\<not> waits (state l)" using w by (auto simp: never_lasting_def)
  with same have nw: "\<not> waits (state n)" if "k \<le> n" for n using that by metis
  obtain m where m: "k \<le> m" "actor m = awaited (state k) \<or> (\<nexists>s'. step (awaited (state k)) (state m) s')"
    using fair by (auto simp: fair_to_def)
  then have "actor m = awaited (state m)"
    using awaited_enabled [OF inv live nw, of m] same [of m] by auto
  then have "rank (state (Suc m)) < rank (state m)"
    using awaited_lowers [OF inv live, of m] run [of m] m(1) by simp
  moreover have "\<not> rank (state (Suc m)) < rank (state k)" using none m(1) le_imp_less_Suc by blast
  ultimately show False using same [OF m(1)] by simp
qed

theorem fair_finishes:
  assumes x: "fair_execution step threads actor state" and "never_lasting waits state" and "inv (state k)"
  shows "\<exists>n\<ge>k. \<forall>m\<ge>n. finished (state m)"
proof -
  have ex: "execution step actor state" using x by (simp add: fair_execution_def)
  have "\<exists>n\<ge>k. finished (state n)"
    using assms(3)
  proof (induction "rank (state k)" arbitrary: k rule: less_induct)
    case less
    show ?case
    proof (cases "finished (state k)")
      case False
      obtain n where n: "k < n" "finished (state n) \<or> rank (state n) < rank (state k)"
        using fair_lowers [OF x assms(2) less.prems False] by blast
      have "inv (state n)" by (rule inv_execution [OF ex less.prems less_imp_le [OF n(1)]])
      with less.hyps [of n] n show ?thesis by (meson less_imp_le order_trans)
    qed auto
  qed
  then obtain n where n: "k \<le> n" "finished (state n)" by blast
  have "finished (state m)" if "n \<le> m" for m
    using that
  proof (induction rule: dec_induct)
    case (step m)
    have "k \<le> m" using n(1) step.hyps(1) by simp
    from finished_stays [OF inv_execution [OF ex assms(3) this] step.IH, of "actor m" "state (Suc m)"] ex
    show ?case by (simp add: execution_def)
  qed (rule n(2))
  with n(1) show ?thesis by blast
qed

end

end
