(* ===== verification/ServerEnds.thy ===== *)
theory ServerEnds
  imports ServerStart Waiting Progress
begin

text \<open>
  The server as a system that makes progress: once the main thread has left its command
  loop, every execution that is fair to the four threads and in which no handshake waits for
  ever comes to the end of the program; and one that waits for a silent client does not.
\<close>

section \<open>Runs as paths\<close>

lemma server_run_path: "server_run S Z st0 st \<Longrightarrow> \<exists>as. path (server_step S Z) st0 as st"
  by (induction rule: server_run.induct) (blast intro: path_here path_step)+

lemma server_path_run: "path (server_step S Z) st as st' \<Longrightarrow> server_run S Z st st'"
  by (induction rule: path.induct) (blast intro: server_run.start server_run.step)+

lemma server_run_trans: "server_run S Z st1 st2 \<Longrightarrow> server_run S Z st0 st1 \<Longrightarrow> server_run S Z st0 st2"
  by (induction rule: server_run.induct) (auto intro: server_run.step)

text \<open>The invariant of the server is kept along paths and executions.\<close>

interpretation server_keeps: invariant_kept "server_step S Z" "server_ok base" for S Z base
  by unfold_locales (rule server_ok_step)

section \<open>The shutdown makes progress\<close>

text \<open>A step of a thread the shutdown does not wait for changes neither the rank nor who is awaited.\<close>

lemma shutdown_others:
  assumes step: "server_step S Z a st st'" and ok: "server_ok base st" and ph: "1 \<le> phase (main_at st)"
  shows "shutdown_rank st' < shutdown_rank st \<or>
    (shutdown_rank st' = shutdown_rank st \<and> awaited st' = awaited st \<and> shutdown_waits st' = shutdown_waits st)"
  using step
proof cases
  case main
  note p = main_turn_phase [OF main(2) ph]
  from phase_rank [OF p(1,2)] show ?thesis by simp
next
  case (listener ready intr)
  have m: "main_at st' = main_at st" "udp_at st' = udp_at st" "tun_at st' = tun_at st" "listener_at st \<noteq> LFinished"
    using listener(2) by (auto simp: listener_turn_def split: listener_pc.splits prod.splits if_splits)
  then show ?thesis
    using shutdown_lowers(3) [OF step ok ph] listener(1)
    by (cases "main_at st = JoinListener") (auto simp: shutdown_rank_def awaited_def shutdown_waits_def)
next
  case (udp_receiver ready)
  have "udp_at st \<noteq> Finished" using udp_receiver(2) by (auto simp: udp_turn_def)
  then show ?thesis
    using shutdown_lowers(3) [OF step ok ph] udp_receiver(1) udp_turn_stops(1-3) [OF udp_receiver(2)]
    by (cases "main_at st = JoinUdp") (auto simp: shutdown_rank_def awaited_def shutdown_waits_def)
next
  case (tun_sender ready)
  have "tun_at st \<noteq> Finished" using tun_sender(2) by (auto simp: tun_turn_def)
  then show ?thesis
    using shutdown_lowers(3) [OF step ok ph] tun_sender(1) tun_turn_stops(1-3) [OF tun_sender(2)]
    by (cases "main_at st = JoinTun") (auto simp: shutdown_rank_def awaited_def shutdown_waits_def)
next
  case (environment w)
  then show ?thesis by (simp add: shutdown_rank_def awaited_def shutdown_waits_def)
qed

lemma ended_stays: "server_step S Z a st st' \<Longrightarrow> main_at st = Ended \<Longrightarrow> main_at st' = Ended"
  by (cases rule: server_step.cases)
    (auto simp: main_turn_def listener_turn_def udp_turn_stops(1) tun_turn_stops(1) split: listener_pc.splits prod.splits if_splits)

text \<open>The threads of the server: every actor but the environment.\<close>

definition server_threads :: "actor set" where
  "server_threads = {Main, Listener, Udp_Receiver, Tun_Sender}"

text \<open>The wait for a client that has been accepted ends when the environment takes the client away.\<close>

lemma no_negative_fd:
  assumes "server_ok base st" and "main_at st = JoinListener"
  shows "socks (env st) (-1) = None"
proof -
  have fds: "open_fds (env st) = slot_fds (mgr st) \<union> {manager_socket (mgr st)} \<union> dev_fds (mgr st)"
    "\<forall>fd\<in>dev_fds (mgr st). 0 \<le> fd" "0 \<le> manager_socket (mgr st)"
    using assms by (simp_all add: server_ok_def fds_ok_def control_ok_def)
  have "\<forall>fd\<in>slot_fds (mgr st). 0 \<le> fd"
    using assms(1) by (auto simp: server_ok_def table_ok_def holds_good_def slot_fds_def good_session_def)
  with fds have "-1 \<notin> open_fds (env st)" by fastforce
  then show ?thesis by (simp add: open_fds_def)
qed

lemma shutdown_wait_ends:
  assumes ok: "server_ok base st" and waits: "shutdown_waits st"
  shows "\<exists>a s1 s2. server_step S Z a st s1 \<and> server_step S Z (awaited st) s1 s2 \<and> shutdown_rank s2 < shutdown_rank st"
proof -
  have at: "main_at st = JoinListener" "listener_at st = LAccepting" using waits by (simp_all add: shutdown_waits_def)
  let ?w = "(env st)\<lparr>fd_script := \<lambda>_. -1, stalled := False\<rparr>"
  let ?s1 = "st\<lparr>env := ?w\<rparr>"
  have "server_step S Z Environment st ?s1" by (rule server_step.environment) (simp add: input_change_def)
  moreover obtain m w where ac: "server_listener_accept S (srv ?s1) (mgr ?s1) (env ?s1) = (m, w)" by force
  have "\<not> stalled w"
    using ac by (auto simp: server_listener_accept_def server_accept_def sys_accept_def sys_socket_def Let_def)
  with ac at have "listener_turn S 1 False ?s1 = Some (?s1\<lparr>mgr := m, env := w, listener_at := LAtHead\<rparr>)"
    by (simp add: listener_turn_def)
  then have "server_step S Z Listener ?s1 (?s1\<lparr>mgr := m, env := w, listener_at := LAtHead\<rparr>)"
    using no_negative_fd [OF ok at(1)] by (intro server_step.listener) (simp_all add: unused_def)
  moreover have "awaited st = Listener" using at by (simp add: awaited_def)
  moreover have "shutdown_rank (?s1\<lparr>mgr := m, env := w, listener_at := LAtHead\<rparr>) < shutdown_rank st"
    using at by (simp add: shutdown_rank_def)
  ultimately show ?thesis by metis
qed

interpretation shutdown: progress "server_step S Z" "\<lambda>st. server_ok base st \<and> 1 \<le> phase (main_at st)"
  "\<lambda>st. main_at st = Ended" shutdown_rank awaited shutdown_waits server_threads for S Z base
proof
  show "awaited st \<in> server_threads" for st by (simp add: awaited_def server_threads_def)
  show "\<exists>a s1 s2. server_step S Z a s s1 \<and> server_step S Z (awaited s) s1 s2 \<and> shutdown_rank s2 < shutdown_rank s"
    if "server_ok base s \<and> 1 \<le> phase (main_at s)" and "shutdown_waits s" for s
    using shutdown_wait_ends that by blast
qed (auto intro: server_ok_step shutdown_enabled ended_stays dest: shutdown_lowers(1) shutdown_lowers(3) shutdown_others)

text \<open>At the end of the program no thread takes another step, so that fair executions exist.\<close>

lemma ended_rests:
  assumes "server_ok base st" and "main_at st = Ended" and "a \<in> server_threads"
  shows "\<nexists>st'. server_step S Z a st st'"
proof
  assume "\<exists>st'. server_step S Z a st st'"
  then obtain st' where step: "server_step S Z a st st'" by blast
  from step assms show False
    by (cases rule: server_step.cases)
      (auto simp: main_turn_def listener_turn_def udp_turn_def tun_turn_def server_ok_def control_ok_def server_threads_def)
qed

lemma environment_idles: "server_step S Z Environment st st"
  using server_step.environment [of st "env st" S Z] by (simp add: input_change_def)

lemma shutdown_fair_execution:
  assumes "server_ok base st" and "1 \<le> phase (main_at st)"
  shows "\<exists>actor state. fair_execution (server_step S Z) server_threads actor state \<and>
    never_lasting shutdown_waits state \<and> state 0 = st"
proof -
  obtain as st' where p: "path (server_step S Z) st as st'" "main_at st' = Ended"
    using shutdown.can_finish [of base st S Z] assms by blast
  have "server_ok base st'" by (rule server_keeps.inv_path [OF p(1) assms(1)])
  from fair_execution_exists [OF p(1) environment_idles ended_rests [OF this p(2)]] obtain actor state where
    x: "fair_execution (server_step S Z) server_threads actor state" "state 0 = st" "\<forall>n\<ge>length as. state n = st'"
    by blast
  have "\<not> shutdown_waits (state (max n (length as)))" for n using x(3) p(2) by (simp add: shutdown_waits_def)
  then have "never_lasting shutdown_waits state" unfolding never_lasting_def by (metis max.cobounded1)
  with x show ?thesis by blast
qed

lemma shutdown_fair_end:
  assumes "server_ok base st" and "1 \<le> phase (main_at st)"
    and "fair_execution (server_step S Z) server_threads actor state" and "never_lasting shutdown_waits state"
    and "state 0 = st"
  shows "\<exists>n. \<forall>m\<ge>n. main_at (state m) = Ended"
  using shutdown.fair_finishes [OF assms(3,4), of base 0] assms by auto

section \<open>A client that stays silent\<close>

text \<open>
  The environment with a client that connects and sends nothing: it can be accepted, memory
  is there, and the first read of its handshake waits.
\<close>

definition silent_client :: "world \<Rightarrow> world" where
  "silent_client w =
     w\<lparr>malloc_ok := \<lambda>_. True, fd_script := \<lambda>n. max 0 (fd_script w n), sock_script := \<lambda>_. fresh_sock, stalled := False\<rparr>"

lemma input_silent: "input_change w (silent_client w)"
  by (simp add: input_change_def silent_client_def)

lemma session_destroy_stalled [simp]: "stalled (snd (session_destroy s w)) = stalled w"
  by (simp add: session_destroy_def udp_tunnel_close_def Let_def)

lemma session_server_connect_waits:
  assumes "session_server_connect S s w = (r, s', w')" and "stream_open (sess_socket s) w" "pending (sess_socket s) w = []"
  shows "r \<noteq> 0 \<and> stalled w'"
proof -
  obtain hb w1 where rc: "recv_all (sess_socket s) PACKET_HEADER_SIZE w = (hb, w1)" by force
  have "hb = None" using sock_in.get_short [OF _ rc] assms(3) by (simp add: PACKET_HEADER_SIZE_def)
  moreover from this have "stalled w1" using recv_all_wait(1) [OF rc] assms(2) by simp
  ultimately show ?thesis
    using assms(1) rc by (auto simp: session_server_connect_def packet_receive_unfold packet_init_def)
qed

lemma silent_client_waits:
  assumes "server_listener_accept S sv m (silent_client w) = (m', w')"
  shows "stalled w'"
proof -
  obtain fd addr w1 where ac: "server_accept sv INET_ADDRSTRLEN (silent_client w) = (fd, addr, w1)" by (metis prod_cases3)
  have fd: "0 \<le> fd" "socks w1 fd = Some fresh_sock" "malloc_ok w1 i" for i
    using ac by (auto simp: server_accept_def sys_accept_def sys_socket_def silent_client_def Let_def split: if_splits)
  obtain w2 where ml: "sys_malloc w1 = (True, w2)" "socks w2 = socks w1"
    using fd(3) by (auto simp: sys_malloc_def Let_def)
  obtain r s w3 where cr: "session_create SESSION_SERVER fd addr (identity m) None w2 = (r, s, w3)" by (metis prod_cases3)
  have s: "r = 0" "sess_socket s = fd" "socks w3 = socks w2"
    using cr by (auto simp: session_create_def generate_session_id_def sys_random_def Let_def)
  obtain r' s' w4 where co: "session_server_connect S s w3 = (r', s', w4)" by (metis prod_cases3)
  have "r' \<noteq> 0 \<and> stalled w4"
    by (rule session_server_connect_waits [OF co])
      (use s ml(2) fd(2) in \<open>simp_all add: stream_open_def pending_def stream_def fresh_sock_def\<close>)
  moreover from this have "session_manager_connect S m SESSION_SERVER fd addr w1 =
      (None, m, sys_free True (snd (session_destroy s' w4)))"
    by (simp add: session_manager_connect_def ml(1) cr s(1) co split: prod.split)
  ultimately show ?thesis using assms ac fd(1) by (auto simp: server_listener_accept_def)
qed

lemma silent_listener:
  assumes "listener_at st = LAccepting" and "env st = silent_client w"
  shows "listener_turn S ready intr st = None"
proof -
  obtain m w' where ac: "server_listener_accept S (srv st) (mgr st) (env st) = (m, w')" by force
  from silent_client_waits [OF ac [unfolded assms(2)]] ac assms(1) show ?thesis by (simp add: listener_turn_def)
qed

text \<open>
  The schedule of a server that waits for it: the environment keeps the client silent, and
  the other threads have their turns one after the other, with nothing to read.
\<close>

definition silent_step :: "sodium \<Rightarrow> zstd \<Rightarrow> nat \<Rightarrow> server_state \<Rightarrow> actor \<times> server_state" where
  "silent_step S Z n st =
     (if n mod 4 = 0 then (Environment, st\<lparr>env := silent_client (env st)\<rparr>)
      else case (if n mod 4 = 1 then (Main, main_turn st)
                 else if n mod 4 = 2 then (Udp_Receiver, udp_turn S Z 0 st)
                 else (Tun_Sender, tun_turn S Z 0 st)) of
             (a, None) \<Rightarrow> (Environment, st)
           | (a, Some st') \<Rightarrow> (a, st'))"

primrec silent_states :: "sodium \<Rightarrow> zstd \<Rightarrow> server_state \<Rightarrow> nat \<Rightarrow> server_state" where
  "silent_states S Z st 0 = st"
| "silent_states S Z st (Suc n) = snd (silent_step S Z n (silent_states S Z st n))"

lemma silent_step_step: "silent_step S Z n st = (a, st') \<Longrightarrow> server_step S Z a st st'"
  using environment_idles [of S Z st] server_step.environment [OF input_silent, of S Z st]
  by (auto simp: silent_step_def intro: server_step.intros split: if_splits option.splits)

lemma silent_step_keeps:
  assumes "silent_step S Z n st = (a, st')" and "phase (main_at st) \<in> {1, 2}" "listener_at st = LAccepting"
  shows "phase (main_at st') \<in> {1, 2}" "listener_at st' = LAccepting"
proof -
  have m: "phase (main_at t) \<in> {1, 2} \<and> listener_at t = LAccepting" if "main_turn st = Some t" for t
    using that assms(2,3) by (auto simp: main_turn_def split: main_pc.splits prod.splits if_splits)
  show "phase (main_at st') \<in> {1, 2}" "listener_at st' = LAccepting"
    using assms m by (auto simp: silent_step_def udp_turn_stops(1,2) tun_turn_stops(1,2) split: if_splits option.splits)
qed

lemma silent_step_turns:
  "n mod 4 = 1 \<Longrightarrow> fst (silent_step S Z n st) = Main \<or> (\<nexists>s'. server_step S Z Main st s')"
  "n mod 4 = 2 \<Longrightarrow> fst (silent_step S Z n st) = Udp_Receiver \<or> (\<nexists>s'. server_step S Z Udp_Receiver st s')"
  "n mod 4 = 3 \<Longrightarrow> fst (silent_step S Z n st) = Tun_Sender \<or> (\<nexists>s'. server_step S Z Tun_Sender st s')"
proof -
  show "fst (silent_step S Z n st) = Main \<or> (\<nexists>s'. server_step S Z Main st s')" if "n mod 4 = 1"
    using that by (cases "main_turn st") (auto simp: silent_step_def elim: main_stepE)
  have "udp_turn S Z r st = None" if "udp_turn S Z 0 st = None" for r
    using that by (cases "udp_at st") (simp_all add: udp_turn_def split: prod.splits)
  then show "fst (silent_step S Z n st) = Udp_Receiver \<or> (\<nexists>s'. server_step S Z Udp_Receiver st s')" if "n mod 4 = 2"
    using that by (cases "udp_turn S Z 0 st") (auto simp: silent_step_def elim: udp_stepE)
  have "tun_turn S Z r st = None" if "tun_turn S Z 0 st = None" for r
    using that by (cases "tun_at st") (simp_all add: tun_turn_def split: prod.splits)
  then show "fst (silent_step S Z n st) = Tun_Sender \<or> (\<nexists>s'. server_step S Z Tun_Sender st s')" if "n mod 4 = 3"
    using that by (cases "tun_turn S Z 0 st") (auto simp: silent_step_def elim: tun_stepE)
qed

lemma silent_execution:
  assumes "phase (main_at st) \<in> {1, 2}" "listener_at st = LAccepting"
  shows "\<exists>actor state. fair_execution (server_step S Z) server_threads actor state \<and> state 0 = st \<and>
    (\<forall>n. phase (main_at (state n)) \<in> {1, 2} \<and> listener_at (state n) = LAccepting)"
proof -
  let ?state = "silent_states S Z st" and ?actor = "\<lambda>n. fst (silent_step S Z n (silent_states S Z st n))"
  have step: "server_step S Z (?actor n) (?state n) (?state (Suc n))" for n
    by (simp add: silent_step_step prod_eq_iff)
  have at: "phase (main_at (?state n)) \<in> {1, 2} \<and> listener_at (?state n) = LAccepting" for n
  proof (induction n)
    case (Suc n)
    obtain a st' where "silent_step S Z n (?state n) = (a, st')" by force
    with silent_step_keeps [OF this] Suc show ?case by simp
  qed (use assms in simp)
  have listener: "\<nexists>s'. server_step S Z Listener (?state (Suc (4 * k))) s'" for k
  proof
    assume "\<exists>s'. server_step S Z Listener (?state (Suc (4 * k))) s'"
    then obtain ready intr s' where run: "listener_turn S ready intr (?state (Suc (4 * k))) = Some s'"
      by (auto elim: listener_stepE)
    have env: "env (?state (Suc (4 * k))) = silent_client (env (?state (4 * k)))" by (simp add: silent_step_def)
    with silent_listener [OF _ env] at [of "Suc (4 * k)"] run show False by simp
  qed
  have turn: "?actor n = a \<or> (\<nexists>s'. server_step S Z a (?state n) s')"
    if "(n mod 4, a) \<in> {(1, Main), (2, Udp_Receiver), (3, Tun_Sender)}" for n a
    using that silent_step_turns [of n S Z "?state n"] by auto
  have "fair_to (server_step S Z) ?actor ?state a" if a: "a \<in> server_threads" for a
    unfolding fair_to_def
  proof
    fix n
    show "\<exists>m\<ge>n. ?actor m = a \<or> (\<nexists>s'. server_step S Z a (?state m) s')"
    proof (cases "a = Listener")
      case True
      with listener [of n] show ?thesis by (intro exI [of _ "Suc (4 * n)"]) simp
    next
      case False
      define r :: nat where "r = (if a = Main then 1 else if a = Udp_Receiver then 2 else 3)"
      have "((4 * n + r) mod 4, a) \<in> {(1, Main), (2, Udp_Receiver), (3, Tun_Sender)}"
        using a False by (auto simp: r_def server_threads_def)
      from turn [OF this] show ?thesis by (intro exI [of _ "4 * n + r"]) simp
    qed
  qed
  with step at show ?thesis
    by (intro exI [of _ ?actor] exI [of _ ?state]) (simp add: fair_execution_def execution_def)
qed

end
