(* ===== verification/ServerGuarantees.thy ===== *)
theory ServerGuarantees
  imports ServerEnds
begin

text \<open>
  The properties of the server: of every run of its four threads, of the table of sessions,
  and of the operations that build up and tear down what it holds.
\<close>

section \<open>A run for the examples\<close>

lemma calm_cooperative: "cooperative calm_world"
  by (simp add: cooperative_def calm_world_def)

lemma calm_kernel: "open_fds calm_world = {}" "kernel_fresh calm_world"
  by (simp_all add: open_fds_def kernel_fresh_def calm_world_def)

lemma demo_server_start:
  obtains s m w where "server_environment_begin demo_sodium [''sencd-server'', ''start''] calm_world = (Some (s, m), w)"
    "server_ok (leaked calm_world) (server_initial s m w)"
    "nonces_ok demo_sodium [] (server_initial s m w)"
proof -
  obtain s m w where b: "server_environment_begin demo_sodium [''sencd-server'', ''start''] calm_world = (Some (s, m), w)"
    using server_cooperates [OF calm_cooperative demo_sign_correct] by blast
  have "udp_out calm_world = []" by (simp add: calm_world_def)
  with that b server_begins(1) [OF b calm_kernel]
    server_begins(2) [OF b calm_kernel, of demo_sodium] show thesis by simp
qed

text \<open>From a state whose invariant holds, a server can always be stopped.\<close>

lemma server_can_end:
  assumes "server_ok base st" and "1 \<le> phase (main_at st)"
  shows "\<exists>st'. server_run S Z st st' \<and> main_at st' = Ended"
  using shutdown.can_finish [of base st S Z] assms server_path_run by blast

lemma server_can_stop:
  assumes "server_ok base st" and "main_at st = AtPrompt"
  shows "\<exists>st'. server_run S Z st st' \<and> main_at st' = Stopping \<and> listener_at st' = listener_at st"
proof -
  let ?st = "st\<lparr>env := printf SERVER_SHELL_PREFIX (env st), main_at := Reading\<rparr>"
  let ?w = "env ?st"
  have "input_change ?w (?w\<lparr>stdin_buf := []\<rparr>)" by (simp add: input_change_def)
  then have e: "server_step S Z Environment ?st (?st\<lparr>env := ?w\<lparr>stdin_buf := []\<rparr>\<rparr>)" by (rule server_step.environment)
  show ?thesis
  proof (cases "requested st")
    case True
    then have "server_step S Z Main st (st\<lparr>main_at := Stopping\<rparr>)"
      using assms(2) by (intro server_step.main) (simp add: main_turn_def)
    then show ?thesis by (force intro: server_run.start server_run.step)
  next
    case False
    then have a: "server_step S Z Main st ?st"
      using assms(2) by (intro server_step.main) (simp add: main_turn_def)
    let ?st2 = "?st\<lparr>env := ?w\<lparr>stdin_buf := []\<rparr>\<rparr>"
    have b: "server_step S Z Main ?st2 (?st2\<lparr>main_at := Stopping\<rparr>)"
      by (intro server_step.main) (simp add: main_turn_def sys_fgets_def)
    have "server_run S Z st (?st2\<lparr>main_at := Stopping\<rparr>)"
      by (rule server_run.step [OF server_run.step [OF server_run.step [OF server_run.start a] e] b])
    then show ?thesis by force
  qed
qed

lemma demo_server_stopping:
  obtains s m w st where "server_environment_begin demo_sodium [''sencd-server'', ''start''] calm_world = (Some (s, m), w)"
    "server_run demo_sodium Z (server_initial s m w) st" "main_at st = Stopping" "server_ok (leaked calm_world) st"
proof -
  obtain s m w where b: "server_environment_begin demo_sodium [''sencd-server'', ''start''] calm_world = (Some (s, m), w)"
      and ok: "server_ok (leaked calm_world) (server_initial s m w)" by (rule demo_server_start)
  obtain st where st: "server_run demo_sodium Z (server_initial s m w) st" "main_at st = Stopping"
    using server_can_stop [OF ok] by (auto simp: server_initial_def)
  from that [OF b st server_ok_run [OF st(1) ok]] show thesis .
qed

lemma demo_server_run:
  obtains s m w st where "server_environment_begin demo_sodium [''sencd-server'', ''start''] calm_world = (Some (s, m), w)"
    "server_run demo_sodium Z (server_initial s m w) st" "main_at st = Ended"
proof -
  obtain s m w st where b: "server_environment_begin demo_sodium [''sencd-server'', ''start''] calm_world = (Some (s, m), w)"
      and st: "server_run demo_sodium Z (server_initial s m w) st" "main_at st = Stopping" "server_ok (leaked calm_world) st"
    by (rule demo_server_stopping)
  from server_can_end [OF st(3)] st(2) obtain st' where "server_run demo_sodium Z st st'" "main_at st' = Ended" by auto
  with st(1) b that show thesis by (blast intro: server_run_trans)
qed

lemma demo_server_accepting:
  obtains s m w st where "server_environment_begin demo_sodium [''sencd-server'', ''start''] calm_world = (Some (s, m), w)"
    "server_run demo_sodium Z (server_initial s m w) st" "main_at st = Stopping" "listener_at st = LAccepting"
proof -
  obtain s m w where b: "server_environment_begin demo_sodium [''sencd-server'', ''start''] calm_world = (Some (s, m), w)"
      and ok: "server_ok (leaked calm_world) (server_initial s m w)" by (rule demo_server_start)
  let ?st = "server_initial s m w"
  have run: "running s" using ok by (simp add: server_ok_def control_ok_def server_initial_def)
  have 1: "server_step demo_sodium Z Listener ?st (?st\<lparr>listener_at := LAtHead\<rparr>)"
    by (rule server_step.listener [where ready = 1 and intr = False]) (simp_all add: listener_turn_def server_initial_def)
  have 2: "server_step demo_sodium Z Listener (?st\<lparr>listener_at := LAtHead\<rparr>) (?st\<lparr>listener_at := LInSelect\<rparr>)"
    by (rule server_step.listener [where ready = 1 and intr = False]) (simp_all add: listener_turn_def server_initial_def run)
  have 3: "server_step demo_sodium Z Listener (?st\<lparr>listener_at := LInSelect\<rparr>) (?st\<lparr>listener_at := LAccepting\<rparr>)"
    by (rule server_step.listener [where ready = 1 and intr = False])
      (simp_all add: listener_turn_def server_initial_def server_listener_wake_def run)
  have st: "server_run demo_sodium Z ?st (?st\<lparr>listener_at := LAccepting\<rparr>)"
    by (rule server_run.step [OF server_run.step [OF server_run.step [OF server_run.start 1] 2] 3])
  obtain st' where "server_run demo_sodium Z (?st\<lparr>listener_at := LAccepting\<rparr>) st'" "main_at st' = Stopping"
      "listener_at st' = LAccepting"
    using server_can_stop [OF server_ok_run [OF st ok], where S = demo_sodium and Z = Z] by (auto simp: server_initial_def)
  with that b st show thesis by (blast intro: server_run_trans)
qed

section \<open>Every run of the server\<close>

text \<open>
  C7. Whatever the four threads and the environment do after a successful start, a session
  never encrypts two packets under the same counter, as long as fewer than 2^64 packets have
  been encrypted: the pairs of session slot and counter are pairwise different. What has left
  on the UDP socket is, in order, what was encrypted, and every datagram that was sent for a
  session that is still in the table carries its id and the counter and is a ciphertext
  under its sending key and that counter as the nonce.
\<close>

theorem server_no_nonce_reuse:
  assumes "server_environment_begin S argv w0 = (Some (s, m), w)"
    and "open_fds w0 = {}" and "kernel_fresh w0"
    and "server_run S Z (server_initial s m w) st"
    and "length (sealed st) < 2 ^ 64"
  shows "distinct (map (\<lambda>e. (fst e, fst (snd e))) (sealed st)) \<and>
    map (snd \<circ> snd) (udp_out (env st)) = map (snd \<circ> snd) (udp_out w0) @ List.map_filter (snd \<circ> snd) (sealed st) \<and>
    (main_at st \<noteq> Ended \<longrightarrow>
       (\<forall>(i, n, d) \<in> set (sealed st). \<exists>t. sessions (mgr st) ! i = Some t \<and>
          (\<forall>x. d = Some x \<longrightarrow> (\<exists>plain c. x = tunnel_header (session_id t, n) @ c \<and>
             aead_encrypt S plain (zeros 4 @ bytes_be 8 n) (tx_key (crypto t)) = Some c))))"
proof -
  have ok: "nonces_ok S (map (snd \<circ> snd) (udp_out w0)) st"
    by (rule nonces_ok_run [OF assms(4) server_begins(1,2) [OF assms(1-3)]])
  have "\<exists>t. sessions (mgr st) ! i = Some t \<and> (\<forall>x. d = Some x \<longrightarrow> is_sealed S t n x)"
    if "(i, n, d) \<in> set (sealed st)" and "main_at st \<noteq> Ended" for i n d
  proof -
    have "i < MAX_SESSIONS" using ok that(1) unfolding nonces_ok_def by fastforce
    with ok that(2) have "slot_ok S i (sessions (mgr st) ! i) (sealed st)" unfolding nonces_ok_def by blast
    with that(1) show ?thesis by (auto simp: slot_ok_def counters_of_empty split: option.splits)
  qed
  with ok nonces_distinct [OF ok assms(5)] show ?thesis
    unfolding nonces_ok_def is_sealed_def by (auto split: prod.splits)
qed

theorem server_no_nonce_reuse_witness:
  "\<exists>s m w. server_environment_begin demo_sodium [''sencd-server'', ''start''] calm_world = (Some (s, m), w) \<and>
     distinct (map (\<lambda>e. (fst e, fst (snd e))) (sealed (server_initial s m w)))"
proof -
  obtain s m w where b: "server_environment_begin demo_sodium [''sencd-server'', ''start''] calm_world = (Some (s, m), w)"
    by (rule demo_server_start)
  have "length (sealed (server_initial s m w)) < 2 ^ 64" by (simp add: server_initial_def)
  from server_no_nonce_reuse [OF b calm_kernel server_run.start this] b show ?thesis by blast
qed

text \<open>
  C9. When the main thread has come to the end of \<^verbatim>\<open>start_server_environment\<close>, every
  descriptor that was opened is closed, every block that was allocated is freed (but for the
  text of the printed log lines), the table is empty and the other threads have ended.
\<close>

theorem server_clean_end:
  assumes "server_environment_begin S argv w0 = (Some (s, m), w)"
    and "open_fds w0 = {}" and "kernel_fresh w0"
    and "server_run S Z (server_initial s m w) st" and "main_at st = Ended"
  shows "(\<forall>fd. socks (env st) fd = None) \<and> leaked (env st) = leaked w0 \<and>
    sessions (mgr st) = replicate MAX_SESSIONS None \<and> tun (mgr st) = None \<and> \<not> running (srv st) \<and>
    listener_at st = LFinished \<and> udp_at st = Finished \<and> tun_at st = Finished"
proof -
  have ok: "server_ok (leaked w0) st"
    by (rule server_ok_run [OF assms(4) server_begins(1) [OF assms(1-3)]])
  with assms(5) server_ended [OF ok assms(5)] show ?thesis
    by (simp add: server_ok_def control_ok_def open_fds_def)
qed

theorem server_clean_end_witness:
  "\<exists>s m w st. server_environment_begin demo_sodium [''sencd-server'', ''start''] calm_world = (Some (s, m), w) \<and>
     server_run demo_sodium demo_zstd (server_initial s m w) st \<and> leaked (env st) = leaked calm_world"
proof -
  obtain s m w st where b: "server_environment_begin demo_sodium [''sencd-server'', ''start''] calm_world = (Some (s, m), w)"
      "server_run demo_sodium demo_zstd (server_initial s m w) st" "main_at st = Ended"
    by (rule demo_server_run)
  from server_clean_end [OF b(1) calm_kernel b(2,3)] b(1,2) show ?thesis by blast
qed

text \<open>
  C10. Once the main thread has left its command loop, the server ends: in every execution
  that is weakly fair to its four threads and in which no handshake keeps the shutdown waiting
  for ever, the main thread comes to the end of the program and stays there; such executions
  exist. It takes at most 28 steps of the threads the shutdown waits for: as long as it has
  not ended, the awaited thread can take a step, unless it is the accepting thread in the
  handshake of a client whose data is missing; each of its steps lowers a rank that is at most
  28, and no step of any other thread raises it.
\<close>

theorem server_shutdown_progress:
  assumes "server_environment_begin S argv w0 = (Some (s, m), w)"
    and "open_fds w0 = {}" and "kernel_fresh w0"
    and "server_run S Z (server_initial s m w) st" and "1 \<le> phase (main_at st)"
  shows "(\<forall>actor state. fair_execution (server_step S Z) server_threads actor state \<and> state 0 = st \<and>
      never_lasting (\<lambda>t. main_at t = JoinListener \<and> listener_at t = LAccepting) state \<longrightarrow>
      (\<exists>n. \<forall>k\<ge>n. main_at (state k) = Ended)) \<and>
    (\<exists>actor state. fair_execution (server_step S Z) server_threads actor state \<and> state 0 = st \<and>
      never_lasting (\<lambda>t. main_at t = JoinListener \<and> listener_at t = LAccepting) state) \<and>
    shutdown_rank st \<le> 28 \<and>
    (main_at st \<noteq> Ended \<and> \<not> (main_at st = JoinListener \<and> listener_at st = LAccepting) \<longrightarrow>
      (\<exists>st'. server_step S Z (awaited st) st st')) \<and>
    (\<forall>a st'. server_step S Z a st st' \<longrightarrow> 1 \<le> phase (main_at st') \<and> shutdown_rank st' \<le> shutdown_rank st \<and>
       (main_at st \<noteq> Ended \<and> a = awaited st \<longrightarrow> shutdown_rank st' < shutdown_rank st))"
proof -
  have ok: "server_ok (leaked w0) st"
    by (rule server_ok_run [OF assms(4) server_begins(1) [OF assms(1-3)]])
  have waits: "(\<lambda>t. main_at t = JoinListener \<and> listener_at t = LAccepting) = shutdown_waits"
    by (simp add: fun_eq_iff shutdown_waits_def)
  show ?thesis unfolding waits shutdown_waits_def [symmetric]
  proof (intro conjI)
    show "\<forall>actor state. fair_execution (server_step S Z) server_threads actor state \<and> state 0 = st \<and>
        never_lasting shutdown_waits state \<longrightarrow> (\<exists>n. \<forall>k\<ge>n. main_at (state k) = Ended)"
      using shutdown_fair_end [OF ok assms(5)] by blast
    show "\<exists>actor state. fair_execution (server_step S Z) server_threads actor state \<and> state 0 = st \<and>
        never_lasting shutdown_waits state"
      using shutdown_fair_execution [OF ok assms(5)] by blast
  qed (use shutdown_rank_bound [OF assms(5)] shutdown_enabled [OF assms(5)] shutdown_lowers [OF _ ok assms(5)] in blast)+
qed

theorem server_shutdown_progress_witness:
  "\<exists>s m w st actor state n. server_environment_begin demo_sodium [''sencd-server'', ''start''] calm_world = (Some (s, m), w) \<and>
     server_run demo_sodium demo_zstd (server_initial s m w) st \<and> main_at st = Stopping \<and> shutdown_rank st \<le> 28 \<and>
     fair_execution (server_step demo_sodium demo_zstd) server_threads actor state \<and> state 0 = st \<and>
     main_at (state n) = Ended"
proof -
  obtain s m w st where b: "server_environment_begin demo_sodium [''sencd-server'', ''start''] calm_world = (Some (s, m), w)"
      "server_run demo_sodium demo_zstd (server_initial s m w) st" "main_at st = Stopping"
    by (rule demo_server_stopping)
  have "1 \<le> phase (main_at st)" using b(3) by simp
  note p = server_shutdown_progress [OF b(1) calm_kernel b(2) this]
  note fair = p [THEN conjunct1] and some = p [THEN conjunct2, THEN conjunct1]
    and r = p [THEN conjunct2, THEN conjunct2, THEN conjunct1]
  from some obtain actor state where
    x: "fair_execution (server_step demo_sodium demo_zstd) server_threads actor state" "state 0 = st"
      "never_lasting (\<lambda>t. main_at t = JoinListener \<and> listener_at t = LAccepting) state" by blast
  from fair [rule_format, OF conjI, OF x(1) conjI, OF x(2,3)] obtain n where "main_at (state n) = Ended" by blast
  with b x r show ?thesis by blast
qed

text \<open>
  C32. A client that connects and then stays silent keeps the server from ending: from every
  state in which the shutdown has begun, or waits for the accepting thread, while that thread
  has a client to accept, there is an execution that is fair to all four threads and in which
  the main thread never gets past the join of the accepting thread. The sockets have no
  time-out, and the first read of the handshake waits as long as nothing comes.
\<close>

theorem silent_client_blocks_shutdown:
  assumes "main_at st = Stopping \<or> main_at st = JoinListener" and "listener_at st = LAccepting"
  shows "\<exists>actor state. fair_execution (server_step S Z) server_threads actor state \<and> state 0 = st \<and>
    (\<forall>n. main_at (state n) \<in> {Stopping, JoinListener} \<and> listener_at (state n) = LAccepting)"
proof -
  have pc: "phase pc \<in> {1, 2} \<longleftrightarrow> pc \<in> {Stopping, JoinListener}" for pc by (cases pc) simp_all
  from assms(1) have "phase (main_at st) \<in> {1, 2}" by auto
  from silent_execution [OF this assms(2), of S Z] show ?thesis unfolding pc by blast
qed

theorem silent_client_blocks_shutdown_witness:
  "\<exists>s m w st actor state. server_environment_begin demo_sodium [''sencd-server'', ''start''] calm_world = (Some (s, m), w) \<and>
     server_run demo_sodium demo_zstd (server_initial s m w) st \<and>
     fair_execution (server_step demo_sodium demo_zstd) server_threads actor state \<and> state 0 = st \<and>
     (\<forall>n. main_at (state n) \<noteq> Ended)"
proof -
  obtain s m w st where b: "server_environment_begin demo_sodium [''sencd-server'', ''start''] calm_world = (Some (s, m), w)"
      "server_run demo_sodium demo_zstd (server_initial s m w) st" "main_at st = Stopping" "listener_at st = LAccepting"
    by (rule demo_server_accepting)
  from silent_client_blocks_shutdown [OF disjI1, OF b(3,4), of demo_sodium demo_zstd] obtain actor state where
    x: "fair_execution (server_step demo_sodium demo_zstd) server_threads actor state" "state 0 = st"
      "\<forall>n. main_at (state n) \<in> {Stopping, JoinListener}" by blast
  have "main_at (state n) \<noteq> Ended" for n using spec [OF x(3), of n] by auto
  with b(1,2) x(1,2) show ?thesis by blast
qed

text \<open>
  C12. In every state of every run the table is well formed and holds only established,
  verified sessions, each on a socket of its own; the open descriptors are exactly those of
  the sessions, the listening socket until the shutdown, the UDP socket until it is closed,
  and the TUN device until the end; and the allocated blocks are those of the sessions, of
  the buffers of the running packet threads and of the device. What the accepting thread holds
  for a client whose handshake is under way is not counted: it shows when the handshake is over.
\<close>

theorem server_invariant:
  assumes "server_environment_begin S argv w0 = (Some (s, m), w)"
    and "open_fds w0 = {}" and "kernel_fresh w0"
    and "server_run S Z (server_initial s m w) st"
  shows "manager_ok (mgr st) \<and> (\<forall>t. Some t \<in> set (sessions (mgr st)) \<longrightarrow> good_session t) \<and>
    distinct_sockets (mgr st) \<and>
    {fd. socks (env st) fd \<noteq> None} = slot_fds (mgr st) \<union>
      (if phase (main_at st) \<le> 1 then {srv_socket (srv st)} else {}) \<union>
      (if phase (main_at st) \<le> 3 then {manager_socket (mgr st)} else {}) \<union>
      (case tun (mgr st) of None \<Rightarrow> {} | Some d \<Rightarrow> {dev_fd d}) \<and>
    leaked (env st) = leaked w0 + int (occupied (sessions (mgr st))) + thread_blocks (udp_at st) +
      thread_blocks (tun_at st) + (if tun (mgr st) = None then 0 else 1) \<and>
    (running (srv st) \<longleftrightarrow> phase (main_at st) \<le> 1) \<and> (tun (mgr st) = None \<longleftrightarrow> main_at st = Ended)"
proof -
  have "server_ok (leaked w0) st"
    by (rule server_ok_run [OF assms(4) server_begins(1) [OF assms(1-3)]])
  moreover have "phase pc = 8 \<longleftrightarrow> pc = Ended" for pc by (cases pc) simp_all
  ultimately show ?thesis
    by (simp add: server_ok_def table_ok_def control_ok_def fds_ok_def blocks_held_def holds_good_def open_fds_def dev_fds_def)
qed

theorem server_invariant_witness:
  "\<exists>s m w st. server_environment_begin demo_sodium [''sencd-server'', ''start''] calm_world = (Some (s, m), w) \<and>
     server_run demo_sodium demo_zstd (server_initial s m w) st \<and> manager_ok (mgr st) \<and> tun (mgr st) = None"
proof -
  obtain s m w st where b: "server_environment_begin demo_sodium [''sencd-server'', ''start''] calm_world = (Some (s, m), w)"
      "server_run demo_sodium demo_zstd (server_initial s m w) st" "main_at st = Ended"
    by (rule demo_server_run)
  from server_invariant [OF b(1) calm_kernel b(2)] b show ?thesis by blast
qed

end
