(* ===== verification/ClientCore.thy ===== *)
theory ClientCore
  imports Logs
begin

text \<open>
  The TCP connection of the client, \<^verbatim>\<open>src/client/client_core.h\<close> and
  \<^verbatim>\<open>client_core.c\<close>.
\<close>

definition CLIENT_DEFAULT_PORT :: u16 where "CLIENT_DEFAULT_PORT = 8080"

datatype connection_state =
    CONNECTION_CONNECTING
  | CONNECTION_HANDSHAKING
  | CONNECTION_AUTHENTICATING
  | CONNECTION_CONNECTED
  | CONNECTION_DISCONNECTING
  | CONNECTION_DISCONNECTED

record connection =
  conn_ip :: string
  packets_sent :: u64
  packets_received :: u64
  bytes_sent :: u64
  bytes_received :: u64
  conn_session_id :: u32
  conn_socket :: int
  conn_state :: connection_state
  conn_port :: u16

definition connection_init :: connection where
  "connection_init =
     \<lparr>conn_ip = [], packets_sent = 0, packets_received = 0, bytes_sent = 0, bytes_received = 0,
      conn_session_id = 0, conn_socket = -1, conn_state = CONNECTION_DISCONNECTED, conn_port = 0\<rparr>"

definition connection_cleanup :: "connection \<Rightarrow> world \<Rightarrow> connection \<times> world" where
  "connection_cleanup c w =
     (let w = (if conn_socket c \<ge> 0 then sys_close (conn_socket c) w else w)
      in (c\<lparr>conn_socket := -1, conn_state := CONNECTION_DISCONNECTED\<rparr>, w))"

definition connection_create_socket :: "connection \<Rightarrow> world \<Rightarrow> rc \<times> connection \<times> world" where
  "connection_create_socket c w =
     (case sys_socket w of (fd, w) \<Rightarrow>
        let c = c\<lparr>conn_socket := fd\<rparr>
        in if conn_socket c < 0 then
             (case connection_cleanup c (log_msg ERROR_MSG CLIENT_RT ''Socket failed to create. Error:'' [] w) of
                (c, w) \<Rightarrow> (1, c, w))
           else (0, c, w))"

definition connection_open :: "connection \<Rightarrow> world \<Rightarrow> rc \<times> connection \<times> world" where
  "connection_open c w =
     (case inet_pton (conn_ip c) of
        None \<Rightarrow>
          (case connection_cleanup c (log_msg ERROR_MSG CLIENT_RT ''Couldn't resolve hostname'' [] w) of
             (c, w) \<Rightarrow> (1, c, w))
      | Some addr \<Rightarrow>
          (case sys_net w of (ok, w) \<Rightarrow>
             if \<not> ok then
               (case connection_cleanup c (log_msg ERROR_MSG CLIENT_RT ''Connection issue. Error:'' [] w) of
                  (c, w) \<Rightarrow> (1, c, w))
             else (0, c, w)))"

definition connection_connect :: "connection \<Rightarrow> string \<Rightarrow> u16 \<Rightarrow> world \<Rightarrow> rc \<times> connection \<times> world" where
  "connection_connect c ip port w =
     (if conn_state c = CONNECTION_CONNECTED then
        (1, c, log_msg ERROR_MSG CLIENT_RT ''Socket is already connected, aborting...'' [] w)
      else
        (let w = log_msg INFO_MSG CLIENT_RT ''Attempting to connect to server...'' [] w;
             c = c\<lparr>conn_ip := take 63 ip\<rparr>;
             c = c\<lparr>conn_port := port\<rparr>;
             c = c\<lparr>conn_state := CONNECTION_CONNECTING\<rparr>
         in case connection_create_socket c w of (r, c, w) \<Rightarrow>
           if r \<noteq> 0 then
             (1, c, log_msg ERROR_MSG CLIENT_RT ''Socket hasn't been created yet, aborting...'' [] w)
           else
             (case connection_open c w of (r, c, w) \<Rightarrow>
                if r \<noteq> 0 then (1, c, log_msg ERROR_MSG CLIENT_RT ''Failed to open the connection'' [] w)
                else (0, c\<lparr>conn_state := CONNECTION_CONNECTED\<rparr>, w))))"

definition connection_disconnect :: "connection \<Rightarrow> world \<Rightarrow> rc \<times> connection \<times> world" where
  "connection_disconnect c w =
     (if conn_state c = CONNECTION_DISCONNECTED then
        (1, c, log_msg ERROR_MSG CLIENT_RT ''Socket is already disconnected'' [] w)
      else
        (let w = log_msg INFO_MSG CLIENT_RT ''Disconnecting from server...'' [] w;
             c = c\<lparr>conn_state := CONNECTION_DISCONNECTING\<rparr>
         in case connection_cleanup c w of (c, w) \<Rightarrow>
              (0, c, log_msg INFO_MSG CLIENT_RT ''Disconnected successfully'' [] w)))"

text \<open>
  One call of \<^verbatim>\<open>send\<close> or \<^verbatim>\<open>recv\<close> with its bookkeeping; the number of bytes stands for
  the result, 0 for every result that is not positive.
\<close>

definition connection_send :: "connection \<Rightarrow> bytes \<Rightarrow> world \<Rightarrow> nat \<times> connection \<times> world" where
  "connection_send c buffer w =
     (case sys_send (conn_socket c) buffer w of (sent, w) \<Rightarrow>
        (sent,
         if sent > 0 then
           c\<lparr>bytes_sent := bytes_sent c + of_nat sent, packets_sent := packets_sent c + 1\<rparr>
         else c, w))"

definition connection_receive :: "connection \<Rightarrow> nat \<Rightarrow> world \<Rightarrow> bytes \<times> connection \<times> world" where
  "connection_receive c n w =
     (case sys_recv (conn_socket c) n w of (bs, w) \<Rightarrow>
        (bs,
         if length bs > 0 then
           c\<lparr>bytes_received := bytes_received c + of_nat (length bs), packets_received := packets_received c + 1\<rparr>
         else c, w))"

section \<open>Facts\<close>

text \<open>
  The state machine of the connection: connected with an open socket, or disconnected with
  none. Every operation but the first half of connecting ends in one of the two.
\<close>

definition connection_ok :: "connection \<Rightarrow> world \<Rightarrow> bool" where
  "connection_ok c w \<longleftrightarrow>
     (conn_state c = CONNECTION_CONNECTED \<and> 0 \<le> conn_socket c \<and> socks w (conn_socket c) \<noteq> None) \<or>
     (conn_state c = CONNECTION_DISCONNECTED \<and> conn_socket c = -1)"

lemma connection_connect_result:
  assumes run: "connection_connect c ip port w = (r, c', w')" and ok: "connection_ok c w"
    and free: "socks w (fd_script w (fd_calls w)) = None"
  shows "connection_ok c' w'" "r = 0 \<or> r = 1"
    "r = 0 \<Longrightarrow> conn_state c' = CONNECTION_CONNECTED \<and> conn_ip c' = take 63 ip \<and> conn_port c' = port \<and>
       inet_pton (take 63 ip) \<noteq> None \<and> socks w' = (socks w)(conn_socket c' \<mapsto> sock_script w (fd_calls w)) \<and>
       conn_socket c' = fd_script w (fd_calls w) \<and> 0 \<le> conn_socket c'"
    "r = 1 \<Longrightarrow> socks w' = socks w"
proof -
  obtain fd w1 where sk: "sys_socket (log_msg INFO_MSG CLIENT_RT ''Attempting to connect to server...'' [] w) = (fd, w1)"
    by force
  have k: "socks w1 = (if fd < 0 then socks w else (socks w)(fd \<mapsto> sock_script w (fd_calls w)))"
      "0 \<le> fd \<Longrightarrow> socks w fd = None \<and> fd = fd_script w (fd_calls w)"
    using sk free by (auto simp: sys_socket_def Let_def split: if_splits)
  show "connection_ok c' w'" "r = 0 \<or> r = 1"
    "r = 0 \<Longrightarrow> conn_state c' = CONNECTION_CONNECTED \<and> conn_ip c' = take 63 ip \<and> conn_port c' = port \<and>
       inet_pton (take 63 ip) \<noteq> None \<and> socks w' = (socks w)(conn_socket c' \<mapsto> sock_script w (fd_calls w)) \<and>
       conn_socket c' = fd_script w (fd_calls w) \<and> 0 \<le> conn_socket c'"
    "r = 1 \<Longrightarrow> socks w' = socks w"
    using run ok sk k
    by (auto simp: connection_connect_def connection_create_socket_def connection_open_def connection_cleanup_def
        connection_ok_def sys_net_def socks_close Let_def fun_upd_idem split: if_splits option.splits)
qed

lemma connection_disconnect_result:
  assumes run: "connection_disconnect c w = (r, c', w')" and ok: "connection_ok c w"
  shows "connection_ok c' w'" "conn_state c' = CONNECTION_DISCONNECTED"
    "r = 0 \<longleftrightarrow> conn_state c = CONNECTION_CONNECTED"
    "r = 0 \<Longrightarrow> closed w' = closed w @ [conn_socket c] \<and> bad_closes w' = bad_closes w"
  using run ok
  by (auto simp: connection_disconnect_def connection_cleanup_def connection_ok_def sys_close_def Let_def
      split: if_splits option.splits)

lemma connection_transfer_ok:
  "connection_send c b w = (n, c', w') \<Longrightarrow> connection_ok c w \<Longrightarrow> connection_ok c' w'"
  "connection_receive c k w = (bs, c', w') \<Longrightarrow> connection_ok c w \<Longrightarrow> connection_ok c' w'"
  by (auto simp: connection_send_def connection_receive_def sys_send_def sys_recv_def connection_ok_def Let_def
      split: if_splits option.splits prod.splits)

end
