(* ===== verification/ClientEnv.thy ===== *)
theory ClientEnv
  imports ClientCore SessionManager
begin

text \<open>
  The client's environment, \<^verbatim>\<open>src/commands/client_env.h\<close>, \<^verbatim>\<open>client_env.c\<close>
  and \<^verbatim>\<open>main/client.c\<close>: the commands, the thread that connects, the three threads that
  run while the session is established (each cut into its start, what it does when data is
  there, one turn of its loop from the return of \<^verbatim>\<open>select\<close> on, and its end), and the main
  thread.
\<close>

definition CLIENT_SHELL_PREFIX :: string where "CLIENT_SHELL_PREFIX = ''sencd-client > ''"
definition CLIENT_DEFAULT_IP :: string where "CLIENT_DEFAULT_IP = ''127.0.0.1''"
definition CLIENT_DEFAULT_VNI :: string where "CLIENT_DEFAULT_VNI = ''10.8.0.2''"

record client =
  cl_session :: session
  cl_identity :: crypto_context
  cl_connection :: connection
  cl_tun :: "tun_device option"

record client_thread_data =
  td_ip :: string
  td_status :: int
  td_port :: u16

text \<open>The loops of all threads run while this holds; the receiver looks at the first half only.\<close>

definition established :: "client \<Rightarrow> bool" where
  "established c = (sess_state (cl_session c) = SESSION_ESTABLISHED)"

definition tunnel_up :: "client \<Rightarrow> bool" where
  "tunnel_up c = (established c \<and> udp_socket (udp (cl_session c)) \<ge> 0)"

section \<open>Commands\<close>

text \<open>
  The end of a session, in the same words in \<^verbatim>\<open>cmd_disconnect\<close> and at the end of
  \<^verbatim>\<open>client_receiver\<close>.
\<close>

definition client_drop :: "client \<Rightarrow> world \<Rightarrow> client \<times> world" where
  "client_drop c w =
     (case session_destroy (cl_session c) w of (s, w) \<Rightarrow>
        let c = c\<lparr>cl_session := s\<rparr>;
            c = c\<lparr>cl_connection := (cl_connection c)\<lparr>conn_socket := -1\<rparr>\<rparr>;
            c = c\<lparr>cl_connection := (cl_connection c)\<lparr>conn_state := CONNECTION_DISCONNECTED\<rparr>\<rparr>
        in (c, w))"

text \<open>The flag is \<^verbatim>\<open>should_exit\<close>.\<close>

definition cmd_disconnect :: "client option \<Rightarrow> bool \<Rightarrow> world \<Rightarrow> client option \<times> bool \<times> world" where
  "cmd_disconnect active_client should_exit w =
     (case active_client of
        None \<Rightarrow> (None, should_exit, log_msg WARN_MSG CLIENT_RT ''Not currently connected'' [] w)
      | Some c \<Rightarrow>
          if \<not> established c then
            (Some c, should_exit, log_msg WARN_MSG CLIENT_RT ''Not currently connected'' [] w)
          else
            (case client_drop c w of (c, w) \<Rightarrow>
               (Some c, True, log_msg SUCCESS_MSG CLIENT_RT ''Disconnected from server'' [] w)))"

datatype client_command_func = Client_Clear | Client_Disconnect

definition client_commands :: "(string \<times> client_command_func) list" where
  "client_commands = [(''clear'', Client_Clear), (''disconnect'', Client_Disconnect)]"

definition client_execute_command ::
    "client option \<Rightarrow> string \<Rightarrow> bool \<Rightarrow> world \<Rightarrow> client option \<times> bool \<times> world" where
  "client_execute_command active_client input should_exit w =
     (case map_of client_commands input of
        Some Client_Clear \<Rightarrow> (active_client, should_exit, cmd_clear w)
      | Some Client_Disconnect \<Rightarrow> cmd_disconnect active_client should_exit w
      | None \<Rightarrow>
          (active_client, should_exit,
           log_msg ERROR_MSG CLIENT_RT (''Unknown command'' @ [CHR 0x0A]) [] w))"

section \<open>The receiving thread\<close>

text \<open>One turn of the loop of \<^verbatim>\<open>client_receiver\<close>: does it go on?\<close>

definition client_receiver_packet :: "client \<Rightarrow> world \<Rightarrow> bool \<times> world" where
  "client_receiver_packet c w =
     (case packet_receive (sess_socket (cl_session c)) packet_init w of (r, p, w) \<Rightarrow>
        if r \<noteq> 0 then (case packet_destroy p w of (_, w) \<Rightarrow> (False, w))
        else if ptype (header p) = type_code PACKET_DISCONNECT then
          (case packet_destroy p w of (_, w) \<Rightarrow>
             (False, log_msg WARN_MSG CLIENT_RT ''Server closed the connection'' [] w))
        else (case packet_destroy p w of (_, w) \<Rightarrow> (True, w)))"

definition client_receiver_end :: "client \<Rightarrow> world \<Rightarrow> client \<times> world" where
  "client_receiver_end c w = (if established c then client_drop c w else (c, w))"

text \<open>Each turn that goes on has consumed a packet.\<close>

lemma client_receiver_packet_msg:
  "client_receiver_packet c w =
     (case recv_msg (sess_socket (cl_session c)) w of (p, w) \<Rightarrow>
        case p of
          None \<Rightarrow> (False, w)
        | Some p \<Rightarrow>
            if ptype (header p) = type_code PACKET_DISCONNECT then
              (False, log_msg WARN_MSG CLIENT_RT ''Server closed the connection'' [] w)
            else (True, w))"
  by (simp add: client_receiver_packet_def recv_msg_def split: prod.split)

lemma client_receiver_packet_frame:
  assumes "client_receiver_packet c w = (go, w')"
  shows "socket_frame (sess_socket (cl_session c)) w w'" "io_frame w w'"
  using assms recv_msg_frame(1,3)
  by (auto simp: client_receiver_packet_msg intro: io_frame_trans [OF _ log_msg_io] split: prod.splits option.splits if_splits)

lemma client_receiver_packet_consumes:
  assumes "client_receiver_packet c w = (True, w')"
  shows "length (pending (sess_socket (cl_session c)) w') < length (pending (sess_socket (cl_session c)) w)"
proof -
  obtain p where "recv_msg (sess_socket (cl_session c)) w = (Some p, w')"
    using assms by (auto simp: client_receiver_packet_msg split: prod.splits option.splits if_splits)
  from recv_msg_sound(2) [OF this] show ?thesis by (auto simp: wire_packet_def PACKET_HEADER_SIZE_def)
qed

text \<open>
  The thread when no other thread touches the client: the loop, then the end of the session;
  none as long as it waits for the server. The flag says that \<^verbatim>\<open>should_exit\<close> is set, as it is
  on every path.
\<close>

function client_receiver_loop :: "client \<Rightarrow> world \<Rightarrow> world option" where
  "client_receiver_loop c w =
     (if established c then
        (case client_receiver_packet c w of (go, w') \<Rightarrow>
           if stalled w' then None else if go then client_receiver_loop c w' else Some w')
      else Some w)"
  by pat_completeness auto

termination client_receiver_loop
  by (relation "measure (\<lambda>(c, w). length (pending (sess_socket (cl_session c)) w))")
    (auto dest!: client_receiver_packet_consumes [OF sym])

declare client_receiver_loop.simps [simp del]

definition client_receiver :: "client \<Rightarrow> world \<Rightarrow> (client \<times> bool \<times> world) option" where
  "client_receiver c w =
     (case client_receiver_loop c w of
        None \<Rightarrow> None
      | Some w \<Rightarrow> (case client_receiver_end c w of (c, w) \<Rightarrow> Some (c, True, w)))"

section \<open>The sending thread\<close>

definition client_tun_sender_start :: "world \<Rightarrow> bool \<times> world" where
  "client_tun_sender_start w =
     (case allocate_three w of (a, b, c, w) \<Rightarrow>
        if \<not> a \<or> \<not> b \<or> \<not> c then
          (False, free_three a b c
             (log_msg ERROR_MSG CLIENT_RT ''Failed to allocate TUN sender buffers'' [] w))
        else (True, w))"

text \<open>
  The counter is incremented in the argument of \<^verbatim>\<open>tunnel_packet_encode\<close>, before the call.
\<close>

definition client_tun_sender_packet :: "sodium \<Rightarrow> zstd \<Rightarrow> client \<Rightarrow> world \<Rightarrow> client \<times> world" where
  "client_tun_sender_packet S Z c w =
     (case tun_read (the (cl_tun c)) TUNNEL_PACKET_MAX_PLAINTEXT w of (raw, w) \<Rightarrow>
        if length raw = 0 then (c, w)
        else
          (let compressed = tunnel_pipeline_compress Z (host w) raw TUNNEL_PACKET_MAX_PLAINTEXT
           in if length compressed = 0 then (c, w)
              else
                (let s = cl_session c;
                     inp = \<lparr>enc_session_id = session_id s, enc_counter = tx_nonce (crypto s),
                            enc_plaintext = compressed\<rparr>;
                     s = s\<lparr>crypto := (crypto s)\<lparr>tx_nonce := tx_nonce (crypto s) + 1\<rparr>\<rparr>;
                     c = c\<lparr>cl_session := s\<rparr>
                 in case tunnel_packet_encode S inp (crypto s) w of
                      (None, w) \<Rightarrow> (c, w)
                    | (Some encoded, w) \<Rightarrow>
                        (c, sys_send_datagram (udp_socket (udp s)) None encoded w))))"

definition client_tun_sender_wake :: "sodium \<Rightarrow> zstd \<Rightarrow> int \<Rightarrow> client \<Rightarrow> world \<Rightarrow> bool \<times> client \<times> world" where
  "client_tun_sender_wake S Z ready c w =
     (if \<not> tunnel_up c then (False, c, w)
      else if ready \<le> 0 then (True, c, w)
      else (True, client_tun_sender_packet S Z c w))"

section \<open>The thread that receives datagrams\<close>

definition client_udp_receiver_start :: "world \<Rightarrow> bool \<times> world" where
  "client_udp_receiver_start w =
     (case allocate_three w of (a, b, c, w) \<Rightarrow>
        if \<not> a \<or> \<not> b \<or> \<not> c then
          (False, free_three a b c
             (log_msg ERROR_MSG CLIENT_RT ''Failed to allocate UDP receive buffers'' [] w))
        else (True, w))"

definition client_udp_receiver_datagram :: "sodium \<Rightarrow> zstd \<Rightarrow> client \<Rightarrow> world \<Rightarrow> world" where
  "client_udp_receiver_datagram S Z c w =
     (case sys_recvfrom (udp_socket (udp (cl_session c))) TUNNEL_PACKET_MAX_SIZE w of
        (None, w) \<Rightarrow> w
      | (Some (_, buffer), w) \<Rightarrow>
          (case tunnel_packet_decode S (host w) buffer (crypto (cl_session c)) of
             None \<Rightarrow> w
           | Some plaintext \<Rightarrow>
               (let decompressed = tunnel_pipeline_decompress Z (host w) plaintext TUNNEL_PACKET_MAX_PLAINTEXT
                in if length decompressed = 0 then w
                   else (case cl_tun c of None \<Rightarrow> w | Some dev \<Rightarrow> snd (tun_write dev decompressed w)))))"

definition client_udp_receiver_wake :: "sodium \<Rightarrow> zstd \<Rightarrow> int \<Rightarrow> client \<Rightarrow> world \<Rightarrow> bool \<times> world" where
  "client_udp_receiver_wake S Z ready c w =
     (if \<not> tunnel_up c then (False, w)
      else if ready \<le> 0 then (True, w)
      else (True, client_udp_receiver_datagram S Z c w))"

section \<open>Connecting\<close>

text \<open>
  \<^verbatim>\<open>client_listener\<close>: connect, look up the trusted key, shake hands, open the UDP tunnel.
  The status in the thread's data tells the main thread whether it worked; on success the
  receiver and sender of the tunnel are started.
\<close>

definition client_trusted_key :: "world \<Rightarrow> bytes option \<times> world" where
  "client_trusted_key w =
     (case crypto_config_path ''server_trusted.key'' PATH_MAX w of
        (None, w) \<Rightarrow> (None, w)
      | (Some path, w) \<Rightarrow> (crypto_trust_key_load path w, w))"

definition client_listener ::
    "sodium \<Rightarrow> client_thread_data \<Rightarrow> client \<Rightarrow> world \<Rightarrow> client_thread_data \<times> client \<times> world" where
  "client_listener S data c w =
     (case connection_connect (cl_connection c) (td_ip data) (td_port data) w of (r, con, w) \<Rightarrow>
        let c = c\<lparr>cl_connection := con\<rparr>
        in if r = 0 then
          (case client_trusted_key w of (trusted, w) \<Rightarrow>
           case session_create SESSION_CLIENT (conn_socket (cl_connection c)) (td_ip data)
             (cl_identity c) trusted w of (_, s, w) \<Rightarrow>
           case session_client_connect S s w of (r, s, w) \<Rightarrow>
             if r = 0 then
               (let w = log_msg SUCCESS_MSG CLIENT_RT ''Secure session created, now starting UDP tunnel...'' [] w
                in case udp_tunnel_client_open (udp s) (td_ip data) (td_port data) w of (r, tunnel, w) \<Rightarrow>
                     let c = c\<lparr>cl_session := s\<lparr>udp := tunnel\<rparr>\<rparr>
                     in if r = 0 then (data, c, w)
                        else (data\<lparr>td_status := 1\<rparr>, c,
                              log_msg ERROR_MSG CLIENT_RT ''Failed to open UDP tunnel'' [] w))
             else
               (data\<lparr>td_status := 1\<rparr>, c\<lparr>cl_session := s\<rparr>,
                log_msg ERROR_MSG CLIENT_RT ''Handshake Failed'' [] w))
        else
          (data\<lparr>td_status := 1\<rparr>, c, log_msg ERROR_MSG CLIENT_RT ''Connection Failed'' [] w))"

section \<open>The main thread\<close>

text \<open>
  \<^verbatim>\<open>start_client_environment\<close> up to the creation of the connecting thread: the client and
  the data for that thread, or none when it returns early.
\<close>

definition client_arguments :: "string list \<Rightarrow> client_thread_data" where
  "client_arguments argv =
     (let data = \<lparr>td_ip = CLIENT_DEFAULT_IP, td_status = 0, td_port = CLIENT_DEFAULT_PORT\<rparr>;
          data = (if length argv > 2 then data\<lparr>td_ip := argv ! 2\<rparr> else data)
      in if length argv > 3 then data\<lparr>td_port := of_int (atoi (argv ! 3))\<rparr> else data)"

definition client_load_identity :: "sodium \<Rightarrow> world \<Rightarrow> crypto_context option \<times> world" where
  "client_load_identity S w =
     (case crypto_config_path ''client_identity.key'' PATH_MAX w of
        (None, w) \<Rightarrow> (None, w)
      | (Some path, w) \<Rightarrow>
          (case crypto_identity_load_or_create S crypto_context_init path w of (r, ctx, w) \<Rightarrow>
             (if r \<noteq> 0 then None else Some ctx, w)))"

definition client_environment_begin ::
    "sodium \<Rightarrow> string list \<Rightarrow> world \<Rightarrow> (client \<times> client_thread_data) option \<times> world" where
  "client_environment_begin S argv w =
     (let c = \<lparr>cl_session = session_init SESSION_CLIENT, cl_identity = crypto_context_init,
               cl_connection = connection_init, cl_tun = None\<rparr>
      in case client_load_identity S w of
           (None, w) \<Rightarrow>
             (None, log_msg ERROR_MSG CLIENT_RT ''Failed to load or create client identity'' [] w)
         | (Some ctx, w) \<Rightarrow>
             (let c = c\<lparr>cl_identity := ctx\<rparr>;
                  data = client_arguments argv
              in case tun_open \<lparr>cfg_address = CLIENT_DEFAULT_VNI, cfg_netmask = DEFAULT_NETMASK,
                                cfg_ifname = CLIENT_TUN_INTERFACE_NAME\<rparr> w of
                   (None, w) \<Rightarrow>
                     (None, log_msg ERROR_MSG CLIENT_RT
                        ''Failed to open TUN device, are you running this command with root privileges?'' [] w)
                 | (Some dev, w) \<Rightarrow> (Some (c\<lparr>cl_tun := Some dev\<rparr>, data), w)))"

text \<open>
  One turn of the main thread's loop from the return of \<^verbatim>\<open>select\<close> on, and what follows
  the loop.
\<close>

definition client_main_wake :: "int \<Rightarrow> client \<Rightarrow> bool \<Rightarrow> world \<Rightarrow> bool \<times> client \<times> bool \<times> world" where
  "client_main_wake ready c should_exit w =
     (if should_exit then (False, c, should_exit, w)
      else if ready \<le> 0 then (True, c, should_exit, w)
      else
        (case sys_fgets 256 w of
           (None, w) \<Rightarrow> (False, c, should_exit, w)
         | (Some input, w) \<Rightarrow>
             (case client_execute_command (Some c) (cut_newline input) should_exit w of (c', should_exit, w) \<Rightarrow>
                if should_exit then (False, the c', should_exit, w)
                else (True, the c', should_exit, printf CLIENT_SHELL_PREFIX w))))"

definition client_environment_end :: "client \<Rightarrow> world \<Rightarrow> client \<times> world" where
  "client_environment_end c w =
     (if conn_state (cl_connection c) \<noteq> CONNECTION_DISCONNECTED then
        (case connection_disconnect (cl_connection c) w of (_, con, w) \<Rightarrow> (c\<lparr>cl_connection := con\<rparr>, w))
      else (c, w))"

section \<open>main/client.c\<close>

datatype client_main_action = Client_Usage | Client_Help | Client_Start | Client_Invalid

definition client_main :: "string list \<Rightarrow> client_main_action" where
  "client_main argv =
     (if length argv < 2 then Client_Usage
      else if argv ! 1 = ''--help'' then Client_Help
      else if argv ! 1 = ''connect'' then Client_Start
      else Client_Invalid)"

end
