(* ===== verification/Tunnel.thy ===== *)
theory Tunnel
  imports ManagerFacts ClientEnv
begin

text \<open>
  The way of a packet through the tunnel: from the TUN device of the client through
  \<^verbatim>\<open>client_tun_sender\<close> and \<^verbatim>\<open>session_manager_udp_listener\<close> to the device of the
  server, and back through \<^verbatim>\<open>session_manager_tun_sender\<close> and
  \<^verbatim>\<open>client_udp_receiver\<close>.
\<close>

section \<open>The pipeline of a packet\<close>

text \<open>
  What both senders make of a packet: compressed, then encrypted and put behind its header;
  and what both receivers make of a datagram.
\<close>

definition seal :: "sodium \<Rightarrow> zstd \<Rightarrow> endian \<Rightarrow> session \<Rightarrow> bytes \<Rightarrow> bytes option" where
  "seal S Z e s raw =
     (case aead_encrypt S (tunnel_pipeline_compress Z e raw TUNNEL_PACKET_MAX_PLAINTEXT)
         (crypto_build_nonce e (tx_nonce (crypto s))) (tx_key (crypto s)) of
        None \<Rightarrow> None
      | Some c \<Rightarrow> Some (tunnel_header (session_id s, tx_nonce (crypto s)) @ c))"

definition unseal :: "sodium \<Rightarrow> zstd \<Rightarrow> endian \<Rightarrow> crypto_context \<Rightarrow> bytes \<Rightarrow> bytes" where
  "unseal S Z e ctx d =
     (case tunnel_packet_decode S e d ctx of
        None \<Rightarrow> []
      | Some z \<Rightarrow> tunnel_pipeline_decompress Z e z TUNNEL_PACKET_MAX_PLAINTEXT)"

text \<open>A packet that fits the tunnel even when it cannot be compressed.\<close>

definition tunnel_mtu :: nat where
  "tunnel_mtu = TUNNEL_PACKET_MAX_PLAINTEXT - TUNNEL_COMPRESS_HEADER_SIZE"

definition fits :: "bytes \<Rightarrow> bool" where
  "fits raw \<longleftrightarrow> raw \<noteq> [] \<and> length raw \<le> tunnel_mtu"

lemma mtu_consts: "tunnel_mtu = 65499" "TUNNEL_PACKET_MAX_PLAINTEXT = 65504" "TUNNEL_PACKET_MAX_SIZE = 65536"
  "TUNNEL_HEADER_SIZE = 16" "TUNNEL_AEAD_TAG_SIZE = 16"
  by (simp_all add: tunnel_mtu_def tunnel_consts compress_consts)

definition advance :: "session \<Rightarrow> session" where
  "advance s = s\<lparr>crypto := (crypto s)\<lparr>tx_nonce := tx_nonce (crypto s) + 1\<rparr>\<rparr>"

lemma seal_runs:
  assumes S: "aead_correct S" and Z: "zstd_bounded Z" and wf: "wf_crypto (crypto s)" and fit: "fits raw"
  shows "\<exists>d. seal S Z e s raw = Some d \<and> length d \<le> TUNNEL_PACKET_MAX_SIZE \<and>
    tunnel_pipeline_compress Z e raw TUNNEL_PACKET_MAX_PLAINTEXT \<noteq> [] \<and>
    (\<forall>w. host w = e \<longrightarrow> tunnel_packet_encode S
       \<lparr>enc_session_id = session_id s, enc_counter = tx_nonce (crypto s),
        enc_plaintext = tunnel_pipeline_compress Z e raw TUNNEL_PACKET_MAX_PLAINTEXT\<rparr> (crypto (advance s)) w = (Some d, w))"
proof -
  let ?z = "tunnel_pipeline_compress Z e raw TUNNEL_PACKET_MAX_PLAINTEXT"
  have len: "length ?z \<le> TUNNEL_PACKET_MAX_PLAINTEXT" by (rule compress_bound_out [OF Z])
  have ne: "?z \<noteq> []"
    using fit by (intro compress_total) (simp add: fits_def mtu_consts compress_consts)
  have "length ?z < 2 ^ 32" using len by (simp add: mtu_consts)
  with S wf obtain c where c: "aead_encrypt S ?z (crypto_build_nonce e (tx_nonce (crypto s))) (tx_key (crypto s)) = Some c"
      "length c = length ?z + TUNNEL_AEAD_TAG_SIZE"
    unfolding aead_correct_def wf_crypto_def by (metis length_crypto_build_nonce)
  have "seal S Z e s raw = Some (tunnel_header (session_id s, tx_nonce (crypto s)) @ c)"
    by (simp add: seal_def c)
  moreover have "length (tunnel_header (session_id s, tx_nonce (crypto s)) @ c) \<le> TUNNEL_PACKET_MAX_SIZE"
    using len c(2) by (simp add: mtu_consts)
  ultimately show ?thesis
    using ne len c(1)
    by (auto simp: tunnel_packet_encode_def crypto_encrypt_packet_def advance_def Let_def tunnel_header_def
        mem_bytes_to_be)
qed

lemma unseal_seal:
  assumes d: "seal S Z e s raw = Some d"
    and S: "aead_correct S" and Z: "zstd_bounded Z" "zstd_correct Z"
    and wf: "wf_crypto (crypto s)" and fit: "fits raw" and key: "rx_key ctx = tx_key (crypto s)"
  shows "unseal S Z e' ctx d = raw" "tunnel_packet_peek_session_id e' d = Some (session_id s)"
    "tunnel_packet_decode S e' d ctx = Some (tunnel_pipeline_compress Z e raw TUNNEL_PACKET_MAX_PLAINTEXT)"
proof -
  let ?inp = "\<lparr>enc_session_id = session_id s, enc_counter = tx_nonce (crypto s),
        enc_plaintext = tunnel_pipeline_compress Z e raw TUNNEL_PACKET_MAX_PLAINTEXT\<rparr>"
  let ?w = "calm_world\<lparr>host := e\<rparr>"
  obtain d' where "seal S Z e s raw = Some d'" and ne: "tunnel_pipeline_compress Z e raw TUNNEL_PACKET_MAX_PLAINTEXT \<noteq> []"
      and en: "tunnel_packet_encode S ?inp (crypto (advance s)) ?w = (Some d', ?w)"
    using seal_runs [OF S Z(1) wf fit, of e] by auto
  with d have en: "tunnel_packet_encode S ?inp (crypto (advance s)) ?w = (Some d, ?w)" by simp
  have wf': "wf_crypto (crypto (advance s))" using wf by (simp add: wf_crypto_def advance_def)
  have key': "rx_key ctx = tx_key (crypto (advance s))" using key by (simp add: advance_def)
  note ed = encode_decode [OF en S wf' key']
  show dec: "tunnel_packet_decode S e' d ctx = Some (tunnel_pipeline_compress Z e raw TUNNEL_PACKET_MAX_PLAINTEXT)"
    using ed(1) by simp
  show "tunnel_packet_peek_session_id e' d = Some (session_id s)" using ed(2) by simp
  have "tunnel_pipeline_decompress Z e' (tunnel_pipeline_compress Z e raw TUNNEL_PACKET_MAX_PLAINTEXT)
      TUNNEL_PACKET_MAX_PLAINTEXT = raw"
    by (rule compress_roundtrip [OF Z(2) _ _ ne]) (use fit in \<open>simp_all add: fits_def mtu_consts\<close>)
  with dec show "unseal S Z e' ctx d = raw" by (simp add: unseal_def)
qed

section \<open>Sending\<close>

text \<open>The next packet the kernel delivers on a TUN device.\<close>

definition device_has :: "tun_device \<Rightarrow> bytes \<Rightarrow> world \<Rightarrow> bool" where
  "device_has dev raw w \<longleftrightarrow> (\<exists>k rest. socks w (dev_fd dev) = Some k \<and> rx_chunks k = raw # rest)"

lemma tun_read_has:
  assumes "device_has dev raw w" and "length raw \<le> n"
  shows "\<exists>w'. tun_read dev n w = (raw, w') \<and> host w' = host w \<and> udp_out w' = udp_out w"
  using assms by (auto simp: device_has_def tun_read_def sys_read_packet_def)

lemma client_sends:
  assumes dev: "cl_tun c = Some dev" "device_has dev raw w"
    and S: "aead_correct S" and Z: "zstd_bounded Z" and wf: "wf_crypto (crypto (cl_session c))" and fit: "fits raw"
  shows "\<exists>d w'. seal S Z (host w) (cl_session c) raw = Some d \<and> length d \<le> TUNNEL_PACKET_MAX_SIZE \<and>
    client_tun_sender_packet S Z c w = (c\<lparr>cl_session := advance (cl_session c)\<rparr>, w') \<and>
    udp_out w' = udp_out w @ [(udp_socket (udp (cl_session c)), None, d)]"
proof -
  have "length raw \<le> TUNNEL_PACKET_MAX_PLAINTEXT" using fit by (simp add: fits_def mtu_consts)
  from tun_read_has [OF dev(2) this] obtain w1 where
    w1: "tun_read dev TUNNEL_PACKET_MAX_PLAINTEXT w = (raw, w1)" "host w1 = host w" "udp_out w1 = udp_out w" by blast
  obtain d where d: "seal S Z (host w) (cl_session c) raw = Some d" "length d \<le> TUNNEL_PACKET_MAX_SIZE"
      "tunnel_pipeline_compress Z (host w) raw TUNNEL_PACKET_MAX_PLAINTEXT \<noteq> []"
      "tunnel_packet_encode S \<lparr>enc_session_id = session_id (cl_session c), enc_counter = tx_nonce (crypto (cl_session c)),
         enc_plaintext = tunnel_pipeline_compress Z (host w) raw TUNNEL_PACKET_MAX_PLAINTEXT\<rparr>
         (crypto (advance (cl_session c))) w1 = (Some d, w1)"
    using seal_runs [OF S Z wf fit, of "host w"] w1(2) by blast
  have "raw \<noteq> []" using fit by (simp add: fits_def)
  then have "client_tun_sender_packet S Z c w =
      (c\<lparr>cl_session := advance (cl_session c)\<rparr>, sys_send_datagram (udp_socket (udp (cl_session c))) None d w1)"
    using d(3,4) by (simp add: client_tun_sender_packet_def dev(1) w1 Let_def advance_def)
  with d(1,2) w1(3) show ?thesis by (auto simp: sys_send_datagram_def)
qed

text \<open>The session the server's sender chooses for a packet, by the last octet of its destination.\<close>

definition routes_to :: "session_manager \<Rightarrow> bytes \<Rightarrow> nat \<Rightarrow> bool" where
  "routes_to m raw i \<longleftrightarrow> first_slot (is_target (raw ! 19)) 0 (sessions m) = Some i"

lemma routes_to_slot:
  assumes "routes_to m raw i"
  shows "i < length (sessions m)" "\<exists>s. sessions m ! i = Some s \<and> sess_state s = SESSION_ESTABLISHED \<and>
    peer_known (udp s) \<and> tunnel_ip_octet s = raw ! 19"
  using assms by (auto simp: routes_to_def first_slot_0 is_target_def split: option.splits)

lemma server_sends:
  assumes m: "manager_ok m" and dev: "tun m = Some dev" "device_has dev raw w" and len: "20 \<le> length raw"
    and to: "routes_to m raw i" and s: "sessions m ! i = Some s"
    and S: "aead_correct S" and Z: "zstd_bounded Z" and wf: "wf_crypto (crypto s)" and fit: "fits raw"
  shows "\<exists>d w'. seal S Z (host w) s raw = Some d \<and> length d \<le> TUNNEL_PACKET_MAX_SIZE \<and>
    tun_sender_packet S Z m w = (m\<lparr>sessions := (sessions m)[i := Some (advance s)]\<rparr>, w') \<and>
    udp_out w' = udp_out w @ [(manager_socket m, Some (peer_addr (udp s)), d)]"
proof -
  have free: "\<not> locked m" using m by (simp add: manager_ok_def)
  have "length raw \<le> TUNNEL_PACKET_MAX_PLAINTEXT" using fit by (simp add: fits_def mtu_consts)
  from tun_read_has [OF dev(2) this] obtain w1 where
    w1: "tun_read dev TUNNEL_PACKET_MAX_PLAINTEXT w = (raw, w1)" "host w1 = host w" "udp_out w1 = udp_out w" by blast
  obtain d where d: "seal S Z (host w) s raw = Some d" "length d \<le> TUNNEL_PACKET_MAX_SIZE"
      "tunnel_pipeline_compress Z (host w) raw TUNNEL_PACKET_MAX_PLAINTEXT \<noteq> []"
      "tunnel_packet_encode S \<lparr>enc_session_id = session_id s, enc_counter = tx_nonce (crypto s),
         enc_plaintext = tunnel_pipeline_compress Z (host w) raw TUNNEL_PACKET_MAX_PLAINTEXT\<rparr>
         (crypto (advance s)) w1 = (Some d, w1)"
    using seal_runs [OF S Z wf fit, of "host w"] w1(2) by blast
  have "tun_sender_packet S Z m w = (m\<lparr>sessions := (sessions m)[i := Some (advance s)]\<rparr>,
      sys_send_datagram (manager_socket m) (Some (peer_addr (udp s))) d w1)"
    using d(3,4) len to [unfolded routes_to_def] s free
    by (simp add: tun_sender_packet_def dev(1) w1 Let_def unlock_sessions advance_def [symmetric])
  with d(1,2) w1(3) show ?thesis by (auto simp: sys_send_datagram_def)
qed

section \<open>Receiving\<close>

text \<open>The next datagram the kernel delivers on a socket; the next write to a device succeeds.\<close>

definition datagram_next :: "int \<Rightarrow> sockaddr_in \<Rightarrow> bytes \<Rightarrow> world \<Rightarrow> bool" where
  "datagram_next fd addr d w \<longleftrightarrow> (\<exists>rest. udp_in w fd = (addr, d) # rest)"

definition can_write :: "world \<Rightarrow> bool" where
  "can_write w \<longleftrightarrow> net_ok w (net_calls w)"

lemma recvfrom_next:
  assumes "datagram_next fd addr d w" and "d \<noteq> []" and "length d \<le> n"
  shows "\<exists>w'. sys_recvfrom fd n w = (Some (addr, d), w') \<and> host w' = host w \<and> tun_out w' = tun_out w \<and>
    can_write w' = can_write w"
  using assms by (auto simp: datagram_next_def sys_recvfrom_def can_write_def)

lemma tun_write_can: "can_write w \<Longrightarrow> tun_out (snd (tun_write dev b w)) = tun_out w @ [b]"
  by (simp add: tun_write_def sys_net_def can_write_def Let_def)

lemma peek_ne: "tunnel_packet_peek_session_id e d = Some sid \<Longrightarrow> d \<noteq> []"
  by (auto simp: tunnel_packet_peek_session_id_def TUNNEL_HEADER_SIZE_def)

text \<open>
  The server takes a datagram for the first session with its id, and writes what it unseals
  to under the key of that session.
\<close>

lemma server_receives:
  assumes m: "manager_ok m" and dg: "datagram_next (manager_socket m) addr d w" "length d \<le> TUNNEL_PACKET_MAX_SIZE"
    and pk: "tunnel_packet_peek_session_id (host w) d = Some sid" and i: "find_session sid m = Some i"
    and s: "sessions m ! i = Some s" and dev: "tun m = Some dev" and cw: "can_write w"
    and un: "unseal S Z (host w) (crypto s) d = raw" "raw \<noteq> []"
  shows "\<exists>w'. udp_listener_datagram S Z m w = (m\<lparr>sessions := (sessions m)[i := Some (rebind addr s)]\<rparr>, w') \<and>
    tun_out w' = tun_out w @ [raw]"
proof -
  have free: "\<not> locked m" using m by (simp add: manager_ok_def)
  obtain w1 where w1: "sys_recvfrom (manager_socket m) TUNNEL_PACKET_MAX_SIZE w = (Some (addr, d), w1)" "host w1 = host w"
      "tun_out w1 = tun_out w" "can_write w1"
    using recvfrom_next [OF dg(1) peek_ne [OF pk] dg(2)] cw by blast
  obtain z where z: "tunnel_packet_decode S (host w) d (crypto s) = Some z"
      "tunnel_pipeline_decompress Z (host w) z TUNNEL_PACKET_MAX_PLAINTEXT = raw"
    using un by (auto simp: unseal_def split: option.splits)
  have gt: "session_manager_get m sid = (Some i, m)"
    using i by (simp add: find_session_def session_manager_get_eq [OF free])
  have rb: "s\<lparr>udp := (udp s)\<lparr>peer_addr := addr, peer_known := True\<rparr>\<rparr> = rebind addr s" by (simp add: rebind_def)
  have "udp_listener_datagram S Z m w = (m\<lparr>sessions := (sessions m)[i := Some (rebind addr s)]\<rparr>, snd (tun_write dev raw w1))"
    using un(2) s dev z free
    by (simp add: udp_listener_datagram_def w1 pk gt unlock_sessions rb Let_def)
  with w1 tun_write_can show ?thesis by simp
qed

lemma client_receives:
  assumes dg: "datagram_next (udp_socket (udp (cl_session c))) addr d w" "d \<noteq> []" "length d \<le> TUNNEL_PACKET_MAX_SIZE"
    and dev: "cl_tun c = Some dev" and cw: "can_write w"
    and un: "unseal S Z (host w) (crypto (cl_session c)) d = raw" "raw \<noteq> []"
  shows "tun_out (client_udp_receiver_datagram S Z c w) = tun_out w @ [raw]"
proof -
  obtain w1 where w1: "sys_recvfrom (udp_socket (udp (cl_session c))) TUNNEL_PACKET_MAX_SIZE w = (Some (addr, d), w1)"
      "host w1 = host w" "tun_out w1 = tun_out w" "can_write w1"
    using recvfrom_next [OF dg] cw by blast
  obtain z where z: "tunnel_packet_decode S (host w) d (crypto (cl_session c)) = Some z"
      "tunnel_pipeline_decompress Z (host w) z TUNNEL_PACKET_MAX_PLAINTEXT = raw"
    using un by (auto simp: unseal_def split: option.splits)
  with un(2) dev w1 tun_write_can [OF w1(4)] show ?thesis
    by (simp add: client_udp_receiver_datagram_def)
qed

end
