(* ===== verification/TableGuarantees.thy ===== *)
theory TableGuarantees
  imports ServerFacts Tunnel
begin

text \<open>
  The properties of the session manager and of what it builds on: the table as a partial map
  from slots, connecting and disconnecting, the two ends of the UDP socket, the TUN device
  and the listening socket.
\<close>

section \<open>Concrete tables\<close>

text \<open>A manager with the demonstration session in the slots of a list of numbers.\<close>

definition demo_slot :: "nat \<Rightarrow> session" where
  "demo_slot i = zero_session\<lparr>session_id := of_nat i, tunnel_ip_octet := of_nat (i + 2), sess_socket := int i + 10,
     sess_state := SESSION_ESTABLISHED, protocol_version := CURRENT_PROTOCOL_VERSION,
     udp := zero_udp_tunnel\<lparr>udp_socket := -1, peer_known := True\<rparr>,
     crypto := crypto_context_init\<lparr>verified := 1\<rparr>\<rparr>"

definition demo_manager :: "nat set \<Rightarrow> session_manager" where
  "demo_manager A =
     (let slots = map (\<lambda>i. if i \<in> A then Some (demo_slot i) else None) [0..<MAX_SESSIONS]
      in \<lparr>sessions = slots, identity = crypto_context_init, locked = False,
          tun = Some \<lparr>dev_name = ''sencd0'', dev_fd = 4\<rparr>, session_count = of_nat (occupied slots), manager_socket = 5\<rparr>)"

lemma demo_manager_simps [simp]:
  "i < MAX_SESSIONS \<Longrightarrow> sessions (demo_manager A) ! i = (if i \<in> A then Some (demo_slot i) else None)"
  "length (sessions (demo_manager A)) = MAX_SESSIONS" "manager_socket (demo_manager A) = 5"
  "tun (demo_manager A) = Some \<lparr>dev_name = ''sencd0'', dev_fd = 4\<rparr>" "\<not> locked (demo_manager A)"
  by (simp_all add: demo_manager_def Let_def)

lemma demo_manager_ok: "manager_ok (demo_manager A)"
  by (auto simp: manager_ok_def demo_slot_def) (simp add: demo_manager_def Let_def)

lemma demo_find:
  assumes "i \<in> A" and "i < MAX_SESSIONS"
  shows "find_session (of_nat i) (demo_manager A) = Some i"
proof -
  have id: "session_id (demo_slot j) = of_nat i \<longleftrightarrow> j = i" if "j < MAX_SESSIONS" for j
  proof -
    have "unat (of_nat j :: u64) = j" "unat (of_nat i :: u64) = i"
      using that assms(2) by (simp_all add: unat_of_nat_small MAX_SESSIONS_def)
    then show ?thesis by (simp add: demo_slot_def) metis
  qed
  have "first_slot (has_id (of_nat i)) 0 (sessions (demo_manager A)) = Some i"
    using assms id by (auto simp: first_slot_0 has_id_def split: option.splits)
  then show ?thesis by (simp add: find_session_def session_manager_get_eq)
qed

section \<open>The table of sessions\<close>

lemma manager_add_spec:
  assumes ok: "manager_ok m" and ad: "session_manager_add m s = (r, t, m')"
  shows "manager_ok m' \<and>
      (r = 0 \<and> (\<exists>i<MAX_SESSIONS. slot_of m i = None \<and> (\<forall>j<i. slot_of m j \<noteq> None) \<and>
          t = place_session i s \<and> slot_of m' = (slot_of m)(i \<mapsto> t)) \<or>
       r = 1 \<and> m' = m \<and> (\<forall>i<MAX_SESSIONS. slot_of m i \<noteq> None))"
proof -
  have len: "length (sessions m) = MAX_SESSIONS" using ok by (simp add: manager_ok_def)
  have add: "add_session s m = (if r = 0 then Some m' else None)" by (simp add: add_session_def ad)
  show ?thesis
  proof (cases "first_slot (\<lambda>slot. slot = None) 0 (sessions m)")
    case None
    with ad ok add table.add_succeeds_iff [OF ok, of s] show ?thesis
      by (auto simp: session_manager_add_eq)
  next
    case (Some i)
    with ad ok len have "r = 0" "t = place_session i s" "i < MAX_SESSIONS" "slot_of m i = None"
        "\<And>j. j < i \<Longrightarrow> slot_of m j \<noteq> None" "slot_of m' = (slot_of m)(i \<mapsto> t)"
      by (auto simp: session_manager_add_eq first_slot_0 slot_of_def fun_eq_iff nth_list_update)
    with add table.add_inv [OF ok, of s m'] show ?thesis by auto
  qed
qed

lemma manager_get_spec:
  assumes ok: "manager_ok m" and g: "session_manager_get m sid = (found, m')"
  shows "m' = m \<and> (\<forall>i. found = Some i \<longleftrightarrow> (\<exists>t. slot_of m i = Some t \<and> session_id t = sid) \<and>
         (\<forall>j<i. \<forall>t. slot_of m j = Some t \<longrightarrow> session_id t \<noteq> sid))"
proof -
  have "\<not> locked m" using ok by (simp add: manager_ok_def)
  with g have "m' = m" by (simp add: session_manager_get_eq)
  moreover have "found = Some i \<longleftrightarrow> (\<exists>t. slot_of m i = Some t \<and> session_id t = sid) \<and>
       (\<forall>j<i. \<forall>t. slot_of m j = Some t \<longrightarrow> session_id t \<noteq> sid)" for i
    using g table.find_first [OF ok, of sid i] by (simp add: find_session_def)
  ultimately show ?thesis by blast
qed

lemma manager_remove_spec:
  assumes ok: "manager_ok m" and rm: "session_manager_remove m sid w = (r, m', w')"
  shows "manager_ok m' \<and>
      (r = 0 \<and> (\<exists>i t. find_session sid m = Some i \<and> slot_of m i = Some t \<and> slot_of m' = (slot_of m)(i := None) \<and>
          w' = sys_free True (snd (session_destroy t w))) \<or>
       r = 1 \<and> m' = m \<and> w' = w \<and> find_session sid m = None)"
proof -
  have free: "\<not> locked m" and len: "length (sessions m) = MAX_SESSIONS" using ok by (simp_all add: manager_ok_def)
  have fs: "find_session sid m = first_slot (has_id sid) 0 (sessions m)"
    by (simp add: find_session_def session_manager_get_eq [OF free])
  have del: "remove_session w sid m = (if r = 0 then Some m' else None)" by (simp add: remove_session_def rm)
  show ?thesis
  proof (cases "find_session sid m")
    case None
    with rm ok fs show ?thesis by (simp add: session_manager_remove_eq)
  next
    case (Some i)
    from table.find_Some_slot [OF ok Some] obtain t where t: "slot_of m i = Some t" by blast
    from table.del_found [OF ok Some, of w] del have k: "r = 0" "manager_ok m'" "slot_of m' = (slot_of m)(i := None)"
      by (auto split: if_splits)
    have "sessions m ! i = Some t" using t by (simp add: slot_of_def split: if_splits)
    moreover have "first_slot (has_id sid) 0 (sessions m) = Some i" using fs Some by simp
    ultimately have "w' = sys_free True (snd (session_destroy t w))"
      using rm ok by (simp add: session_manager_remove_eq)
    with k t Some show ?thesis by blast
  qed
qed

text \<open>
  C18. The manager is a partial map from slot numbers to sessions: adding stores the session,
  with the octet of its slot, in the first free slot and fails only when there is none;
  looking up returns the first slot with the id; removing empties exactly that slot. Each
  keeps the invariant and leaves the mutex free, and a failure changes nothing.
\<close>

theorem session_table_refines:
  assumes "manager_ok m"
  shows "(\<forall>r t m'. session_manager_add m s = (r, t, m') \<longrightarrow> manager_ok m' \<and>
      (r = 0 \<and> (\<exists>i<MAX_SESSIONS. slot_of m i = None \<and> (\<forall>j<i. slot_of m j \<noteq> None) \<and>
          t = place_session i s \<and> slot_of m' = (slot_of m)(i \<mapsto> t)) \<or>
       r = 1 \<and> m' = m \<and> (\<forall>i<MAX_SESSIONS. slot_of m i \<noteq> None))) \<and>
    (\<forall>found m'. session_manager_get m sid = (found, m') \<longrightarrow> m' = m \<and>
      (\<forall>i. found = Some i \<longleftrightarrow> (\<exists>t. slot_of m i = Some t \<and> session_id t = sid) \<and>
         (\<forall>j<i. \<forall>t. slot_of m j = Some t \<longrightarrow> session_id t \<noteq> sid))) \<and>
    (\<forall>r m' w'. session_manager_remove m sid w = (r, m', w') \<longrightarrow> manager_ok m' \<and>
      (r = 0 \<and> (\<exists>i t. find_session sid m = Some i \<and> slot_of m i = Some t \<and> slot_of m' = (slot_of m)(i := None) \<and>
          w' = sys_free True (snd (session_destroy t w))) \<or>
       r = 1 \<and> m' = m \<and> w' = w \<and> find_session sid m = None))"
  by (intro conjI; intro allI impI)
    (erule manager_add_spec [OF assms] manager_get_spec [OF assms] manager_remove_spec [OF assms])+

theorem session_table_refines_witness:
  "\<exists>m'. session_manager_add (demo_manager {0, 1}) (demo_slot 7) = (0, place_session 2 (demo_slot 7), m') \<and>
     slot_of m' 2 = Some (place_session 2 (demo_slot 7))"
proof -
  obtain r t m' where ad: "session_manager_add (demo_manager {0, 1}) (demo_slot 7) = (r, t, m')" by (metis prod_cases3)
  have "slot_of (demo_manager {0, 1}) 2 = None" "2 < MAX_SESSIONS" by (simp_all add: slot_of_def MAX_SESSIONS_def)
  with session_table_refines [OF demo_manager_ok, THEN conjunct1, rule_format, OF ad]
  obtain i where i: "r = 0" "slot_of (demo_manager {0, 1}) i = None" "\<forall>j<i. slot_of (demo_manager {0, 1}) j \<noteq> None"
      "t = place_session i (demo_slot 7)" "slot_of m' = (slot_of (demo_manager {0, 1}))(i \<mapsto> t)"
    by blast
  have "slot_of (demo_manager {0, 1}) 0 \<noteq> None" "slot_of (demo_manager {0, 1}) 1 \<noteq> None"
    by (simp_all add: slot_of_def MAX_SESSIONS_def)
  with i(2) have "i \<noteq> 0" "i \<noteq> 1" by metis+
  moreover have "\<not> 2 < i" using i(3) \<open>slot_of (demo_manager {0, 1}) 2 = None\<close> by blast
  ultimately have "i = 2" by linarith
  with i ad show ?thesis by auto
qed

text \<open>
  C19. At most 1024 sessions are held, the counter counts them, and adding fails exactly at
  1024. The octet by which the sender chooses a session is the slot number plus 2 modulo 256:
  the sessions of two slots have the same octet exactly when the slots are equal modulo 256,
  slot 255 has the octet 1 of the server itself, and a session 256 slots after one that is
  connected is never chosen.
\<close>

theorem table_capacity:
  assumes "manager_ok m"
  shows "card (dom (slot_of m)) \<le> 1024 \<and> unat (session_count m) = card (dom (slot_of m)) \<and>
    (fst (session_manager_add m s) \<noteq> 0 \<longleftrightarrow> card (dom (slot_of m)) = 1024) \<and>
    (\<forall>i j t u. slot_of m i = Some t \<and> slot_of m j = Some u \<longrightarrow>
       (tunnel_ip_octet t = tunnel_ip_octet u \<longleftrightarrow> i mod 256 = j mod 256)) \<and>
    (\<forall>t. slot_of m 255 = Some t \<longrightarrow> tunnel_ip_octet t = 1) \<and>
    (\<forall>i raw t. slot_of m i = Some t \<and> sess_state t = SESSION_ESTABLISHED \<and> peer_known (udp t) \<longrightarrow>
       \<not> routes_to m raw (i + 256))"
proof -
  have len: "length (sessions m) = MAX_SESSIONS" and cnt: "session_count m = of_nat (occupied (sessions m))"
    and oct: "\<And>i t. slot_of m i = Some t \<Longrightarrow> i < MAX_SESSIONS \<and> tunnel_ip_octet t = of_nat (i + 2)"
    using assms by (auto simp: manager_ok_def slot_of_def split: if_splits)
  have "occupied (sessions m) = card {i. i < length (sessions m) \<and> sessions m ! i \<noteq> None}"
    by (simp add: occupied_def length_filter_conv_card)
  also have "{i. i < length (sessions m) \<and> sessions m ! i \<noteq> None} = dom (slot_of m)"
    by (auto simp: slot_of_def split: if_splits)
  finally have card: "card (dom (slot_of m)) = occupied (sessions m)" by simp
  have le: "occupied (sessions m) \<le> 1024" using occupied_le [of "sessions m"] len by (simp add: MAX_SESSIONS_def)
  then have "unat (session_count m) = card (dom (slot_of m))" using cnt card by (simp add: unat_of_nat_small)
  moreover have "fst (session_manager_add m s) \<noteq> 0 \<longleftrightarrow> card (dom (slot_of m)) = 1024"
    using table.full_card [OF assms, of s] by (auto simp: add_session_def MAX_SESSIONS_def split: prod.splits if_splits)
  moreover have same: "tunnel_ip_octet t = tunnel_ip_octet u \<longleftrightarrow> i mod 256 = j mod 256"
    if "slot_of m i = Some t" "slot_of m j = Some u" for i j t u
  proof -
    have "(of_nat (i + 2) :: byte) = of_nat (j + 2) \<longleftrightarrow> (of_nat i :: byte) = of_nat j" by simp
    also have "\<dots> \<longleftrightarrow> i mod 256 = j mod 256" by (simp add: word_of_nat_eq_iff take_bit_eq_mod)
    finally have "(of_nat (i + 2) :: byte) = of_nat (j + 2) \<longleftrightarrow> i mod 256 = j mod 256" .
    with oct [OF that(1)] oct [OF that(2)] show ?thesis by metis
  qed
  moreover have "tunnel_ip_octet t = 1" if "slot_of m 255 = Some t" for t using oct [OF that] by simp
  moreover have "\<not> routes_to m raw (i + 256)"
    if t: "slot_of m i = Some t" "sess_state t = SESSION_ESTABLISHED" "peer_known (udp t)" for i raw t
  proof
    assume r: "routes_to m raw (i + 256)"
    from routes_to_slot [OF r] obtain u where u: "slot_of m (i + 256) = Some u" "tunnel_ip_octet u = raw ! 19"
      by (auto simp: slot_of_def)
    have "is_target (raw ! 19) (sessions m ! i)"
      using same [OF t(1) u(1)] t u(2) by (simp add: is_target_def slot_of_def split: if_splits)
    moreover have "\<not> is_target (raw ! 19) (sessions m ! i)" using r by (auto simp: routes_to_def first_slot_0)
    ultimately show False by simp
  qed
  moreover have "card (dom (slot_of m)) \<le> 1024" using card le by simp
  ultimately show ?thesis by blast
qed

theorem table_capacity_witness:
  "card (dom (slot_of (demo_manager {0, 256}))) \<le> 1024 \<and> \<not> routes_to (demo_manager {0, 256}) (replicate 20 2) 256"
proof -
  have "slot_of (demo_manager {0, 256}) 0 = Some (demo_slot 0)" "sess_state (demo_slot 0) = SESSION_ESTABLISHED"
    "peer_known (udp (demo_slot 0))" by (simp_all add: slot_of_def MAX_SESSIONS_def demo_slot_def)
  with table_capacity [OF demo_manager_ok, of "{0, 256}"] show ?thesis by (metis add_0)
qed

section \<open>Connecting and disconnecting\<close>

text \<open>A client that sends nothing before its connection ends is turned away.\<close>

lemma connect_silent:
  assumes "pending fd w = []"
  shows "\<exists>m' w'. session_manager_connect S m rl fd addr w = (None, m', w')"
proof -
  obtain got w1 where ml: "sys_malloc w = (got, w1)" by force
  obtain r2 s2 w2 where cr: "session_create rl fd addr (identity m) None w1 = (r2, s2, w2)" by (metis prod_cases3)
  obtain r3 s3 w3 where co: "session_server_connect S s2 w2 = (r3, s3, w3)" by (metis prod_cases3)
  note c = session_create_result [OF cr]
  have "pending fd w2 = []"
    using assms sys_malloc_streams(2) [OF ml, of fd] local_frame_streams(1) [OF c(16), of fd] by simp
  then have "r3 \<noteq> 0"
    using session_server_connect_0(7) [of S s2 w2 s3 w3] co c(2) by (auto simp: wire_packet_def wire_header_def)
  then show ?thesis
    using cr co c(1) by (cases got) (auto simp: session_manager_connect_def ml split: prod.split)
qed

lemma demo_accept:
  "\<exists>addr w1. server_accept server_init INET_ADDRSTRLEN calm_world = (3, addr, w1) \<and> pending 3 w1 = [] \<and>
     malloc_ok w1 (malloc_calls w1)"
  by (simp add: server_accept_def sys_accept_def sys_socket_def Let_def calm_world_def pending_def fresh_sock_def
      stream_def log_unfold is_idle_def)

text \<open>
  C20. A connection attempt that has come to its end either leaves the table and the heap as they were and has closed
  the client's socket (unless the very first allocation failed), or puts one established,
  verified session on that socket, with the counter 0, into the first free slot. Other
  sockets are not touched in either case.
\<close>

theorem connect_all_or_nothing:
  assumes "session_manager_connect S m rl fd addr w = (r, m', w')" and "manager_ok m" and "0 \<le> fd"
  shows "(\<forall>fd'. fd' \<noteq> fd \<longrightarrow> socks w' fd' = socks w fd') \<and> udp_out w' = udp_out w \<and>
    (case r of
       None \<Rightarrow> m' = m \<and> leaked w' = leaked w \<and> (malloc_ok w (malloc_calls w) \<longrightarrow> socks w' fd = None)
     | Some s \<Rightarrow> good_session s \<and> sess_socket s = fd \<and> tx_nonce (crypto s) = 0 \<and> \<not> peer_known (udp s) \<and>
         leaked w' = leaked w + 1 \<and> closed w' = closed w \<and> manager_ok m' \<and>
         (\<exists>i<MAX_SESSIONS. slot_of m i = None \<and> slot_of m' = (slot_of m)(i \<mapsto> s)))"
proof (cases r)
  case None
  with session_manager_connect_result(1,3) [OF assms] show ?thesis by auto
next
  case (Some s)
  have len: "length (sessions m) = MAX_SESSIONS" using assms(2) by (simp add: manager_ok_def)
  note c = session_manager_connect_result(2) [OF assms Some]
  obtain i where i: "i < MAX_SESSIONS" "sessions m ! i = None" "tunnel_ip_octet s = of_nat (i + 2)"
      "m' = mutex_unlock (m\<lparr>sessions := (sessions m)[i := Some s], session_count := session_count m + 1\<rparr>)"
    using c by blast
  have "place_session i s = s" using i(3) by (simp add: place_session_def)
  with manager_ok_fill [OF assms(2) i(1,2), of s] i(4) have "manager_ok m'" by simp
  moreover have "slot_of m i = None" "slot_of m' = (slot_of m)(i \<mapsto> s)"
    using i(1,2,4) len by (auto simp: slot_of_def fun_eq_iff nth_list_update)
  ultimately show ?thesis
    using c i(1) session_manager_connect_result(3) [OF assms] Some by auto
qed

theorem connect_all_or_nothing_witness:
  "\<exists>addr w1 m' w'. session_manager_connect demo_sodium (demo_manager {}) SESSION_SERVER 3 addr w1 = (None, m', w') \<and>
     m' = demo_manager {} \<and> socks w' 3 = None"
proof -
  obtain addr :: string and w1 where w1: "pending 3 w1 = []" "malloc_ok w1 (malloc_calls w1)"
    using demo_accept by blast
  obtain m' w' where run: "session_manager_connect demo_sodium (demo_manager {}) SESSION_SERVER 3 addr w1 = (None, m', w')"
    using connect_silent [OF w1(1)] by blast
  from connect_all_or_nothing [OF run demo_manager_ok] w1(2) run show ?thesis by auto
qed

text \<open>
  C21. Disconnecting all sessions closes the socket of each, frees each and the device,
  empties the table, resets the counter and touches no other socket.
\<close>

theorem disconnect_all_releases:
  assumes "session_manager_disconnect_all m w = (m', w')" and "manager_ok m" and "holds_good m"
  shows "manager_ok m' \<and> sessions m' = replicate MAX_SESSIONS None \<and> session_count m' = 0 \<and> tun m' = None \<and>
    leaked w' = leaked w - int (card (dom (slot_of m))) - (if tun m = None then 0 else 1) \<and>
    (\<forall>fd. socks w' fd = (if (\<exists>s. Some s \<in> set (sessions m) \<and> sess_socket s = fd) \<or>
       (\<exists>d. tun m = Some d \<and> 0 \<le> dev_fd d \<and> dev_fd d = fd) then None else socks w fd))"
proof -
  have "occupied (sessions m) = card {i. i < length (sessions m) \<and> sessions m ! i \<noteq> None}"
    by (simp add: occupied_def length_filter_conv_card)
  also have "{i. i < length (sessions m) \<and> sessions m ! i \<noteq> None} = dom (slot_of m)"
    by (auto simp: slot_of_def split: if_splits)
  finally show ?thesis using session_manager_disconnect_all_result [OF assms] by simp
qed

theorem disconnect_all_releases_witness:
  "\<exists>m' w'. session_manager_disconnect_all (demo_manager {0, 5}) calm_world = (m', w') \<and> session_count m' = 0"
proof -
  obtain m' w' where run: "session_manager_disconnect_all (demo_manager {0, 5}) calm_world = (m', w')" by force
  have "holds_good (demo_manager {0, 5})"
    by (auto simp: holds_good_nth demo_slot_def good_session_def)
  from disconnect_all_releases [OF run demo_manager_ok this] run show ?thesis by blast
qed



section \<open>Datagrams nobody has authenticated\<close>

text \<open>
  C39. Sixteen bytes that begin with the id of a session, too short to hold any ciphertext,
  make their sender the peer of that session: the server then sends the next packet for the
  session to that address. Nothing is written to the device.
\<close>

theorem unauthenticated_rebind:
  assumes "manager_ok m" and "find_session sid m = Some i" and "sessions m ! i = Some s"
    and "datagram_next (manager_socket m) attacker (tunnel_header (sid, n)) w"
  shows "\<exists>m' w'. udp_listener_datagram S Z m w = (m', w') \<and> tun_out w' = tun_out w \<and>
    m' = m\<lparr>sessions := (sessions m)[i := Some (rebind attacker s)]\<rparr> \<and>
    (\<forall>dev raw v. tun m = Some dev \<and> device_has dev raw v \<and> 20 \<le> length raw \<and> fits raw \<and> routes_to m' raw i \<and>
       aead_correct S \<and> zstd_bounded Z \<and> wf_crypto (crypto s) \<longrightarrow>
       (\<exists>m'' v' d. tun_sender_packet S Z m' v = (m'', v') \<and>
          udp_out v' = udp_out v @ [(manager_socket m, Some attacker, d)]))"
proof -
  let ?d = "tunnel_header (sid, n)"
  have len: "length ?d = 16" by (simp add: mtu_consts)
  then have ne: "?d \<noteq> []" and le: "length ?d \<le> TUNNEL_PACKET_MAX_SIZE" by (auto simp: mtu_consts simp del: length_tunnel_header)
  have free: "\<not> locked m" and L: "length (sessions m) = MAX_SESSIONS" using assms(1) by (simp_all add: manager_ok_def)
  have i: "i < MAX_SESSIONS"
    using assms(2) L by (auto simp: find_session_def session_manager_get_eq [OF free] first_slot_0)
  obtain w1 where w1: "sys_recvfrom (manager_socket m) TUNNEL_PACKET_MAX_SIZE w = (Some (attacker, ?d), w1)"
      "host w1 = host w" "tun_out w1 = tun_out w"
    using recvfrom_next [OF assms(4) ne le] by blast
  have pk: "tunnel_packet_peek_session_id (host w) ?d = Some sid"
    using len by (simp add: peek_parse parse_tunnel_header_def tunnel_header_def word_be_bytes_be mtu_consts)
  have dec: "tunnel_packet_decode S (host w) ?d (crypto s) = None"
    using len by (simp add: tunnel_packet_decode_def mtu_consts)
  have gt: "session_manager_get m sid = (Some i, m)"
    using assms(2) by (simp add: find_session_def session_manager_get_eq [OF free])
  have rb: "s\<lparr>udp := (udp s)\<lparr>peer_addr := attacker, peer_known := True\<rparr>\<rparr> = rebind attacker s" by (simp add: rebind_def)
  let ?m = "m\<lparr>sessions := (sessions m)[i := Some (rebind attacker s)]\<rparr>"
  have run: "udp_listener_datagram S Z m w = (?m, w1)"
    using assms(3) free by (simp add: udp_listener_datagram_def w1 pk gt unlock_sessions rb dec Let_def)
  have ok: "manager_ok ?m" by (rule udp_listener_datagram_result(2) [OF run assms(1)])
  have "\<exists>m'' v' d. tun_sender_packet S Z ?m v = (m'', v') \<and> udp_out v' = udp_out v @ [(manager_socket m, Some attacker, d)]"
    if h: "tun m = Some dev" "device_has dev raw v" "20 \<le> length raw" "fits raw" "routes_to ?m raw i"
      "aead_correct S" "zstd_bounded Z" "wf_crypto (crypto s)" for dev raw v
  proof -
    have "sessions ?m ! i = Some (rebind attacker s)" "tun ?m = Some dev" "wf_crypto (crypto (rebind attacker s))"
      using i L h(1,8) by simp_all
    from server_sends [OF ok this(2) h(2,3,5) this(1) h(6,7) this(3) h(4)] show ?thesis by auto
  qed
  with run w1(3) show ?thesis by blast
qed

theorem unauthenticated_rebind_witness:
  "\<exists>m' w'. udp_listener_datagram demo_sodium demo_zstd (demo_manager {0})
      (calm_world\<lparr>udp_in := (\<lambda>_. [])(5 := [(no_addr, tunnel_header (0, 9))])\<rparr>) = (m', w') \<and>
     sessions m' ! 0 = Some (rebind no_addr (demo_slot 0))"
proof -
  let ?w = "calm_world\<lparr>udp_in := (\<lambda>_. [])(5 := [(no_addr, tunnel_header (0, 9))])\<rparr>"
  have f: "find_session 0 (demo_manager {0}) = Some 0" using demo_find [of 0 "{0}"] by (simp add: MAX_SESSIONS_def)
  have s: "sessions (demo_manager {0}) ! 0 = Some (demo_slot 0)" by (simp add: MAX_SESSIONS_def)
  have d: "datagram_next (manager_socket (demo_manager {0})) no_addr (tunnel_header (0, 9)) ?w"
    by (simp add: datagram_next_def)
  from unauthenticated_rebind [OF demo_manager_ok f s d] show ?thesis by (force simp: MAX_SESSIONS_def)
qed

lemma first_slot_update:
  "i < length xs \<Longrightarrow> P x = P (xs ! i) \<Longrightarrow> first_slot P k (xs[i := x]) = first_slot P k xs"
  by (induction P k xs arbitrary: i rule: first_slot.induct) (auto split: nat.splits)

text \<open>
  A datagram that was accepted is accepted again: the receiving side keeps no record of
  the counters it has seen, so that the packet is written to the device once for every copy.
\<close>

theorem datagrams_can_be_replayed:
  assumes "manager_ok m" and "find_session sid m = Some i" and "sessions m ! i = Some s" and "tun m = Some dev"
    and "tunnel_packet_peek_session_id (host w) d = Some sid" and "length d \<le> TUNNEL_PACKET_MAX_SIZE"
    and "unseal S Z (host w) (crypto s) d = raw" and "raw \<noteq> []"
    and "datagram_next (manager_socket m) addr d w" and "can_write w"
    and "datagram_next (manager_socket m) addr' d v" and "can_write v" and "host v = host w"
  shows "\<exists>m' w' m'' v'. udp_listener_datagram S Z m w = (m', w') \<and> tun_out w' = tun_out w @ [raw] \<and>
    udp_listener_datagram S Z m' v = (m'', v') \<and> tun_out v' = tun_out v @ [raw]"
proof -
  let ?m = "m\<lparr>sessions := (sessions m)[i := Some (rebind addr s)]\<rparr>"
  have free: "\<not> locked m" and L: "length (sessions m) = MAX_SESSIONS" using assms(1) by (simp_all add: manager_ok_def)
  have i: "i < MAX_SESSIONS"
    using assms(2) L by (auto simp: find_session_def session_manager_get_eq [OF free] first_slot_0)
  from server_receives [OF assms(1,9,6,5,2,3,4,10,7,8)] obtain w' where
    w': "udp_listener_datagram S Z m w = (?m, w')" "tun_out w' = tun_out w @ [raw]" by blast
  have ok: "manager_ok ?m" by (rule udp_listener_datagram_result(2) [OF w'(1) assms(1)])
  have f: "find_session sid ?m = Some i"
    using assms(2,3) free L i by (simp add: find_session_def session_manager_get_eq first_slot_update)
  have at: "sessions ?m ! i = Some (rebind addr s)" "tun ?m = Some dev" using i L assms(4) by simp_all
  have "datagram_next (manager_socket ?m) addr' d v" "tunnel_packet_peek_session_id (host v) d = Some sid"
      "unseal S Z (host v) (crypto (rebind addr s)) d = raw" using assms(5,7,11,13) by simp_all
  from server_receives [OF ok this(1) assms(6) this(2) f at assms(12) this(3) assms(8)] w' show ?thesis by blast
qed

lemma demo_sealed:
  "\<exists>d. seal demo_sodium demo_zstd LittleEndian (demo_slot 0) [7] = Some d \<and> length d \<le> TUNNEL_PACKET_MAX_SIZE \<and>
     tunnel_packet_peek_session_id LittleEndian d = Some 0 \<and>
     unseal demo_sodium demo_zstd LittleEndian (crypto (demo_slot 0)) d = [7]"
proof -
  have wf: "wf_crypto (crypto (demo_slot 0))" by (simp add: demo_slot_def wf_crypto_def crypto_context_init_def)
  have fit: "fits [7]" by (simp add: fits_def mtu_consts)
  have key: "rx_key (crypto (demo_slot 0)) = tx_key (crypto (demo_slot 0))"
    by (simp add: demo_slot_def crypto_context_init_def)
  obtain d where d: "seal demo_sodium demo_zstd LittleEndian (demo_slot 0) [7] = Some d" "length d \<le> TUNNEL_PACKET_MAX_SIZE"
    using seal_runs [OF demo_aead_correct demo_zstd_bounded wf fit, of LittleEndian] by blast
  note u = unseal_seal [OF d(1) demo_aead_correct demo_zstd_bounded demo_zstd_correct wf fit key]
  have "session_id (demo_slot 0) = 0" by (simp add: demo_slot_def)
  with d u(1,2) [of LittleEndian] show ?thesis by auto
qed

theorem datagrams_can_be_replayed_witness:
  "\<exists>d m' w' m'' v'. udp_listener_datagram demo_sodium demo_zstd (demo_manager {0})
      (calm_world\<lparr>udp_in := (\<lambda>_. [])(5 := [(no_addr, d)])\<rparr>) = (m', w') \<and> tun_out w' = [[7]] \<and>
    udp_listener_datagram demo_sodium demo_zstd m'
      (calm_world\<lparr>udp_in := (\<lambda>_. [])(5 := [(no_addr, d)])\<rparr>) = (m'', v') \<and> tun_out v' = [[7]]"
proof -
  obtain d where d: "length d \<le> TUNNEL_PACKET_MAX_SIZE" "tunnel_packet_peek_session_id LittleEndian d = Some 0"
      "unseal demo_sodium demo_zstd LittleEndian (crypto (demo_slot 0)) d = [7]" using demo_sealed by blast
  let ?w = "calm_world\<lparr>udp_in := (\<lambda>_. [])(5 := [(no_addr, d)])\<rparr>"
  have w: "host ?w = LittleEndian" "tun_out ?w = []" "can_write ?w" by (simp_all add: calm_world_def can_write_def)
  have f: "find_session 0 (demo_manager {0}) = Some 0" using demo_find [of 0 "{0}"] by (simp add: MAX_SESSIONS_def)
  have s: "sessions (demo_manager {0}) ! 0 = Some (demo_slot 0)" by (simp add: MAX_SESSIONS_def)
  have g: "datagram_next (manager_socket (demo_manager {0})) no_addr d ?w" by (simp add: datagram_next_def)
  from datagrams_can_be_replayed [OF demo_manager_ok f s demo_manager_simps(4) d(2) [folded w(1)] d(1) d(3) [folded w(1)]
      _ g w(3) g w(3) refl] w(2)
  show ?thesis by fastforce
qed

section \<open>Opening devices and sockets\<close>

text \<open>
  C24. Opening the TUN device either fails without leaving a descriptor or a block behind,
  or returns a device on a new descriptor whose interface is up with the configured address
  and netmask; the control socket is closed in either case. After a failure the interfaces are
  as before, or without one of the configured name.
\<close>

theorem tun_open_all_or_nothing:
  assumes "tun_open config w = (dev, w')" and "unused 2 w"
  shows "case dev of
      None \<Rightarrow> socks w' = socks w \<and> leaked w' = leaked w \<and>
        (ifaces w' = ifaces w \<or> ifaces w' = (ifaces w)(take (IFNAMSIZ - 1) (cfg_ifname config) := None))
    | Some d \<Rightarrow> 0 \<le> dev_fd d \<and> socks w (dev_fd d) = None \<and>
        socks w' = (socks w)(dev_fd d \<mapsto> sock_script w (fd_calls w)) \<and> leaked w' = leaked w + 1 \<and>
        (\<exists>addr nmask. inet_pton (cfg_address config) = Some addr \<and> inet_pton (cfg_netmask config) = Some nmask \<and>
           ifaces w' (dev_name d) = Some \<lparr>if_addr = addr, if_netmask = nmask, if_up = True\<rparr>)"
proof (cases dev)
  case None
  have "ifaces w' = ifaces w \<or> ifaces w' = (ifaces w)(take (IFNAMSIZ - 1) (cfg_ifname config) := None)"
    using tun_open_result(3) [OF assms None] by (auto simp: fun_upd_def)
  with None tun_open_result(1) [OF assms] show ?thesis by simp
next
  case (Some d)
  have "socks w (fd_script w (fd_calls w)) = None" using assms(2) by (auto simp: unused_def dest: spec [of _ 0])
  with tun_open_result(2) [OF assms Some] Some show ?thesis by auto
qed

theorem tun_open_all_or_nothing_witness:
  "\<exists>dev w'. tun_open \<lparr>cfg_address = SERVER_DEFAULT_VNI, cfg_netmask = DEFAULT_NETMASK,
      cfg_ifname = SERVER_TUN_INTERFACE_NAME\<rparr> calm_world = (dev, w') \<and> leaked w' \<le> 1"
proof -
  let ?c = "\<lparr>cfg_address = SERVER_DEFAULT_VNI, cfg_netmask = DEFAULT_NETMASK, cfg_ifname = SERVER_TUN_INTERFACE_NAME\<rparr>"
  obtain dev w' where run: "tun_open ?c calm_world = (dev, w')" by force
  have "unused 2 calm_world" by (simp add: unused_def calm_world_def)
  from tun_open_all_or_nothing [OF run this] have "leaked w' \<le> leaked calm_world + 1" by (auto split: option.splits)
  moreover have "leaked calm_world = 0" by (simp add: leaked_def log_lines_def calm_world_def)
  ultimately show ?thesis using run by auto
qed

text \<open>
  C34. Starting the listening socket returns 0 or 1: on 0 the server runs on a new open
  socket with the requested port, on 1 no socket is left open and the server does not run.
  A server that runs is not started again.
\<close>

theorem server_start_all_or_nothing:
  assumes "server_start s port w = (r, s', w')" and "socks w (fd_script w (fd_calls w)) = None"
  shows "if running s then r = 1 \<and> s' = s \<and> socks w' = socks w
    else (r = 0 \<and> running s' \<and> srv_port s' = port \<and> 0 \<le> srv_socket s' \<and>
            socks w' = (socks w)(srv_socket s' \<mapsto> sock_script w (fd_calls w)) \<or>
          r = 1 \<and> \<not> running s' \<and> srv_socket s' = -1 \<and> socks w' = socks w)"
proof (cases "running s")
  case True
  with assms(1) show ?thesis by (simp add: server_start_def) auto
next
  case False
  from server_start_result [OF assms(1) False assms(2)] False show ?thesis by auto
qed

theorem server_start_all_or_nothing_witness:
  "\<exists>r s' w'. server_start server_init 8080 calm_world = (r, s', w') \<and> (r = 0 \<longrightarrow> running s')"
proof -
  obtain r s' w' where run: "server_start server_init 8080 calm_world = (r, s', w')" by (metis prod_cases3)
  have "socks calm_world (fd_script calm_world (fd_calls calm_world)) = None" "\<not> running server_init"
    by (simp_all add: calm_world_def server_init_def)
  with server_start_all_or_nothing [OF run] run show ?thesis by auto
qed

end
