(* ===== verification/Demo.thy ===== *)
theory Demo
  imports Agreement
begin

text \<open>
  Concrete inputs for the examples beside the properties: two ends of a connection that have
  not met, and a script of the network on which their handshake completes.
\<close>

section \<open>Concrete ends of a connection\<close>

text \<open>
  Two sessions with demonstration keys, on sockets 3 and 4, and the worlds in which each has
  the other's stream waiting in one piece.
\<close>

definition demo_end :: "session_role_t \<Rightarrow> int \<Rightarrow> byte \<Rightarrow> session" where
  "demo_end rl fd k =
     (session_init rl)\<lparr>sess_socket := fd, session_id := 7, protocol_version := CURRENT_PROTOCOL_VERSION,
        crypto := crypto_context_init\<lparr>public_key := replicate 32 k, private_key := replicate 64 k\<rparr>\<rparr>"

definition demo_client :: session where "demo_client = demo_end SESSION_CLIENT 3 1"
definition demo_server :: session where "demo_server = demo_end SESSION_SERVER 4 2"

definition demo_world :: "int \<Rightarrow> bytes \<Rightarrow> world" where
  "demo_world fd bs = calm_world\<lparr>socks := (\<lambda>_. None)(fd \<mapsto> fresh_sock\<lparr>rx_chunks := [bs]\<rparr>)\<rparr>"

definition demo_challenge :: auth_challenge where
  "demo_challenge = server_challenge demo_sodium demo_server calm_world"

definition client_world :: world where
  "client_world = demo_world 3 (server_stream demo_sodium demo_server calm_world)"

definition server_world :: world where
  "server_world = demo_world 4 (client_stream demo_sodium demo_challenge demo_client calm_world)"

lemma demo_world_same:
  "draw n k (demo_world fd bs) = draw n k calm_world" "host (demo_world fd bs) = host calm_world"
  "pad_bytes (demo_world fd bs) = pad_bytes calm_world" "malloc_ok (demo_world fd bs) i"
  "accepts_data fd (demo_world fd bs)" "bs \<noteq> [] \<Longrightarrow> pending fd (demo_world fd bs) = bs"
  "sent_on fd (demo_world fd bs) = []"
  by (simp_all add: draw_def demo_world_def calm_world_def accepts_data_def fresh_sock_def pending_def stream_def
      sent_on_def)

lemma demo_streams:
  "server_challenge S s (demo_world fd bs) = server_challenge S s calm_world"
  "client_response S c s (demo_world fd bs) = client_response S c s calm_world"
  "server_stream S s (demo_world fd bs) = server_stream S s calm_world"
  "client_stream S c s (demo_world fd bs) = client_stream S c s calm_world"
  "server_stream S s w \<noteq> []" "client_stream S c s w \<noteq> []"
  by (simp_all add: server_challenge_def client_response_def server_success_def server_stream_def client_stream_def
      hello_wire_def body_wire_def demo_world_same wire_packet_def wire_header_def)

lemma demo_end_ok:
  "identity_ok demo_sodium (crypto (demo_end rl fd k))" "serviceable (demo_end rl fd k) (demo_world fd bs)"
  by (auto simp: identity_ok_def demo_end_def demo_sodium_def size_consts serviceable_def demo_world_same
      replicate_add [symmetric])

lemma demo_pending:
  "pending (sess_socket demo_client) client_world = server_stream demo_sodium demo_server server_world @ []"
  "pending (sess_socket demo_server) server_world =
     client_stream demo_sodium (server_challenge demo_sodium demo_server server_world) demo_client client_world @ []"
  by (simp_all add: demo_client_def demo_server_def demo_end_def client_world_def server_world_def demo_challenge_def
      demo_world_same demo_streams)

lemma demo_ends:
  "identity_ok demo_sodium (crypto demo_client)" "identity_ok demo_sodium (crypto demo_server)"
  "serviceable demo_client client_world" "serviceable demo_server server_world"
  "\<not> has_trusted_peer_key demo_client"
  by (simp_all add: demo_client_def demo_server_def client_world_def server_world_def demo_end_ok)
    (simp add: demo_end_def session_init_def zero_session_def)

text \<open>The concrete run, both handshakes complete.\<close>

lemma demo_run:
  "\<exists>sc' wc' ss' ws'. session_client_connect demo_sodium demo_client client_world = (0, sc', wc') \<and>
    session_server_connect demo_sodium demo_server server_world = (0, ss', ws')"
  using handshake_completes [OF demo_ends(3,4,1,2) demo_kx_correct _ demo_pending] demo_ends(5) by blast

end
