(* ===== verification/WireGuarantees.thy ===== *)
theory WireGuarantees
  imports TableGuarantees Demo
begin

text \<open>
  The properties of what travels and of what is stored: packets on TCP sockets, the messages
  of the handshake, the pipeline of the tunnel, keys on disk, and the console.
\<close>

section \<open>Packets\<close>

text \<open>
  C14. A packet that is constructed, within the size limit, and sent on a socket that keeps
  taking data is received as the same packet by any receiver that finds the bytes that were
  sent at the front of its stream, whatever the pieces they arrive in and whatever the byte
  orders of the two hosts; what follows stays in the stream.
\<close>

theorem packet_roundtrip:
  assumes "packet_construct d w = (p, w1)" and "wf_constructor d"
    and "header_version d = CURRENT_PROTOCOL_VERSION" and "c_payload_length d \<le> MAX_PACKET_SIZE"
    and "\<And>i. malloc_ok w i" and "accepts_data fd w" and "packet_send fd p w1 = (r, w2)"
  shows "r = 0 \<and> (\<exists>bs. sent_on fd w2 = sent_on fd w @ bs \<and>
    (\<forall>fd' v q rest. pending fd' v = bs @ rest \<and> (\<forall>i. malloc_ok v i) \<longrightarrow>
       (\<exists>v'. packet_receive fd' q v = (0, p, v') \<and> pending fd' v' = rest)))"
proof -
  have p: "p = packet_of d" by (rule packet_construct_ok [OF assms(1,2,5)])
  note f = packet_construct_frame [OF assms(1)] packet_construct_streams [OF assms(1)]
  have wf: "wf_packet p" using wf_packet_of [OF assms(2)] p by simp
  have sz: "payload_length (header p) \<le> MAX_PACKET_SIZE" using assms(4) by (simp add: p packet_of_def)
  have acc: "acceptable p" using wf sz assms(3) type_code_le [of "header_type d"] by (simp add: acceptable_def p packet_of_def)
  have "accepts_data fd w1" using f(9) assms(6) by simp
  then have r: "r = 0" by (rule packet_send_ok [OF assms(7) _ wf sz])
  then have "sent_on fd w2 = sent_on fd w @ wire_packet (pad_bytes w1) p"
    using packet_send_sent [of fd p w1 w2] assms(7) wf f(8) by simp
  moreover have "\<exists>v'. packet_receive fd' q v = (0, p, v') \<and> pending fd' v' = rest"
    if "pending fd' v = wire_packet (pad_bytes w1) p @ rest" "\<forall>i. malloc_ok v i" for fd' v q rest
  proof -
    obtain r' p' v' where rc: "packet_receive fd' q v = (r', p', v')" by (metis prod_cases3)
    from packet_receive_complete [OF this acc that(1)] that(2) rc show ?thesis by auto
  qed
  ultimately show ?thesis using r by blast
qed

definition demo_message :: packet_constructor_t where
  "demo_message =
     \<lparr>c_payload = Some [1, 2, 3], c_payload_length = 3, header_type = PACKET_TUNNEL_DATA,
      header_version = CURRENT_PROTOCOL_VERSION\<rparr>"

text \<open>A world with a stream waiting in two pieces.\<close>

definition two_pieces :: "int \<Rightarrow> bytes \<Rightarrow> world" where
  "two_pieces fd bs = calm_world\<lparr>socks := (\<lambda>_. None)(fd \<mapsto> fresh_sock\<lparr>rx_chunks := [take 3 bs, drop 3 bs]\<rparr>)\<rparr>"

lemma two_pieces_simps [simp]: "pending fd (two_pieces fd bs) = bs" "malloc_ok (two_pieces fd bs) i"
  by (simp_all add: two_pieces_def pending_def stream_def calm_world_def)

theorem packet_roundtrip_witness:
  "\<exists>p w1 w2 v'. packet_construct demo_message (demo_world 3 []) = (p, w1) \<and> packet_send 3 p w1 = (0, w2) \<and>
     packet_receive 4 packet_init (two_pieces 4 (sent_on 3 w2)) = (0, p, v')"
proof -
  obtain p w1 where c: "packet_construct demo_message (demo_world 3 []) = (p, w1)" by force
  obtain r w2 where s: "packet_send 3 p w1 = (r, w2)" by force
  have "wf_constructor demo_message" "header_version demo_message = CURRENT_PROTOCOL_VERSION"
      "c_payload_length demo_message \<le> MAX_PACKET_SIZE"
    by (simp_all add: wf_constructor_def demo_message_def MAX_PACKET_SIZE_def)
  from packet_roundtrip [OF c this demo_world_same(4,5) s] obtain bs where
    r: "r = 0" "sent_on 3 w2 = sent_on 3 (demo_world 3 []) @ bs" and
    rc: "\<And>v q rest. pending 4 v = bs @ rest \<Longrightarrow> \<forall>i. malloc_ok v i \<Longrightarrow>
       \<exists>v'. packet_receive 4 q v = (0, p, v') \<and> pending 4 v' = rest"
    by blast
  from r(2) have bs: "sent_on 3 w2 = bs" by (simp add: demo_world_same)
  from rc [of "two_pieces 4 bs" "[]" packet_init] obtain v' where
    "packet_receive 4 packet_init (two_pieces 4 bs) = (0, p, v')" by auto
  with c s r(1) bs show ?thesis by blast
qed

text \<open>
  C15. What \<^verbatim>\<open>packet_receive\<close> returns as a packet is well formed, has the current version, a
  known type and a payload of at most 16 MiB, and is exactly what stood at the front of the
  stream; given memory, it returns one if and only if such a packet stands there. On every
  path nothing is sent or closed, other sockets stay as they are, and the memory held is that
  of the packet returned.
\<close>

theorem packet_receive_strict:
  assumes "packet_receive fd q w = (r, p, w')"
  shows "(r = 0 \<longrightarrow> wf_packet p \<and> version (header p) = CURRENT_PROTOCOL_VERSION \<and>
      ptype (header p) \<le> type_code PACKET_ERROR \<and> payload_length (header p) \<le> MAX_PACKET_SIZE \<and>
      (\<exists>pad. pending fd w = wire_packet pad p @ pending fd w')) \<and>
    ((\<forall>i. malloc_ok w i) \<longrightarrow>
      (r = 0 \<longleftrightarrow> (\<exists>p0 pad rest. acceptable p0 \<and> pending fd w = wire_packet pad p0 @ rest))) \<and>
    (r = 0 \<or> r = 1) \<and> leaked w' - blocks p = leaked w - blocks q \<and>
    sent_on fd w' = sent_on fd w \<and> closed w' = closed w \<and> (\<forall>fd'. fd' \<noteq> fd \<longrightarrow> socks w' fd' = socks w fd')"
proof -
  have "closed w' = closed w" using packet_receive_frame(1) [OF assms] by (simp add: io_frame_def)
  moreover have "r = 0 \<longrightarrow> acceptable p \<and> (\<exists>pad. pending fd w = wire_packet pad p @ pending fd w')"
    using packet_receive_sound assms by blast
  moreover have "r = 0" if "\<forall>i. malloc_ok w i" "acceptable p0" "pending fd w = wire_packet pad p0 @ rest" for p0 pad rest
    using packet_receive_complete [OF assms that(2,3)] that(1) by blast
  ultimately show ?thesis
    using packet_receive_rc [OF assms] packet_receive_frame(2,4,5) [OF assms] unfolding acceptable_def by blast
qed

theorem packet_receive_strict_witness:
  "\<exists>r p w'. packet_receive 4 packet_init (two_pieces 4 (replicate 8 9)) = (r, p, w') \<and> r = 1 \<and>
     leaked w' - blocks p = leaked (two_pieces 4 (replicate 8 9)) - blocks packet_init"
proof -
  obtain r p w' where run: "packet_receive 4 packet_init (two_pieces 4 (replicate 8 9)) = (r, p, w')"
    by (metis prod_cases3)
  note strict = packet_receive_strict [OF run]
  have "r \<noteq> 0"
  proof
    assume "r = 0"
    with strict obtain pad where k: "version (header p) = CURRENT_PROTOCOL_VERSION"
      "replicate 8 9 = wire_packet pad p @ pending 4 w'" by auto
    have "(replicate 8 9 :: bytes) ! 4 = version (header p)"
      unfolding k(2) by (simp add: wire_packet_def wire_header_def nth_append)
    with k(1) show False by (simp add: CURRENT_PROTOCOL_VERSION_def)
  qed
  with strict run show ?thesis by blast
qed

text \<open>
  C33. Whatever the network does, what \<^verbatim>\<open>packet_send\<close> has sent is a prefix of the packet's
  encoding, all of it when the result is 0; a packet over the limit is refused before a byte
  is sent; a socket that takes data gets the whole packet. Nothing is read or leaked.
\<close>

theorem packet_send_all_or_prefix:
  assumes "packet_send fd p w = (r, w')" and "wf_packet p"
  shows "(\<exists>k \<le> length (wire_packet (pad_bytes w) p).
      sent_on fd w' = sent_on fd w @ take k (wire_packet (pad_bytes w) p) \<and>
      (r = 0 \<longrightarrow> k = length (wire_packet (pad_bytes w) p))) \<and>
    (MAX_PACKET_SIZE < payload_length (header p) \<longrightarrow> r = 1 \<and> sent_on fd w' = sent_on fd w) \<and>
    (payload_length (header p) \<le> MAX_PACKET_SIZE \<and> accepts_data fd w \<longrightarrow> r = 0) \<and>
    (r = 0 \<or> r = 1) \<and> pending fd w' = pending fd w \<and> leaked w' = leaked w"
  using packet_send_prefix [OF assms] packet_send_oversize [of p fd w] packet_send_ok [OF assms(1) _ assms(2)]
    packet_send_rc [OF assms(1)] packet_send_frame(2,3) [OF assms(1)] assms(1)
  by auto

theorem packet_send_all_or_prefix_witness:
  "\<exists>r w'. packet_send 3 (packet_of demo_message) (demo_world 3 []) = (r, w') \<and> r = 0"
proof -
  obtain r w' where run: "packet_send 3 (packet_of demo_message) (demo_world 3 []) = (r, w')" by force
  have "wf_packet (packet_of demo_message)" "payload_length (header (packet_of demo_message)) \<le> MAX_PACKET_SIZE"
    by (simp_all add: wf_packet_def packet_of_def demo_message_def payload_bytes_def MAX_PACKET_SIZE_def)
  with packet_send_all_or_prefix [OF run] run demo_world_same(5) [of 3 "[]"] show ?thesis by blast
qed

section \<open>The pipeline of the tunnel\<close>

text \<open>
  C25. The output of the compression never exceeds its capacity nor the input by more than
  the five bytes of its header; it fails only when the raw packet and the header do not fit;
  and what it produced is decompressed to the raw packet by a host of any byte order whose
  buffer can hold it. Whatever is decompressed stays within the buffer.
\<close>

theorem compression_roundtrip:
  assumes "zstd_bounded Z" and "zstd_correct Z" and "length raw < 2 ^ 32" and "length raw \<le> cap'"
  shows "length (tunnel_pipeline_compress Z e raw cap) \<le> cap \<and>
    length (tunnel_pipeline_compress Z e raw cap) \<le> length raw + TUNNEL_COMPRESS_HEADER_SIZE \<and>
    (length raw + TUNNEL_COMPRESS_HEADER_SIZE \<le> cap \<longrightarrow> tunnel_pipeline_compress Z e raw cap \<noteq> []) \<and>
    (tunnel_pipeline_compress Z e raw cap \<noteq> [] \<longrightarrow>
       tunnel_pipeline_decompress Z e' (tunnel_pipeline_compress Z e raw cap) cap' = raw) \<and>
    length (tunnel_pipeline_decompress Z e' buf cap') \<le> cap'"
  using compress_bound_out [OF assms(1)] decompress_bound_out [OF assms(1)] compress_overhead compress_total
    compress_roundtrip [OF assms(2-4)] by blast

theorem compression_roundtrip_witness:
  "length (tunnel_pipeline_compress demo_zstd LittleEndian (replicate 100 7) 200) = 8 \<and>
   tunnel_pipeline_decompress demo_zstd BigEndian
     (tunnel_pipeline_compress demo_zstd LittleEndian (replicate 100 7) 200) 100 = replicate 100 7"
proof -
  have c: "length (tunnel_pipeline_compress demo_zstd LittleEndian (replicate 100 7) 200) = 8"
    by (simp add: tunnel_pipeline_compress_def demo_zstd_def Let_def compress_consts)
  then have "tunnel_pipeline_compress demo_zstd LittleEndian (replicate 100 7) 200 \<noteq> []" by force
  with c compression_roundtrip [OF demo_zstd_bounded demo_zstd_correct, of "replicate 100 7" 100 LittleEndian 200 BigEndian "[]"]
  show ?thesis by simp
qed

text \<open>
  C30. The format of the tunnel does not depend on the byte order of the host: compression,
  decompression, nonces, the session id and the decoded text are the same on both, and so is
  the datagram that encoding produces.
\<close>

theorem tunnel_format_host_independent:
  "tunnel_pipeline_compress Z e raw cap = tunnel_pipeline_compress Z e' raw cap \<and>
   tunnel_pipeline_decompress Z e buf cap = tunnel_pipeline_decompress Z e' buf cap \<and>
   crypto_build_nonce e counter = crypto_build_nonce e' counter \<and>
   tunnel_packet_peek_session_id e buf = tunnel_packet_peek_session_id e' buf \<and>
   tunnel_packet_decode S e buf ctx = tunnel_packet_decode S e' buf ctx \<and>
   fst (tunnel_packet_encode S inp ctx (w\<lparr>host := e\<rparr>)) = fst (tunnel_packet_encode S inp ctx w)"
proof -
  have nonce: "crypto_build_nonce e counter = crypto_build_nonce e' counter" for e e' counter
    by (simp add: crypto_build_nonce_inject)
  have "tunnel_pipeline_compress Z e raw cap = tunnel_pipeline_compress Z e' raw cap"
    by (simp add: tunnel_pipeline_compress_def mem_bytes_to_be Let_def)
  moreover have "tunnel_pipeline_decompress Z e buf cap = tunnel_pipeline_decompress Z e' buf cap"
    by (cases "length buf < TUNNEL_COMPRESS_HEADER_SIZE")
      (simp_all add: tunnel_pipeline_decompress_def TUNNEL_COMPRESS_HEADER_SIZE_def to_be_mem_word Let_def)
  moreover have "tunnel_packet_peek_session_id e buf = tunnel_packet_peek_session_id e' buf" by (simp add: peek_parse)
  moreover have "tunnel_packet_decode S e buf ctx = tunnel_packet_decode S e' buf ctx"
    by (simp add: decode_parse crypto_decrypt_packet_def nonce [where e = e and e' = e'])
  moreover have "fst (tunnel_packet_encode S inp ctx (w\<lparr>host := e\<rparr>)) = fst (tunnel_packet_encode S inp ctx w)"
    by (simp add: tunnel_packet_encode_def crypto_encrypt_packet_def mem_bytes_to_be Let_def nonce [where e = e and e' = "host w"]
        split: option.split)
  ultimately show ?thesis using nonce by blast
qed

text \<open>
  C17. Reading a datagram, the server sends nothing and either ignores it or takes it for a
  session whose id it carries. It writes to the TUN device only what decompresses from a text
  that was encrypted under the receiving key of that session: the datagram is then a header
  and the ciphertext for the counter in it.
\<close>

theorem listener_writes_authentic:
  assumes "udp_listener_datagram S Z m w = (m', w')" and "manager_ok m" and "aead_authentic S"
  shows "udp_out w' = udp_out w \<and> manager_ok m' \<and>
    (tun_out w' \<noteq> tun_out w \<longrightarrow>
      (\<exists>addr buf rest i s sid counter c z. udp_in w (manager_socket m) = (addr, buf) # rest \<and>
        sessions m ! i = Some s \<and> i < MAX_SESSIONS \<and> session_id s = sid \<and>
        take TUNNEL_PACKET_MAX_SIZE buf = tunnel_header (sid, counter) @ c \<and>
        aead_encrypt S z (crypto_build_nonce (host w) counter) (rx_key (crypto s)) = Some c \<and>
        tun_out w' = tun_out w @ [tunnel_pipeline_decompress Z (host w) z TUNNEL_PACKET_MAX_PLAINTEXT]))"
proof (rule conjI [OF udp_listener_datagram_result(1) [OF assms(1,2)]
      conjI [OF udp_listener_datagram_result(2) [OF assms(1,2)] impI]])
  assume "tun_out w' \<noteq> tun_out w"
  with udp_listener_datagram_result(3) [OF assms(1,2)] obtain addr buf rest i s z where
    k: "udp_in w (manager_socket m) = (addr, buf) # rest" "i < MAX_SESSIONS" "sessions m ! i = Some s"
      "tunnel_packet_peek_session_id (host w) (take TUNNEL_PACKET_MAX_SIZE buf) = Some (session_id s)"
      "tunnel_packet_decode S (host w) (take TUNNEL_PACKET_MAX_SIZE buf) (crypto s) = Some z"
      "tun_out w' = tun_out w @ [tunnel_pipeline_decompress Z (host w) z TUNNEL_PACKET_MAX_PLAINTEXT]"
    by metis
  from decode_authentic [OF k(5) assms(3)] obtain sid counter c where
    d: "take TUNNEL_PACKET_MAX_SIZE buf = tunnel_header (sid, counter) @ c"
      "aead_encrypt S z (crypto_build_nonce (host w) counter) (rx_key (crypto s)) = Some c"
    by blast
  have "sid = session_id s"
    using k(4) unfolding d(1)
    by (simp add: peek_parse parse_tunnel_header_def tunnel_header_def word_be_bytes_be split: if_splits)
  with k d show "\<exists>addr buf rest i s sid counter c z. udp_in w (manager_socket m) = (addr, buf) # rest \<and>
        sessions m ! i = Some s \<and> i < MAX_SESSIONS \<and> session_id s = sid \<and>
        take TUNNEL_PACKET_MAX_SIZE buf = tunnel_header (sid, counter) @ c \<and>
        aead_encrypt S z (crypto_build_nonce (host w) counter) (rx_key (crypto s)) = Some c \<and>
        tun_out w' = tun_out w @ [tunnel_pipeline_decompress Z (host w) z TUNNEL_PACKET_MAX_PLAINTEXT]"
    by blast
qed

theorem listener_writes_authentic_witness:
  "udp_out (snd (udp_listener_datagram demo_sodium demo_zstd (demo_manager {0})
     (calm_world\<lparr>udp_in := (\<lambda>_. [(\<lparr>sin_addr = 1, sin_port = 2\<rparr>, replicate 40 0)])\<rparr>))) = []"
proof -
  let ?w = "calm_world\<lparr>udp_in := (\<lambda>_. [(\<lparr>sin_addr = 1, sin_port = 2\<rparr>, replicate 40 0)])\<rparr>"
  obtain m' w' where run: "udp_listener_datagram demo_sodium demo_zstd (demo_manager {0}) ?w = (m', w')" by force
  with listener_writes_authentic [OF run demo_manager_ok demo_aead_authentic] show ?thesis
    by (simp add: calm_world_def)
qed

section \<open>Keys on disk\<close>

text \<open>
  C22. A start that returns 0, on a disk that takes what is written, leaves the identity in
  use in the file, and every later start that can open the file and finds it unchanged loads
  the same keys and neither draws entropy nor writes.
\<close>

theorem identity_roundtrip:
  assumes "crypto_identity_load_or_create S ctx path w = (0, ctx', w')" and "sign_correct S" and "wf_crypto ctx"
    and "\<And>i. CRYPTO_PRIVATE_KEY_SIZE \<le> write_quota w i" and "sys_fopen_rb path v = files w' path" and "wf_crypto ctx2"
  shows "crypto_identity_load_or_create S ctx2 path v =
    (0, ctx2\<lparr>public_key := public_key ctx', private_key := private_key ctx'\<rparr>, v)"
proof -
  from crypto_identity_stored [OF assms(1-4)] assms(5) obtain f where
    f: "sys_fopen_rb path v = Some f" "stored_identity S f (public_key ctx') (private_key ctx')" by auto
  from crypto_identity_load_stored [OF f assms(6)] show ?thesis by (simp add: crypto_identity_load_or_create_def)
qed

theorem identity_roundtrip_witness:
  "\<exists>ctx w. crypto_identity_load_or_create demo_sodium crypto_context_init ''k'' calm_world = (0, ctx, w) \<and>
     crypto_identity_load_or_create demo_sodium crypto_context_init ''k'' w =
       (0, crypto_context_init\<lparr>public_key := public_key ctx, private_key := private_key ctx\<rparr>, w)"
proof -
  have "\<exists>ctx w. crypto_identity_load_or_create demo_sodium crypto_context_init ''k'' calm_world = (0, ctx, w) \<and>
      readable w ''k''"
    by (simp add: crypto_identity_load_or_create_def crypto_identity_load_def sys_fopen_rb_def crypto_generate_identity_def
        sys_fopen_wb_def sys_fwrite_def sys_chmod_def sys_random_def demo_sodium_def size_consts calm_world_def rand_bytes_def Let_def)
  then obtain ctx w where run: "crypto_identity_load_or_create demo_sodium crypto_context_init ''k'' calm_world = (0, ctx, w)"
      "sys_fopen_rb ''k'' w = files w ''k''"
    by (auto simp: sys_fopen_rb_def)
  have "\<And>i. CRYPTO_PRIVATE_KEY_SIZE \<le> write_quota calm_world i"
    by (simp add: calm_world_def size_consts)
  from identity_roundtrip [OF run(1) demo_sign_correct wf_crypto_init this run(2) wf_crypto_init] run(1) show ?thesis by blast
qed

text \<open>
  C23. Saving a key reports success exactly when the file can be opened; a later load that can
  open the file and finds it unchanged then returns the key if all its bytes were written and
  nothing otherwise, although the result of the save was 0. Other files stay as they are, and the new one is readable by its owner only.
\<close>

theorem trusted_key_roundtrip:
  assumes "crypto_trust_key_save path key w = (r, w')" and "length key = CRYPTO_PUBLIC_KEY_SIZE"
  shows "r = (if writable w path then 0 else 1) \<and>
    (r = 0 \<longrightarrow> (\<forall>v. sys_fopen_rb path v = files w' path \<longrightarrow> crypto_trust_key_load path v =
         (if CRYPTO_PUBLIC_KEY_SIZE \<le> write_quota w (write_calls w) then Some key else None)) \<and>
       (\<exists>f. files w' path = Some f \<and> owner_only f)) \<and>
    (r = 1 \<longrightarrow> files w' = files w) \<and> (\<forall>other. other \<noteq> path \<longrightarrow> files w' other = files w other)"
  using assms
  by (auto simp: crypto_trust_key_save_def crypto_trust_key_load_def sys_fopen_wb_def sys_fwrite_def sys_chmod_def
      split: if_splits option.splits)

theorem trusted_key_roundtrip_witness:
  "crypto_trust_key_load ''t'' (snd (crypto_trust_key_save ''t'' (replicate 32 9) calm_world)) = Some (replicate 32 9) \<and>
   crypto_trust_key_load ''t'' (snd (crypto_trust_key_save ''t'' (replicate 32 9) (calm_world\<lparr>write_quota := \<lambda>_. 31\<rparr>))) = None"
proof -
  have "crypto_trust_key_load ''t'' (snd (crypto_trust_key_save ''t'' (replicate 32 9) w)) =
      (if 32 \<le> write_quota w (write_calls w) then Some (replicate 32 9) else None)"
    if "writable w ''t''" "readable w ''t''" for w
  proof -
    obtain r w' where run: "crypto_trust_key_save ''t'' (replicate 32 9) w = (r, w')" by force
    have "readable w' = readable w" using run by (auto simp: crypto_trust_key_save_def sys_fopen_wb_def sys_fwrite_def
          sys_chmod_def split: if_splits)
    then have "sys_fopen_rb ''t'' w' = files w' ''t''" using that(2) by (simp add: sys_fopen_rb_def)
    with trusted_key_roundtrip [OF run] that(1) run show ?thesis by (simp add: size_consts)
  qed
  then show ?thesis by (simp add: calm_world_def)
qed

text \<open>
  C31. A path is returned exactly when there is a home directory, the name of the
  configuration directory in it is taken or can be made, and both paths fit their buffers with
  the terminating zero. It is the path of the file in that directory, which exists afterwards
  or was the name of something else before: \<^verbatim>\<open>mkdir\<close> reports every taken name as existing, and
  the code then succeeds. No file is touched.
\<close>

theorem config_path_bound:
  assumes "crypto_config_path filename n w = (r, w')"
  shows "(\<forall>path. r = Some path \<longleftrightarrow> length path < n \<and>
      (\<exists>home. (home_env w = Some home \<and> home \<noteq> [] \<or> home_env w \<in> {None, Some []} \<and> pw_dir w = Some home) \<and>
        path = home @ ''/.sencd-config/'' @ filename \<and> length (home @ ''/.sencd-config'') < PATH_MAX \<and>
        (name_taken (home @ ''/.sencd-config'') w \<or> mkdir_ok w (home @ ''/.sencd-config'')))) \<and>
    (\<forall>dir. r = Some (dir @ ''/'' @ filename) \<longrightarrow> dir \<in> set (dirs w') \<or> files w dir \<noteq> None \<or> other_names w dir) \<and>
    files w' = files w \<and> socks w' = socks w \<and> leaked w' = leaked w"
proof -
  define home where "home = (case home_env w of None \<Rightarrow> pw_dir w | Some h \<Rightarrow> (if h = [] then pw_dir w else Some h))"
  have h: "home = Some h \<longleftrightarrow> home_env w = Some h \<and> h \<noteq> [] \<or> home_env w \<in> {None, Some []} \<and> pw_dir w = Some h" for h
    by (auto simp: home_def split: option.splits)
  show ?thesis
  proof (cases home)
    case None
    have "(r, w') = (None, log_msg ERROR_MSG OTHER_RT ''Could not determine home directory'' [] w)"
      unfolding assms [symmetric] by (simp add: crypto_config_path_def None home_def [symmetric])
    then show ?thesis unfolding h [symmetric] None by simp
  next
    case (Some hm)
    define dir where "dir = hm @ ''/'' @ SENCD_CONFIG_DIRNAME"
    obtain res v where mk: "sys_mkdir dir w = (res, v)" by force
    have v: "files v = files w \<and> socks v = socks w \<and> leaked v = leaked w"
      "res \<noteq> MkdirFailed \<longleftrightarrow> name_taken dir w \<or> mkdir_ok w dir"
      "res \<noteq> MkdirFailed \<Longrightarrow> dir \<in> set (dirs v) \<or> files w dir \<noteq> None \<or> other_names w dir"
      using mk by (auto simp: sys_mkdir_def name_taken_def intro: leaked_cong split: if_splits)
    have eq: "(r, w') = (if PATH_MAX \<le> length dir then (None, w)
        else if res = MkdirFailed then (None, log_msg ERROR_MSG OTHER_RT ''Failed to create config directory'' [] v)
        else if n \<le> length (dir @ ''/'' @ filename) then (None, v) else (Some (dir @ ''/'' @ filename), v))"
      unfolding assms [symmetric] crypto_config_path_def home_def [symmetric] Some Let_def dir_def [symmetric] mk
        option.case prod.case ..
    have dir: "hm @ ''/.sencd-config'' = dir" "hm @ ''/.sencd-config/'' @ filename = dir @ ''/'' @ filename"
      by (simp_all add: dir_def SENCD_CONFIG_DIRNAME_def)
    have "r = Some path \<longleftrightarrow> length path < n \<and> path = dir @ ''/'' @ filename \<and> length dir < PATH_MAX \<and>
        (name_taken dir w \<or> mkdir_ok w dir)" for path
      using eq v(2) by (auto split: if_splits)
    moreover have "d \<in> set (dirs w') \<or> files w d \<noteq> None \<or> other_names w d" if "r = Some (d @ ''/'' @ filename)" for d
      using that eq v(3) by (auto split: if_splits)
    moreover have "files w' = files w \<and> socks w' = socks w \<and> leaked w' = leaked w"
      using eq v(1) by (simp split: if_splits)
    ultimately show ?thesis unfolding h [symmetric] Some option.inject simp_thms dir by blast
  qed
qed

theorem config_path_bound_witness:
  "\<exists>path w'. crypto_config_path ''server_identity.key'' PATH_MAX calm_world = (Some path, w') \<and>
     ''/root/.sencd-config'' \<in> set (dirs w')"
proof -
  obtain r w' where run: "crypto_config_path ''server_identity.key'' PATH_MAX calm_world = (r, w')" by force
  have calm: "home_env calm_world = Some ''/root''" "files calm_world = (\<lambda>_. None)" "other_names calm_world = (\<lambda>_. False)"
      "mkdir_ok calm_world = (\<lambda>_. True)" by (simp_all add: calm_world_def)
  note bound = config_path_bound [OF run, unfolded calm]
  have "r = Some ''/root/.sencd-config/server_identity.key''"
    unfolding bound [THEN conjunct1, rule_format] by (simp add: PATH_MAX_def)
  with bound [THEN conjunct2, THEN conjunct1, rule_format, of "''/root/.sencd-config''"] run show ?thesis by simp
qed

section \<open>The console\<close>

lemma idle_loop_runs:
  "stdin_buf w = before @ EXIT_KEY # rest \<Longrightarrow> EXIT_KEY \<notin> set before \<Longrightarrow> idle_loop w = Some (w\<lparr>stdin_buf := rest\<rparr>)"
proof (induction before arbitrary: w)
  case Nil
  then show ?case by (subst idle_loop.simps) (simp add: sys_getchar_def)
next
  case (Cons c before)
  then have "idle_loop w = idle_loop (w\<lparr>stdin_buf := before @ EXIT_KEY # rest\<rparr>)"
    by (subst idle_loop.simps) (auto simp: sys_getchar_def)
  with Cons.IH [of "w\<lparr>stdin_buf := before @ EXIT_KEY # rest\<rparr>"] Cons.prems(2) show ?case by simp
qed

lemma idle_loop_key: "idle_loop w = Some w' \<Longrightarrow> EXIT_KEY \<in> set (stdin_buf w)"
  by (rule idle_loop.raw_induct [where P = "\<lambda>w w'. EXIT_KEY \<in> set (stdin_buf w)"])
    (auto simp: sys_getchar_def split: list.splits if_splits; fastforce)

text \<open>
  C29. Idle mode returns if and only if the exit key is in the input; it then has consumed
  the input up to the first one, and the terminal is as it was and no longer marked idle.
  When the input ends before the key, the loop does not end.
\<close>

theorem idle_mode_returns:
  "(idle_mode w \<noteq> None \<longleftrightarrow> EXIT_KEY \<in> set (stdin_buf w)) \<and>
   (\<forall>before rest. stdin_buf w = before @ EXIT_KEY # rest \<and> EXIT_KEY \<notin> set before \<longrightarrow>
      (\<exists>w'. idle_mode w = Some w' \<and> stdin_buf w' = rest \<and> tty_raw w' = tty_raw w \<and> \<not> is_idle w' \<and>
        socks w' = socks w \<and> force_logs w' = force_logs w))"
proof -
  let ?w1 = "snd (idle_begin w)"
  have split: "idle_mode w = map_option (idle_end (tty_raw w)) (idle_loop ?w1)"
    by (simp add: idle_mode_split idle_begin_def enable_raw_mode_def Let_def)
  have w1: "stdin_buf ?w1 = stdin_buf w" "socks ?w1 = socks w" "force_logs ?w1 = force_logs w"
    by (simp_all add: idle_begin_def enable_raw_mode_def cmd_clear_def printf_def Let_def)
  have runs: "\<exists>w'. idle_mode w = Some w' \<and> stdin_buf w' = rest \<and> tty_raw w' = tty_raw w \<and> \<not> is_idle w' \<and>
        socks w' = socks w \<and> force_logs w' = force_logs w"
    if "stdin_buf w = before @ EXIT_KEY # rest" "EXIT_KEY \<notin> set before" for before rest
  proof -
    have "idle_loop ?w1 = Some (?w1\<lparr>stdin_buf := rest\<rparr>)" using idle_loop_runs [of ?w1 before rest] that w1(1) by simp
    then show ?thesis
      using w1 by (simp add: split idle_end_def disable_raw_mode_def cmd_clear_def printf_def is_idle_def)
  qed
  have "idle_mode w \<noteq> None \<longleftrightarrow> EXIT_KEY \<in> set (stdin_buf w)"
  proof
    assume "idle_mode w \<noteq> None"
    then obtain v where "idle_loop ?w1 = Some v" by (auto simp: split)
    from idle_loop_key [OF this] show "EXIT_KEY \<in> set (stdin_buf w)" by (simp add: w1)
  next
    assume "EXIT_KEY \<in> set (stdin_buf w)"
    then obtain before rest where "stdin_buf w = before @ EXIT_KEY # rest" "EXIT_KEY \<notin> set before"
      by (metis split_list_first)
    from runs [OF this] show "idle_mode w \<noteq> None" by auto
  qed
  with runs show ?thesis by blast
qed

theorem idle_mode_returns_witness:
  "\<exists>w'. idle_mode (calm_world\<lparr>stdin_buf := ''ab'' @ [EXIT_KEY] @ ''quit''\<rparr>) = Some w' \<and> stdin_buf w' = ''quit''"
proof -
  have "EXIT_KEY \<notin> set ''ab''" by (simp add: EXIT_KEY_def) (simp add: char_of_def)
  then show ?thesis
    using conjunct2 [OF idle_mode_returns, rule_format, of "calm_world\<lparr>stdin_buf := ''ab'' @ [EXIT_KEY] @ ''quit''\<rparr>"
      "''ab''" "''quit''"] by auto
qed

end
