(* ===== verification/Client.thy ===== *)
theory Client
  imports ClientEnv Agreement Waiting
begin

text \<open>
  What the operations of the client's environment do: connecting ends in an established
  session over two open sockets or says so in its status, dropping a session closes both, and
  the receiving thread comes to its end when the server has ended the stream, and waits as long
  as it has not.
\<close>

section \<open>Dropping the session\<close>

lemma destroyed_session:
  "session_destroy s w =
     (zero_session\<lparr>sess_socket := -1, sess_state := SESSION_DISCONNECTED\<rparr>,
      (if udp_socket (udp s) \<ge> 0 then sys_close (udp_socket (udp s)) else id)
        ((if sess_socket s \<ge> 0 then sys_close (sess_socket s) else id) w))"
  by (simp add: session_destroy_def udp_tunnel_close_def Let_def)

text \<open>A client whose session is established over two different open sockets.\<close>

definition client_up :: "client \<Rightarrow> world \<Rightarrow> bool" where
  "client_up c w \<longleftrightarrow>
     tunnel_up c \<and> conn_state (cl_connection c) = CONNECTION_CONNECTED \<and>
     conn_socket (cl_connection c) = sess_socket (cl_session c) \<and> 0 \<le> sess_socket (cl_session c) \<and>
     sess_socket (cl_session c) \<noteq> udp_socket (udp (cl_session c)) \<and>
     socks w (sess_socket (cl_session c)) \<noteq> None \<and> socks w (udp_socket (udp (cl_session c))) \<noteq> None"

lemma client_drop_result:
  assumes up: "client_up c w" and run: "client_drop c w = (c', w')"
  shows "\<not> established c'" "connection_ok (cl_connection c') w'" "conn_state (cl_connection c') = CONNECTION_DISCONNECTED"
    "socks w' = (socks w)(sess_socket (cl_session c) := None, udp_socket (udp (cl_session c)) := None)"
    "bad_closes w' = bad_closes w" "leaked w' = leaked w"
    "cl_tun c' = cl_tun c" "cl_identity c' = cl_identity c"
proof -
  have s: "0 \<le> sess_socket (cl_session c)" "0 \<le> udp_socket (udp (cl_session c))"
      "sess_socket (cl_session c) \<noteq> udp_socket (udp (cl_session c))"
      "socks w (sess_socket (cl_session c)) \<noteq> None" "socks w (udp_socket (udp (cl_session c))) \<noteq> None"
    using up by (auto simp: client_up_def tunnel_up_def)
  have w': "w' = sys_close (udp_socket (udp (cl_session c))) (sys_close (sess_socket (cl_session c)) w)"
    and c': "cl_session c' = zero_session\<lparr>sess_socket := -1, sess_state := SESSION_DISCONNECTED\<rparr>"
      "conn_socket (cl_connection c') = -1" "conn_state (cl_connection c') = CONNECTION_DISCONNECTED"
      "cl_tun c' = cl_tun c" "cl_identity c' = cl_identity c"
    using run s by (auto simp: client_drop_def destroyed_session Let_def)
  show "\<not> established c'" "connection_ok (cl_connection c') w'" "conn_state (cl_connection c') = CONNECTION_DISCONNECTED"
    "cl_tun c' = cl_tun c" "cl_identity c' = cl_identity c"
    using c' by (simp_all add: established_def connection_ok_def)
  show "socks w' = (socks w)(sess_socket (cl_session c) := None, udp_socket (udp (cl_session c)) := None)"
    by (simp add: w' socks_close)
  show "bad_closes w' = bad_closes w" using s by (auto simp: w' sys_close_def split: option.splits)
  show "leaked w' = leaked w" by (simp add: w')
qed

section \<open>The receiving thread\<close>

text \<open>
  Running alone, the thread reads packets until its socket fails or the server says goodbye,
  and then drops the session.
\<close>

lemma client_receiver_loop_frame:
  "client_receiver_loop c w = Some v \<Longrightarrow> socket_frame (sess_socket (cl_session c)) w v \<and> io_frame w v"
proof (induction c w rule: client_receiver_loop.induct)
  case (1 c w)
  obtain go w' where pk: "client_receiver_packet c w = (go, w')" by force
  note f = client_receiver_packet_frame [OF pk]
  have loop: "client_receiver_loop c w =
      (if established c then if stalled w' then None else if go then client_receiver_loop c w' else Some w' else Some w)"
    using pk by (subst client_receiver_loop.simps) simp
  show ?case
  proof (cases "established c \<and> go")
    case True
    with 1 pk loop have "socket_frame (sess_socket (cl_session c)) w' v \<and> io_frame w' v" by (simp split: if_splits)
    with f show ?thesis by (blast intro: socket_frame_trans io_frame_trans)
  next
    case False
    with f 1(2) loop show ?thesis by (auto split: if_splits)
  qed
qed

lemma client_receiver_result:
  assumes up: "client_up c w" and run: "client_receiver c w = Some (c', ex, w')"
  shows "ex" "\<not> established c'" "conn_state (cl_connection c') = CONNECTION_DISCONNECTED"
    "socks w' (sess_socket (cl_session c)) = None" "socks w' (udp_socket (udp (cl_session c))) = None"
    "bad_closes w' = bad_closes w" "leaked w' = leaked w"
    "fd \<noteq> sess_socket (cl_session c) \<Longrightarrow> fd \<noteq> udp_socket (udp (cl_session c)) \<Longrightarrow> socks w' fd = socks w fd"
proof -
  obtain v where v: "client_receiver_loop c w = Some v" using run by (auto simp: client_receiver_def split: option.splits)
  have f: "env_frame w v" "leaked v = leaked w" "fd \<noteq> sess_socket (cl_session c) \<Longrightarrow> socks v fd = socks w fd" for fd
    using client_receiver_loop_frame [OF v] by (auto simp: socket_frame_def)
  have upv: "client_up c v" using up f(1) by (simp add: client_up_def env_frame_def)
  obtain c1 w1 where dr: "client_drop c v = (c1, w1)" by force
  have "established c" using up by (simp add: client_up_def tunnel_up_def)
  then have e: "c' = c1" "w' = w1" "ex"
    using run dr v by (simp_all add: client_receiver_def client_receiver_end_def)
  note d = client_drop_result [OF upv dr]
  show "ex" by (rule e(3))
  show "\<not> established c'" "conn_state (cl_connection c') = CONNECTION_DISCONNECTED" using d(1,3) e by simp_all
  show "socks w' (sess_socket (cl_session c)) = None" "socks w' (udp_socket (udp (cl_session c))) = None"
    using d(4) e by simp_all
  show "bad_closes w' = bad_closes w" "leaked w' = leaked w"
    using d(5,6) e f(1,2) by (simp_all add: env_frame_def)
  show "socks w' fd = socks w fd" if "fd \<noteq> sess_socket (cl_session c)" "fd \<noteq> udp_socket (udp (cl_session c))"
    using that d(4) e f(3) by simp
qed

text \<open>
  A stream on which the thread goes on: acceptable packets that are no goodbye, and then the
  beginning of a packet.
\<close>

inductive keeps_talking :: "bytes \<Rightarrow> bool" where
  talking_wait: "unfinished bs \<Longrightarrow> keeps_talking bs"
| talking_packet: "acceptable p \<Longrightarrow> ptype (header p) \<noteq> type_code PACKET_DISCONNECT \<Longrightarrow> keeps_talking bs \<Longrightarrow>
    keeps_talking (wire_packet pad p @ bs)"

lemma keeps_talking_packet:
  assumes "acceptable p"
  shows "keeps_talking (wire_packet pad p @ bs) \<longleftrightarrow> ptype (header p) \<noteq> type_code PACKET_DISCONNECT \<and> keeps_talking bs"
proof
  assume "keeps_talking (wire_packet pad p @ bs)"
  then show "ptype (header p) \<noteq> type_code PACKET_DISCONNECT \<and> keeps_talking bs"
  proof cases
    case talking_wait
    with finished_packet [OF assms] show ?thesis by blast
  next
    case (talking_packet q bs' pad')
    with wire_packet_prefix [OF assms talking_packet(2)] show ?thesis by metis
  qed
qed (use assms in \<open>blast intro: talking_packet\<close>)

lemma client_receiver_packet_cases:
  assumes run: "client_receiver_packet c w = (go, w')"
  obtains (packet) p pad where "acceptable p" "pending (sess_socket (cl_session c)) w = wire_packet pad p @ pending (sess_socket (cl_session c)) w'"
      "stalled w' = stalled w" "stream_open (sess_socket (cl_session c)) w' = stream_open (sess_socket (cl_session c)) w"
      "go \<longleftrightarrow> ptype (header p) \<noteq> type_code PACKET_DISCONNECT"
    | (failed) "\<not> go" "stalled w' \<Longrightarrow> stalled w \<or> stream_open (sess_socket (cl_session c)) w \<and> unfinished (pending (sess_socket (cl_session c)) w)"
      "(\<And>i. malloc_ok w i) \<Longrightarrow> stream_open (sess_socket (cl_session c)) w \<Longrightarrow> keeps_talking (pending (sess_socket (cl_session c)) w) \<Longrightarrow> stalled w'"
proof -
  let ?fd = "sess_socket (cl_session c)"
  obtain r p w1 where rc: "packet_receive ?fd packet_init w = (r, p, w1)" by (metis prod_cases3)
  note wait = packet_receive_wait [OF rc]
  show thesis
  proof (cases "r = 0")
    case True
    obtain pad where p: "acceptable p" "pending ?fd w = wire_packet pad p @ pending ?fd w1"
      using packet_receive_sound [OF rc [unfolded True]] by blast
    have "go \<longleftrightarrow> ptype (header p) \<noteq> type_code PACKET_DISCONNECT" "stalled w' = stalled w1" "socks w' = socks w1"
      using run rc True by (auto simp: client_receiver_packet_def split: if_splits)
    moreover from this(3) have "pending ?fd w' = pending ?fd w1" "stream_open ?fd w' = stream_open ?fd w1"
      by (simp_all add: pending_def stream_open_def)
    ultimately show thesis using packet [OF p(1)] p(2) wait(1) [OF True] by metis
  next
    case False
    then have e: "\<not> go" "stalled w' = stalled w1" using run rc by (auto simp: client_receiver_packet_def)
    show thesis
    proof (rule failed)
      show "\<not> go" by (rule e(1))
      show "stalled w \<or> stream_open ?fd w \<and> unfinished (pending ?fd w)" if "stalled w'"
        using wait(2) that e(2) by blast
      show "stalled w'" if mem: "\<And>i. malloc_ok w i" and open': "stream_open ?fd w" and talk: "keeps_talking (pending ?fd w)"
        using talk
      proof cases
        case talking_wait
        with wait(3) [OF open' _ mem] e(2) show ?thesis by simp
      next
        case (talking_packet q bs pad)
        from packet_receive_complete [OF rc talking_packet(2,1) mem] False show ?thesis by simp
      qed
    qed
  qed
qed

lemma client_receiver_loop_waits:
  "established c \<Longrightarrow> \<not> stalled w \<Longrightarrow> client_receiver_loop c w = None \<Longrightarrow>
     stream_open (sess_socket (cl_session c)) w \<and> keeps_talking (pending (sess_socket (cl_session c)) w)"
  "established c \<Longrightarrow> (\<And>i. malloc_ok w i) \<Longrightarrow> stream_open (sess_socket (cl_session c)) w \<Longrightarrow>
     keeps_talking (pending (sess_socket (cl_session c)) w) \<Longrightarrow> client_receiver_loop c w = None"
proof (induction c w rule: client_receiver_loop.induct)
  case (1 c w)
  let ?fd = "sess_socket (cl_session c)"
  obtain go w' where pk: "client_receiver_packet c w = (go, w')" by force
  have mem': "malloc_ok w' = malloc_ok w" using client_receiver_packet_frame(2) [OF pk] by (simp add: io_frame_def)
  note IH = 1(1,2) [OF _ pk [symmetric]]
  have loop: "client_receiver_loop c w =
      (if established c then if stalled w' then None else if go then client_receiver_loop c w' else Some w' else Some w)"
    using pk by (subst client_receiver_loop.simps) simp
  {
    case 1
    from pk show ?case
    proof (cases rule: client_receiver_packet_cases)
      case (packet p pad)
      with 1 loop IH(1) keeps_talking_packet [OF packet(1)] show ?thesis by (auto split: if_splits)
    next
      case failed
      with 1 loop show ?thesis by (auto split: if_splits intro: talking_wait)
    qed
  next
    case 2
    from pk show ?case
    proof (cases rule: client_receiver_packet_cases)
      case (packet p pad)
      with 2 loop IH(2) keeps_talking_packet [OF packet(1)] mem' show ?thesis by (auto split: if_splits)
    next
      case failed
      with 2 loop show ?thesis by (auto split: if_splits)
    qed
  }
qed

section \<open>How connecting ends\<close>

text \<open>
  A handshake that has returned 0 waited for nothing at its end, and one that fails does not
  establish the session.
\<close>

lemma send_loop_stalled: "send_loop fd buf n k w = (r, w') \<Longrightarrow> stalled w' = stalled w"
proof (induction fd buf n k w rule: send_loop.induct)
  case (1 fd buf n k w)
  obtain j w1 where sd: "sys_send fd (take (n - k) (drop k buf)) w = (j, w1)" by force
  have w1: "stalled w1 = stalled w" using sd by (auto simp: sys_send_def Let_def split: option.splits)
  show ?case
    using 1(1) [OF _ sd [symmetric]] 1(2) sd w1
    by (simp add: send_loop.simps [of fd buf n k w] split: if_splits)
qed

lemma send_msg_stalled: "send_msg fd d w = (r, w') \<Longrightarrow> stalled w' = stalled w"
proof -
  assume run: "send_msg fd d w = (r, w')"
  obtain p w1 where pc: "packet_construct d w = (p, w1)" by force
  obtain c w2 where ps: "packet_send fd p w1 = (c, w2)" by force
  have "stalled w1 = stalled w"
    using pc by (auto simp: packet_construct_def sys_malloc_def Let_def split: if_splits)
  moreover have "stalled w2 = stalled w1"
    using ps by (auto simp: packet_send_def send_all_def Let_def dest: send_loop_stalled split: prod.splits if_splits)
  ultimately show ?thesis using run pc ps by (auto simp: send_msg_def)
qed

lemma recv_msg_stalled: "recv_msg fd w = (Some p, w') \<Longrightarrow> stalled w' = stalled w"
  using packet_receive_wait(1) by (fastforce simp: recv_msg_def split: prod.splits if_splits)

definition ends_well :: "session \<Rightarrow> world \<Rightarrow> rc \<Rightarrow> session \<Rightarrow> world \<Rightarrow> bool" where
  "ends_well s w r s' w' \<longleftrightarrow> (r = 0 \<longrightarrow> stalled w' = stalled w) \<and>
     (r \<noteq> 0 \<longrightarrow> sess_state s \<noteq> SESSION_ESTABLISHED \<longrightarrow> sess_state s' \<noteq> SESSION_ESTABLISHED)"

lemma client_await_ends:
  assumes "client_await s w = (r, s', w')"
  shows "ends_well s w r s' w'"
proof -
  obtain p w1 where rc: "recv_msg (sess_socket s) w = (p, w1)" by force
  with assms show ?thesis
    by (auto simp: client_await_msg ends_well_def Let_def dest: recv_msg_stalled split: option.splits if_splits)
qed

lemma client_respond_ends:
  assumes run: "client_respond S c s w = (r, s', w')"
  shows "ends_well s w r s' w'"
proof -
  obtain r1 ctx1 w1 where g: "crypto_generate_ephemeral S (crypto s) w = (r1, ctx1, w1)" by (metis prod_cases3)
  obtain r2 ctx2 w2 where d: "crypto_derive_client_keys S ctx1 (ch_eph_public_key c) w1 = (r2, ctx2, w2)"
    by (metis prod_cases3)
  obtain sig w3 where sg: "crypto_sign_message S ctx2 (ch_nonce c @ eph_public_key ctx2) w2 = (sig, w3)" by force
  let ?s = "s\<lparr>crypto := ctx2\<rparr>"
  obtain r4 w4 where sd: "send_msg (sess_socket s) (message PACKET_AUTH_RESPONSE (protocol_version s)
      (Some (response_mem (response_of ?s (the sig)))) SIZEOF_AUTH_RESPONSE) w3 = (r4, w4)" by force
  obtain r5 s5 w5 where aw: "client_await (?s\<lparr>sess_state := SESSION_WAIT_AUTH\<rparr>) w4 = (r5, s5, w5)"
    by (metis prod_cases3)
  have "stalled w4 = stalled w"
    using crypto_generate_ephemeral_frame(1) [OF g] crypto_derive_frame(2) [OF d] crypto_sign_message_frame [OF sg]
      send_msg_stalled [OF sd] by (simp add: local_frame_def log_frame_def)
  with client_await_ends [OF aw] run g d sg sd aw show ?thesis
    by (auto simp: client_respond_msg ends_well_def Let_def split: if_splits option.splits)
qed

lemma session_authenticate_client_ends:
  assumes run: "session_authenticate_client S s w = (r, s', w')"
  shows "ends_well s w r s' w'"
proof -
  obtain p w1 where rc: "recv_msg (sess_socket s) w = (p, w1)" by force
  let ?c = "challenge_of_mem (payload_bytes (the p))"
  obtain s2 w2 where pin: "client_trust (ch_public_key ?c) s w1 = (s2, w2)" by force
  have t: "stalled w2 = stalled w1" "sess_state s2 = sess_state s"
    using pin client_pin_step [of "ch_public_key ?c" s w1 s2 w2]
    by (auto simp: client_trust_def local_frame_def split: if_splits)
  obtain r3 s3 w3 where rs: "client_respond S ?c (s2\<lparr>crypto := (crypto s2)\<lparr>peer_public_key := ch_public_key ?c\<rparr>\<rparr>) w2
      = (r3, s3, w3)" by (metis prod_cases3)
  show ?thesis
  proof (cases p)
    case None
    with run rc show ?thesis by (simp add: session_authenticate_client_msg ends_well_def)
  next
    case (Some m)
    with run rc pin rs client_respond_ends [OF rs] t recv_msg_stalled [of "sess_socket s" w m w1] show ?thesis
      by (auto simp: session_authenticate_client_msg ends_well_def Let_def split: if_splits)
  qed
qed

lemma session_client_connect_ends:
  assumes run: "session_client_connect S s w = (r, s', w')"
  shows "ends_well s w r s' w'"
proof -
  obtain r1 w1 where sd: "send_msg (sess_socket s) (message PACKET_CLIENT_HELLO CURRENT_PROTOCOL_VERSION None 0) w = (r1, w1)"
    by force
  obtain p w2 where rc: "recv_msg (sess_socket s) w1 = (p, w2)" by force
  obtain r3 s3 w3 where au: "session_authenticate_client S s (log_msg SUCCESS_MSG CLIENT_RT ''Handshake completed'' [] w2)
      = (r3, s3, w3)" by (metis prod_cases3)
  from send_msg_stalled [OF sd] recv_msg_stalled [of "sess_socket s" w1 "the p" w2] rc
    session_authenticate_client_ends [OF au] run sd au show ?thesis
    by (auto simp: session_client_connect_msg ends_well_def split: option.splits if_splits)
qed

section \<open>Connecting\<close>

lemma client_trusted_key_frame: "client_trusted_key w = (k, w') \<Longrightarrow> local_frame w w'"
  by (auto simp: client_trusted_key_def split: prod.splits option.splits dest: crypto_config_path_frame)

lemma session_create_client:
  assumes "session_create SESSION_CLIENT fd addr ident trusted w = (r, s, w')"
  shows "local_frame w w'" "sess_socket s = fd" "udp_socket (udp s) = -1" "has_trusted_peer_key s \<longleftrightarrow> trusted \<noteq> None"
    "trusted = Some k \<Longrightarrow> trusted_peer_key s = k"
proof -
  obtain sid w1 where g: "generate_session_id w = (sid, w1)" by force
  have l: "local_frame w w1" using g sys_random_local by (auto simp: generate_session_id_def split: prod.splits)
  show "local_frame w w'" "sess_socket s = fd" "udp_socket (udp s) = -1" "has_trusted_peer_key s \<longleftrightarrow> trusted \<noteq> None"
    "trusted = Some k \<Longrightarrow> trusted_peer_key s = k"
    using assms g l
    by (auto simp: session_create_def session_init_def zero_session_def udp_tunnel_init_def zero_udp_tunnel_def Let_def
        split: option.splits)
qed

text \<open>The parts of the world on which the lookup of the trusted key depends.\<close>

definition same_disk :: "world \<Rightarrow> world \<Rightarrow> bool" where
  "same_disk w w' \<longleftrightarrow> files w' = files w \<and> home_env w' = home_env w \<and> pw_dir w' = pw_dir w \<and>
     dirs w' = dirs w \<and> mkdir_ok w' = mkdir_ok w \<and> readable w' = readable w \<and> other_names w' = other_names w"

lemma same_disk_simps [simp]:
  "same_disk w (sys_close fd w') = same_disk w w'" "same_disk w (log_msg m r f as w') = same_disk w w'"
  "same_disk w (w'\<lparr>net_calls := n\<rparr>) = same_disk w w'"
  by (auto simp: same_disk_def sys_close_def split: option.splits)

lemma client_trusted_key_same:
  assumes "same_disk w w'"
  shows "fst (client_trusted_key w') = fst (client_trusted_key w)"
proof -
  have rb: "sys_fopen_rb p w' = sys_fopen_rb p w" "sys_fopen_rb p (v\<lparr>dirs := d\<rparr>) = sys_fopen_rb p v"
    "sys_fopen_rb p (log_msg m r f as v) = sys_fopen_rb p v" for p v d m r f as
    using assms by (simp_all add: same_disk_def sys_fopen_rb_def)
  have mk: "name_taken p w' = name_taken p w" "mkdir_ok w' = mkdir_ok w" "dirs w' = dirs w" "home_env w' = home_env w" "pw_dir w' = pw_dir w" for p
    using assms by (simp_all add: same_disk_def name_taken_def)
  show ?thesis
    by (simp add: client_trusted_key_def crypto_config_path_def sys_mkdir_def crypto_trust_key_load_def Let_def rb mk
        split: option.split prod.split)
qed

lemma connection_connect_more:
  assumes "connection_connect c server_ip port w = (r, c', w')" "conn_state c \<noteq> CONNECTION_CONNECTED"
  shows "leaked w' = leaked w" "fd_script w' = fd_script w" "fd_calls w' = Suc (fd_calls w)" "r = 0 \<or> r = 1"
    "same_disk w w'" "stalled w' = stalled w"
proof -
  obtain fd w1 where sk: "sys_socket (log_msg INFO_MSG CLIENT_RT ''Attempting to connect to server...'' [] w) = (fd, w1)"
    by force
  note k = sys_socket_other(2,4,5) [OF sk]
  have d: "same_disk w w1" "stalled w1 = stalled w"
    using sk by (auto simp: sys_socket_def same_disk_def Let_def split: if_splits)
  show "leaked w' = leaked w" "fd_script w' = fd_script w" "fd_calls w' = Suc (fd_calls w)" "r = 0 \<or> r = 1"
    "same_disk w w'" "stalled w' = stalled w"
    using assms sk k d
    by (auto simp: connection_connect_def connection_create_socket_def connection_open_def connection_cleanup_def
        sys_net_def Let_def split: if_splits option.splits)
qed

lemma udp_tunnel_client_open_more:
  assumes "udp_tunnel_client_open tunnel server_ip port w = (r, tunnel', w')"
  shows "leaked w' = leaked w" "\<And>fd. fd \<noteq> fd_script w (fd_calls w) \<Longrightarrow> socks w' fd = socks w fd"
    "r = 0 \<Longrightarrow> udp_socket tunnel' = fd_script w (fd_calls w)" "stalled w' = stalled w"
proof -
  obtain fd w1 where sk: "sys_socket w = (fd, w1)" by force
  note k = sys_socket_other(2,6,7) [OF sk]
  have "stalled w1 = stalled w" using sk by (auto simp: sys_socket_def Let_def split: if_splits)
  note k = k this
  show "leaked w' = leaked w" "\<And>fd. fd \<noteq> fd_script w (fd_calls w) \<Longrightarrow> socks w' fd = socks w fd"
    "r = 0 \<Longrightarrow> udp_socket tunnel' = fd_script w (fd_calls w)" "stalled w' = stalled w"
    using assms sk k
    by (auto simp: udp_tunnel_client_open_def sys_net_def socks_close Let_def split: if_splits option.splits)
qed

text \<open>
  The status of the connecting thread says whether the client is up; if it is, its peer is
  the trusted server, when there is one. Only the two descriptors it asks for are touched.
  It dials through when the connection, the handshake and the opening of the UDP tunnel all
  return 0.
\<close>

definition dials_through :: "sodium \<Rightarrow> client_thread_data \<Rightarrow> client \<Rightarrow> world \<Rightarrow> bool" where
  "dials_through S data c w \<longleftrightarrow>
     (\<exists>con w1 trusted w2 s w3 s' w4 tunnel w5.
        connection_connect (cl_connection c) (td_ip data) (td_port data) w = (0, con, w1) \<and>
        client_trusted_key w1 = (trusted, w2) \<and>
        session_create SESSION_CLIENT (conn_socket con) (td_ip data) (cl_identity c) trusted w2 = (0, s, w3) \<and>
        session_client_connect S s w3 = (0, s', w4) \<and>
        udp_tunnel_client_open (udp s') (td_ip data) (td_port data)
          (log_msg SUCCESS_MSG CLIENT_RT ''Secure session created, now starting UDP tunnel...'' [] w4) = (0, tunnel, w5))"

lemma client_listener_result:
  assumes run: "client_listener S data c w = (data', c', w')" and st: "td_status data = 0"
    and con: "conn_state (cl_connection c) = CONNECTION_DISCONNECTED" "conn_socket (cl_connection c) = -1"
    and fresh: "unused 2 w"
  shows "td_status data' = 0 \<or> td_status data' = 1" "leaked w' = leaked w"
    "fd \<noteq> fd_script w (fd_calls w) \<Longrightarrow> fd \<noteq> fd_script w (fd_calls w + 1) \<Longrightarrow> socks w' fd = socks w fd"
    "td_status data' = 0 \<Longrightarrow> client_up c' w'"
    "td_status data' = 0 \<Longrightarrow> trusted_peer_key (cl_session c') = peer_public_key (crypto (cl_session c'))"
    "td_status data' = 0 \<Longrightarrow> fst (client_trusted_key w) = Some k \<Longrightarrow> peer_public_key (crypto (cl_session c')) = k"
    "td_status data' = 0 \<Longrightarrow> sess_socket (cl_session c') = fd_script w (fd_calls w) \<and>
       udp_socket (udp (cl_session c')) = fd_script w (fd_calls w + 1)"
    "cl_tun c' = cl_tun c"
    "\<not> established c \<Longrightarrow> td_status data' = 0 \<longleftrightarrow> tunnel_up c'"
    "td_status data' = 0 \<longleftrightarrow> dials_through S data c w"
    "td_status data' = 0 \<Longrightarrow> stalled w' = stalled w"
proof -
  let ?f0 = "fd_script w (fd_calls w)" and ?f1 = "fd_script w (fd_calls w + 1)"
  obtain r1 con1 w1 where cc: "connection_connect (cl_connection c) (td_ip data) (td_port data) w = (r1, con1, w1)"
    by (metis prod_cases3)
  obtain trusted w2 where tk: "client_trusted_key w1 = (trusted, w2)" by force
  obtain r3 s3 w3 where sc: "session_create SESSION_CLIENT (conn_socket con1) (td_ip data) (cl_identity c) trusted w2 = (r3, s3, w3)"
    by (metis prod_cases3)
  obtain r4 s4 w4 where hs: "session_client_connect S s3 w3 = (r4, s4, w4)" by (metis prod_cases3)
  let ?w = "log_msg SUCCESS_MSG CLIENT_RT ''Secure session created, now starting UDP tunnel...'' [] w4"
  obtain r5 u5 w5 where uo: "udp_tunnel_client_open (udp s4) (td_ip data) (td_port data) ?w = (r5, u5, w5)"
    by (metis prod_cases3)
  have cok: "connection_ok (cl_connection c) w" using con by (simp add: connection_ok_def)
  have free: "socks w ?f0 = None" using fresh by (auto simp: unused_def dest: spec [of _ 0])
  have free1: "socks w ?f1 = None" and ne: "0 \<le> ?f0 \<Longrightarrow> ?f0 \<noteq> ?f1"
    using fresh by (auto simp: unused_def numeral_2_eq_2 less_Suc_eq)
  note k = connection_connect_result [OF cc cok free]
  have nc: "conn_state (cl_connection c) \<noteq> CONNECTION_CONNECTED" using con by simp
  note j = connection_connect_more [OF cc nc]
  note t = client_trusted_key_frame [OF tk] and s = session_create_client [OF sc]
  note h = session_client_connect_step [OF hs]
  have f: "env_frame w1 ?w" "leaked ?w = leaked w" "\<And>x. x \<noteq> conn_socket con1 \<Longrightarrow> socks ?w x = socks w1 x"
      "sess_socket s4 = conn_socket con1" "udp s4 = udp s3"
  proof -
    have "env_frame w3 w4" "leaked w4 = leaked w3" "\<And>x. x \<noteq> conn_socket con1 \<Longrightarrow> socks w4 x = socks w3 x"
      "sess_socket s4 = conn_socket con1" "udp s4 = udp s3"
      using h s(2) by (simp_all add: hs_step_def socket_frame_def)
    moreover have "env_frame w1 w3" "socks w3 = socks w1" "leaked w3 = leaked w1"
      using local_frame_trans [OF t s(1)] by (simp_all add: local_frame_def)
    moreover have "env_frame w4 ?w" by (rule io_env_frame [OF log_msg_io])
    ultimately show "env_frame w1 ?w" "leaked ?w = leaked w" "\<And>x. x \<noteq> conn_socket con1 \<Longrightarrow> socks ?w x = socks w1 x"
      "sess_socket s4 = conn_socket con1" "udp s4 = udp s3"
      using j(1) by (simp_all, blast intro: env_frame_trans)
  qed
  have fd: "fd_script ?w (fd_calls ?w) = ?f1" using f(1) j(2,3) by (simp add: env_frame_def)
  note u = udp_tunnel_client_open_more [OF uo, unfolded fd] and u' = udp_tunnel_client_open_result [OF uo]
  have out: "(data', c', w') =
      (if r1 \<noteq> 0 then (data\<lparr>td_status := 1\<rparr>, c\<lparr>cl_connection := con1\<rparr>, log_msg ERROR_MSG CLIENT_RT ''Connection Failed'' [] w1)
       else if r4 \<noteq> 0 then (data\<lparr>td_status := 1\<rparr>, c\<lparr>cl_connection := con1, cl_session := s4\<rparr>,
         log_msg ERROR_MSG CLIENT_RT ''Handshake Failed'' [] w4)
       else if r5 \<noteq> 0 then (data\<lparr>td_status := 1\<rparr>, c\<lparr>cl_connection := con1, cl_session := s4\<lparr>udp := u5\<rparr>\<rparr>,
         log_msg ERROR_MSG CLIENT_RT ''Failed to open UDP tunnel'' [] w5)
       else (data, c\<lparr>cl_connection := con1, cl_session := s4\<lparr>udp := u5\<rparr>\<rparr>, w5))"
    unfolding run [symmetric] client_listener_def
    by (simp add: cc tk sc hs uo Let_def)
  show "td_status data' = 0 \<or> td_status data' = 1" using out st by (auto split: if_splits)
  have lk: "leaked w4 = leaked w" "leaked w5 = leaked w" "leaked w1 = leaked w" using f(2) u(1) j(1) by simp_all
  then show "leaked w' = leaked w" using out by (auto split: if_splits)
  have c0: "conn_socket con1 = ?f0" "socks w1 = (socks w)(?f0 \<mapsto> sock_script w (fd_calls w))" "0 \<le> ?f0"
      "conn_state con1 = CONNECTION_CONNECTED" if "r1 = 0"
    using k(3) [OF that] by auto
  show "socks w' fd = socks w fd" if "fd \<noteq> ?f0" "fd \<noteq> ?f1"
  proof (cases "r1 = 0")
    case True
    have "socks w1 fd = socks w fd" "socks w4 fd = socks w fd" "socks w5 fd = socks w fd"
      using that c0 [OF True] f(3) u(2) by simp_all
    with out show ?thesis by (auto split: if_splits)
  next
    case False
    with j(4) k(4) out show ?thesis by (auto split: if_splits)
  qed
  show "cl_tun c' = cl_tun c" using out by (auto split: if_splits)
  have z0: "td_status data' = 0 \<longleftrightarrow> r1 = 0 \<and> r4 = 0 \<and> r5 = 0" using out st by (auto split: if_splits)
  have "r3 = 0" using sc by (auto simp: session_create_def Let_def split: prod.splits)
  with z0 cc tk sc hs uo show "td_status data' = 0 \<longleftrightarrow> dials_through S data c w" unfolding dials_through_def by auto
  show "td_status data' = 0 \<longleftrightarrow> tunnel_up c'" if "\<not> established c"
  proof -
    have "sess_state s3 \<noteq> SESSION_ESTABLISHED"
      using sc by (auto simp: session_create_def Let_def split: prod.splits)
    then have "r4 \<noteq> 0 \<Longrightarrow> sess_state s4 \<noteq> SESSION_ESTABLISHED"
      using session_client_connect_ends [OF hs] by (simp add: ends_well_def)
    moreover have "r5 \<noteq> 0 \<Longrightarrow> udp_socket u5 < 0" using u'(1,2) by auto
    moreover have "r4 = 0 \<Longrightarrow> sess_state s4 = SESSION_ESTABLISHED"
      using session_client_connect_0 [of S s3 w3 s4 w4] hs unfolding Let_def by auto
    ultimately show ?thesis
      using out that z0 u'(3) by (auto simp: tunnel_up_def established_def split: if_splits)
  qed
  assume s0: "td_status data' = 0"
  then have z: "r1 = 0" "r4 = 0" "r5 = 0" "c' = c\<lparr>cl_connection := con1, cl_session := s4\<lparr>udp := u5\<rparr>\<rparr>" "w' = w5"
    using out by (auto split: if_splits)
  have hs0: "session_client_connect S s3 w3 = (0, s4, w4)" using hs z(2) by simp
  have est: "sess_state s4 = SESSION_ESTABLISHED" "trusted_peer_key s4 = peer_public_key (crypto s4)"
      "has_trusted_peer_key s3 \<longrightarrow> peer_public_key (crypto s4) = trusted_peer_key s3"
    using session_client_connect_0 [OF hs0] unfolding Let_def by auto
  have "stalled w1 = stalled w" "stalled w5 = stalled ?w" using j(6) u(4) by simp_all
  moreover have "stalled w3 = stalled w1" using local_frame_trans [OF t s(1)] by (simp add: local_frame_def)
  moreover have "stalled w4 = stalled w3" using session_client_connect_ends [OF hs0] by (simp add: ends_well_def)
  ultimately show "stalled w' = stalled w" using z(5) by simp
  have sk: "socks w5 ?f0 \<noteq> None"
  proof -
    have "socks ?w ?f0 \<noteq> None" using f(1) c0 [OF z(1)] unfolding env_frame_def by simp
    then show ?thesis using u(2) [of ?f0] ne c0(3) [OF z(1)] by simp
  qed
  show "client_up c' w'"
    using c0 [OF z(1)] est(1) f(4) sk ne u'(3) [OF z(3)] u(3) [OF z(3)] z
    by (simp add: client_up_def tunnel_up_def established_def)
  show "sess_socket (cl_session c') = ?f0 \<and> udp_socket (udp (cl_session c')) = ?f1"
    using c0 [OF z(1)] f(4) u(3) [OF z(3)] z by simp
  show "trusted_peer_key (cl_session c') = peer_public_key (crypto (cl_session c'))" using est(2) z by simp
  show "peer_public_key (crypto (cl_session c')) = k" if "fst (client_trusted_key w) = Some k"
    using that client_trusted_key_same [OF j(5)] tk s(4,5) est(3) z by simp
qed

end
