(* ===== verification/SessionTypes.thy ===== *)
theory SessionTypes
  imports Handshake
begin

text \<open>
  The arrays of a session. In the code their sizes are part of the types of
  \<^verbatim>\<open>CRYPTO_CONTEXT_T\<close> and \<^verbatim>\<open>SESSION_T\<close>; here they are an invariant: whatever arrives and
  whichever call fails, every operation on a session leaves each array with its declared
  size, and the address with room for its terminating zero.
\<close>

definition sodium_sized :: "sodium \<Rightarrow> bool" where
  "sodium_sized S \<longleftrightarrow>
     (\<forall>seed pk sk. sign_keypair S seed = Some (pk, sk) \<longrightarrow>
        length pk = CRYPTO_PUBLIC_KEY_SIZE \<and> length sk = CRYPTO_PRIVATE_KEY_SIZE) \<and>
     (\<forall>seed pk sk. kx_keypair S seed = Some (pk, sk) \<longrightarrow>
        length pk = KX_PUBLICKEYBYTES \<and> length sk = KX_SECRETKEYBYTES) \<and>
     (\<forall>pk sk pk' rx tx. length pk = KX_PUBLICKEYBYTES \<and> length pk' = KX_PUBLICKEYBYTES \<and>
        (kx_server_session_keys S pk sk pk' = Some (rx, tx) \<or> kx_client_session_keys S pk sk pk' = Some (rx, tx)) \<longrightarrow>
        length rx = CRYPTO_SESSION_KEY_SIZE \<and> length tx = CRYPTO_SESSION_KEY_SIZE)"

lemma sodium_sizedD:
  assumes "sodium_sized S"
  shows "kx_keypair S seed = Some (pk, sk) \<Longrightarrow> length pk = KX_PUBLICKEYBYTES \<and> length sk = KX_SECRETKEYBYTES"
    "kx_server_session_keys S pk sk pk' = Some (rx, tx) \<Longrightarrow> length pk = KX_PUBLICKEYBYTES \<Longrightarrow>
      length pk' = KX_PUBLICKEYBYTES \<Longrightarrow> length rx = CRYPTO_SESSION_KEY_SIZE \<and> length tx = CRYPTO_SESSION_KEY_SIZE"
    "kx_client_session_keys S pk sk pk' = Some (rx, tx) \<Longrightarrow> length pk = KX_PUBLICKEYBYTES \<Longrightarrow>
      length pk' = KX_PUBLICKEYBYTES \<Longrightarrow> length rx = CRYPTO_SESSION_KEY_SIZE \<and> length tx = CRYPTO_SESSION_KEY_SIZE"
  using assms unfolding sodium_sized_def by blast+

definition wf_session :: "session \<Rightarrow> bool" where
  "wf_session s \<longleftrightarrow>
     wf_crypto (crypto s) \<and> length (trusted_peer_key s) = CRYPTO_PUBLIC_KEY_SIZE \<and>
     length (session_nonce s) = SESSION_NONCE_SIZE \<and> length (auth_nonce s) = AUTH_NONCE_SIZE \<and>
     length (ip s) < INET_ADDRSTRLEN"

lemmas wf_session_unfold = wf_session_def wf_crypto_def

section \<open>Creation and destruction\<close>

lemma wf_zero_session [simp]: "wf_session zero_session"
  by (simp add: wf_session_def zero_session_def size_consts INET_ADDRSTRLEN_def)

lemma session_create_wf:
  assumes "session_create rl fd addr ident trusted w = (r, s, w')" and "wf_crypto ident"
    and "\<And>key. trusted = Some key \<Longrightarrow> length key = CRYPTO_PUBLIC_KEY_SIZE"
  shows "wf_session s"
proof -
  have "wf_session (session_init rl)"
    using wf_zero_session by (simp add: session_init_def wf_session_def)
  then show ?thesis
    using assms
    by (auto simp: session_create_def wf_session_unfold Let_def INET_ADDRSTRLEN_def split: prod.splits option.splits)
qed

lemma session_destroy_wf: "session_destroy s w = (s', w') \<Longrightarrow> wf_session s'"
  using wf_zero_session by (auto simp: session_destroy_def wf_session_def Let_def split: prod.splits)

section \<open>The parts of the handshake\<close>

lemma crypto_generate_ephemeral_wf:
  assumes "crypto_generate_ephemeral S ctx w = (r, ctx', w')" and "sodium_sized S" and "wf_crypto ctx"
  shows "wf_crypto ctx'"
  using assms(1,3) sodium_sizedD [OF assms(2)]
  by (auto simp: crypto_generate_ephemeral_def wf_crypto_def split: prod.splits option.splits)

lemma crypto_derive_server_wf:
  assumes "crypto_derive_server_keys S ctx pk w = (r, ctx', w')" and "sodium_sized S" and "wf_crypto ctx"
    and "length pk = KX_PUBLICKEYBYTES"
  shows "wf_crypto ctx'"
  using assms(1,3,4) sodium_sizedD [OF assms(2)]
  by (auto simp: crypto_derive_server_keys_def wf_crypto_def split: prod.splits option.splits)

lemma crypto_derive_client_wf:
  assumes "crypto_derive_client_keys S ctx pk w = (r, ctx', w')" and "sodium_sized S" and "wf_crypto ctx"
    and "length pk = KX_PUBLICKEYBYTES"
  shows "wf_crypto ctx'"
  using assms(1,3,4) sodium_sizedD [OF assms(2)]
  by (auto simp: crypto_derive_client_keys_def wf_crypto_def split: prod.splits option.splits)

text \<open>A packet of the stated length holds a message whose arrays have their sizes.\<close>

lemma recv_msg_length:
  assumes "recv_msg fd w = (Some p, w')" and "payload_length (header p) = of_nat n" and "n < 2 ^ 32"
  shows "length (payload_bytes p) = n"
  using recv_msg_sound(1) [OF assms(1)] assms(2,3) by (simp add: acceptable_def wf_packet_def unat_of_nat_small)

lemma session_authenticate_server_wf:
  assumes "session_authenticate_server S s w = (r, s', w')" and "sodium_sized S" and "wf_session s"
  shows "wf_session s'"
proof -
  obtain nonce w1 where r1: "sys_random AUTH_NONCE_SIZE w = (nonce, w1)" by force
  obtain r2 ctx w2 where r2: "crypto_generate_ephemeral S (crypto s) w1 = (r2, ctx, w2)" by (metis prod_cases3)
  have "wf_crypto ctx" using crypto_generate_ephemeral_wf [OF r2 assms(2)] assms(3) by (simp add: wf_session_def)
  then have wf: "wf_session (s\<lparr>auth_nonce := nonce, crypto := ctx\<rparr>)"
    using assms(3) sys_random_frame(4) [OF r1] by (simp add: wf_session_def)
  have "\<exists>st. s' = s\<lparr>auth_nonce := nonce, crypto := ctx, sess_state := st\<rparr>"
    using assms(1) r1 r2
    by (auto simp: session_authenticate_server_msg Let_def split: prod.splits option.splits if_splits
        intro: exI [of _ "sess_state s"])
  with wf show ?thesis by (auto simp: wf_session_def)
qed

lemma session_verify_client_wf:
  assumes "session_verify_client S s w = (r, s', w')" and "sodium_sized S" and "wf_session s"
  shows "wf_session s'"
proof -
  obtain m w1 where rc: "recv_msg (sess_socket s) w = (m, w1)" by force
  show ?thesis
  proof (cases "\<exists>p. m = Some p \<and> payload_length (header p) = of_nat SIZEOF_AUTH_RESPONSE")
    case False
    with assms rc show ?thesis
      by (auto simp: session_verify_client_msg split: option.splits if_splits)
  next
    case True
    then obtain p where m: "m = Some p" "payload_length (header p) = of_nat SIZEOF_AUTH_RESPONSE" by blast
    let ?resp = "response_of_mem (payload_bytes p)"
    let ?s = "s\<lparr>crypto := (crypto s)\<lparr>peer_public_key := rs_public_key ?resp\<rparr>\<rparr>"
    have "length (payload_bytes p) = SIZEOF_AUTH_RESPONSE"
      using recv_msg_length [of "sess_socket s" w p w1] rc m by (simp add: SIZEOF_AUTH_RESPONSE_def)
    from response_of_mem_wf [OF this] have wf: "wf_session ?s" "length (rs_eph_public_key ?resp) = KX_PUBLICKEYBYTES"
      using assms(3) by (simp_all add: wf_session_unfold wf_response_def)
    obtain r2 ctx w2 where dr: "crypto_derive_server_keys S (crypto ?s) (rs_eph_public_key ?resp) w1 = (r2, ctx, w2)"
      by (metis prod_cases3)
    have "wf_crypto ctx" using crypto_derive_server_wf [OF dr assms(2)] wf by (simp add: wf_session_def)
    then have "wf_session (s\<lparr>crypto := ctx\<rparr>)" "wf_session (s\<lparr>crypto := ctx\<lparr>verified := 1\<rparr>\<rparr>)"
      using assms(3) by (simp_all add: wf_session_unfold)
    with assms(1,3) wf rc m dr show ?thesis
      by (auto simp: session_verify_client_msg Let_def split: if_splits)
  qed
qed

lemma server_confirm_wf:
  assumes "server_confirm s w = (r, s', w')" and "wf_session s"
  shows "wf_session s'"
proof -
  obtain nonce w1 where r1: "sys_random SESSION_NONCE_SIZE w = (nonce, w1)" by force
  have "\<exists>st. s' = s\<lparr>session_nonce := nonce, sess_state := st\<rparr>"
    using assms(1) r1
    by (auto simp: server_confirm_msg Let_def split: prod.splits if_splits intro: exI [of _ "sess_state s"])
  with assms(2) sys_random_frame(4) [OF r1] show ?thesis by (auto simp: wf_session_def)
qed

lemma client_pin_wf:
  "client_pin key s w = (s', w') \<Longrightarrow> length key = CRYPTO_PUBLIC_KEY_SIZE \<Longrightarrow> wf_session s \<Longrightarrow> wf_session s'"
  by (auto simp: client_pin_def wf_session_def Let_def split: prod.splits option.splits if_splits)

lemma client_await_wf:
  assumes "client_await s w = (r, s', w')" and "wf_session s"
  shows "wf_session s'"
proof -
  obtain m w1 where rc: "recv_msg (sess_socket s) w = (m, w1)" by force
  show ?thesis
  proof (cases "\<exists>p. m = Some p \<and> payload_length (header p) = of_nat SIZEOF_AUTH_SUCCESS")
    case False
    with assms rc show ?thesis by (auto simp: client_await_msg split: option.splits if_splits)
  next
    case True
    then obtain p where m: "m = Some p" "payload_length (header p) = of_nat SIZEOF_AUTH_SUCCESS" by blast
    have "length (payload_bytes p) = SIZEOF_AUTH_SUCCESS"
      using recv_msg_length [of "sess_socket s" w p w1] rc m by (simp add: SIZEOF_AUTH_SUCCESS_def)
    from success_of_mem_wf [OF this] show ?thesis
      using assms rc m by (auto simp: client_await_msg Let_def wf_session_def wf_success_def split: if_splits)
  qed
qed

lemma client_respond_wf:
  assumes "client_respond S c s w = (r, s', w')" and "sodium_sized S" and "wf_session s" and "wf_challenge c"
  shows "wf_session s'"
proof -
  obtain r1 ctx w1 where r1: "crypto_generate_ephemeral S (crypto s) w = (r1, ctx, w1)" by (metis prod_cases3)
  obtain r2 ctx2 w2 where r2: "crypto_derive_client_keys S ctx (ch_eph_public_key c) w1 = (r2, ctx2, w2)"
    by (metis prod_cases3)
  have c: "wf_crypto ctx" using crypto_generate_ephemeral_wf [OF r1 assms(2)] assms(3) by (simp add: wf_session_def)
  have "wf_crypto ctx2" by (rule crypto_derive_client_wf [OF r2 assms(2) c]) (use assms(4) in \<open>simp add: wf_challenge_def\<close>)
  with c assms(3) have wf: "wf_session (s\<lparr>crypto := ctx\<rparr>)" "wf_session (s\<lparr>crypto := ctx2\<rparr>)"
      "wf_session (s\<lparr>crypto := ctx2, sess_state := SESSION_WAIT_AUTH\<rparr>)"
    by (simp_all add: wf_session_def)
  have "s' = s\<lparr>crypto := ctx\<rparr> \<or> s' = s\<lparr>crypto := ctx2\<rparr> \<or>
      (\<exists>v. client_await (s\<lparr>crypto := ctx2, sess_state := SESSION_WAIT_AUTH\<rparr>) v = (r, s', w'))"
    using assms(1) r1 r2 by (auto simp: client_respond_msg Let_def split: prod.splits option.splits if_splits)
  with wf client_await_wf [OF _ wf(3)] show ?thesis by blast
qed

lemma session_authenticate_client_wf:
  assumes "session_authenticate_client S s w = (r, s', w')" and "sodium_sized S" and "wf_session s"
  shows "wf_session s'"
proof -
  obtain m w1 where rc: "recv_msg (sess_socket s) w = (m, w1)" by force
  show ?thesis
  proof (cases "\<exists>p. m = Some p \<and> payload_length (header p) = of_nat SIZEOF_AUTH_CHALLENGE")
    case False
    with assms rc show ?thesis by (auto simp: session_authenticate_client_msg split: option.splits if_splits)
  next
    case True
    then obtain p where m: "m = Some p" "payload_length (header p) = of_nat SIZEOF_AUTH_CHALLENGE" by blast
    let ?c = "challenge_of_mem (payload_bytes p)"
    have "length (payload_bytes p) = SIZEOF_AUTH_CHALLENGE"
      using recv_msg_length [of "sess_socket s" w p w1] rc m by (simp add: SIZEOF_AUTH_CHALLENGE_def)
    then have wfc: "wf_challenge ?c" by (rule challenge_of_mem_wf(1))
    then have key: "length (ch_public_key ?c) = CRYPTO_PUBLIC_KEY_SIZE" by (simp add: wf_challenge_def)
    obtain s1 w2 where tr: "client_trust (ch_public_key ?c) s w1 = (s1, w2)" by force
    have "wf_session s1"
      using tr assms(3) client_pin_wf [OF _ key assms(3)] by (auto simp: client_trust_def split: if_splits)
    then have wf: "wf_session (s1\<lparr>crypto := (crypto s1)\<lparr>peer_public_key := ch_public_key ?c\<rparr>\<rparr>)"
      using key by (simp add: wf_session_unfold)
    with assms(1,3) rc m tr client_respond_wf [OF _ assms(2) wf wfc] show ?thesis
      by (auto simp: session_authenticate_client_msg Let_def split: if_splits)
  qed
qed

lemma demo_sodium_sized: "sodium_sized demo_sodium"
  by (auto simp: sodium_sized_def demo_sodium_def size_consts split: if_splits)

section \<open>The handshake\<close>

lemma session_server_connect_wf:
  assumes "session_server_connect S s w = (r, s', w')" and S: "sodium_sized S" and wf: "wf_session s"
  shows "wf_session s'"
proof -
  let ?s = "s\<lparr>sess_state := SESSION_WAIT_AUTH\<rparr>"
  have wf1: "wf_session ?s" using wf by (simp add: wf_session_def)
  consider "s' = s" | v r1 w1 where "session_authenticate_server S ?s v = (r1, s', w1)"
    | v r1 s1 w1 r2 w2 where "session_authenticate_server S ?s v = (r1, s1, w1)" "session_verify_client S s1 w1 = (r2, s', w2)"
    | v r1 s1 w1 r2 s2 w2 where "session_authenticate_server S ?s v = (r1, s1, w1)"
        "session_verify_client S s1 w1 = (r2, s2, w2)" "server_confirm s2 w2 = (r, s', w')"
    using assms(1) by (auto simp: session_server_connect_msg split: prod.splits option.splits if_splits)
  then show ?thesis
    using wf wf1 session_authenticate_server_wf [OF _ S] session_verify_client_wf [OF _ S] server_confirm_wf by cases blast+
qed

lemma session_client_connect_wf:
  assumes "session_client_connect S s w = (r, s', w')" and S: "sodium_sized S" and wf: "wf_session s"
  shows "wf_session s'"
proof -
  have "s' = s \<or> (\<exists>v. session_authenticate_client S s v = (r, s', w'))"
    using assms(1) by (auto simp: session_client_connect_msg split: prod.splits option.splits if_splits)
  with wf session_authenticate_client_wf [OF _ S wf] show ?thesis by blast
qed

end
