(* ===== verification/ClientGuarantees.thy ===== *)
theory ClientGuarantees
  imports Client SessionTypes Demo
begin

text \<open>
  The properties of the client and of the session it holds: what connecting promises, how a
  session ends, the state machine of its TCP connection, the sizes of the session's arrays,
  and that the handshake does not prove to the client that its peer is there now.
\<close>

section \<open>A recorded handshake\<close>

text \<open>
  What a server has signed once serves a client at any time: its session is established
  whatever the world \<open>past\<close> of the signature was.
\<close>

lemma recorded_handshake:
  assumes "serviceable sc w" and "identity_ok S (crypto sc)" and "identity_ok S (crypto ss)" and "kx_correct S"
    and "has_trusted_peer_key sc \<longrightarrow> trusted_peer_key sc = public_key (crypto ss)" and "wf_success any"
    and "pending (sess_socket sc) w = hello_wire PACKET_SERVER_HELLO past @
      body_wire PACKET_AUTH_REQUEST (challenge_mem (server_challenge S ss past)) SIZEOF_AUTH_CHALLENGE past @
      body_wire PACKET_AUTH_SUCCESS (success_mem (host w) any) SIZEOF_AUTH_SUCCESS past @ rest"
  shows "\<exists>sc' w'. session_client_connect S sc w = (0, sc', w') \<and> sess_state sc' = SESSION_ESTABLISHED \<and>
    peer_public_key (crypto sc') = public_key (crypto ss) \<and>
    session_id sc' = su_session_id any \<and> session_nonce sc' = su_session_nonce any"
proof -
  have "length (draw KX_SEEDBYTES 0 w) = KX_SEEDBYTES" "length (draw KX_SEEDBYTES AUTH_NONCE_SIZE past) = KX_SEEDBYTES"
    by simp_all
  with assms(4) obtain cpk csk spk ssk where k: "kx_keypair S (draw KX_SEEDBYTES 0 w) = Some (cpk, csk)"
      "kx_keypair S (draw KX_SEEDBYTES AUTH_NONCE_SIZE past) = Some (spk, ssk)" "length spk = KX_PUBLICKEYBYTES"
    unfolding kx_correct_def by meson
  with assms(4) obtain k1 k2 where kc: "kx_client_session_keys S cpk csk spk = Some (k1, k2)"
    unfolding kx_correct_def by meson
  let ?c = "server_challenge S ss past"
  have ch: "ch_eph_public_key ?c = spk" "ch_public_key ?c = public_key (crypto ss)"
      "ch_nonce ?c = draw AUTH_NONCE_SIZE 0 past"
      "ch_signature ?c = the (sign_detached S (draw AUTH_NONCE_SIZE 0 past @ spk) (private_key (crypto ss)))"
    using k(2) by (simp_all add: server_challenge_def Let_def)
  obtain sig where sig: "sign_detached S (draw AUTH_NONCE_SIZE 0 past @ spk) (private_key (crypto ss)) = Some sig"
      "length sig = CRYPTO_SIGNATURE_SIZE" "sign_verify S sig (draw AUTH_NONCE_SIZE 0 past @ spk) (public_key (crypto ss))"
    using assms(3) unfolding identity_ok_def by blast
  have wfc: "wf_challenge ?c" using sig(2) ch k(3) assms(3) by (simp add: wf_challenge_def sig(1) identity_ok_def)
  have ver: "sign_verify S (ch_signature ?c) (ch_nonce ?c @ ch_eph_public_key ?c) (ch_public_key ?c)"
    using sig(3) by (simp add: ch sig(1))
  have trust: "has_trusted_peer_key sc \<longrightarrow> trusted_peer_key sc = ch_public_key ?c" using assms(5) ch(2) by simp
  have kc': "kx_client_session_keys S cpk csk (ch_eph_public_key ?c) = Some (k1, k2)" by (simp add: ch(1) kc)
  from client_connect_runs [OF assms(1,2,4) wfc assms(6,7) ver trust k(1) kc'] obtain sc' w' where
    r: "session_client_connect S sc w = (0, sc', w')" "peer_public_key (crypto sc') = public_key (crypto ss)"
      "session_id sc' = su_session_id (success_of_mem (host w) (success_mem (host w) any))"
      "session_nonce sc' = su_session_nonce (success_of_mem (host w) (success_mem (host w) any))"
    using ch(2) by auto
  have "sess_state sc' = SESSION_ESTABLISHED"
    using session_client_connect_0 [OF r(1)] unfolding Let_def by auto
  with r success.dec_enc [OF assms(6)] show ?thesis by simp
qed

definition demo_confirmation :: auth_success where
  "demo_confirmation = \<lparr>su_session_nonce = zeros 32, su_session_id = 99\<rparr>"

definition demo_replay :: bytes where
  "demo_replay = hello_wire PACKET_SERVER_HELLO calm_world @
     body_wire PACKET_AUTH_REQUEST (challenge_mem (server_challenge demo_sodium demo_server calm_world)) SIZEOF_AUTH_CHALLENGE calm_world @
     body_wire PACKET_AUTH_SUCCESS (success_mem LittleEndian demo_confirmation) SIZEOF_AUTH_SUCCESS calm_world"

text \<open>The recording, served to the socket that a started client opens first.\<close>

definition demo_idle_client :: client where
  "demo_idle_client =
     \<lparr>cl_session = session_init SESSION_CLIENT,
      cl_identity = crypto_context_init\<lparr>public_key := replicate 32 1, private_key := replicate 64 1\<rparr>,
      cl_connection = connection_init, cl_tun = Some \<lparr>dev_name = ''sencd1'', dev_fd = 9\<rparr>\<rparr>"

definition demo_recorded :: world where
  "demo_recorded = calm_world\<lparr>sock_script := \<lambda>n. fresh_sock\<lparr>rx_chunks := if n = 0 then [demo_replay] else []\<rparr>\<rparr>"

definition demo_data :: client_thread_data where
  "demo_data = client_arguments [''sencd-client'', ''connect'']"

lemma demo_replay_pieces:
  "pending fd w = demo_replay \<Longrightarrow> host w = LittleEndian \<Longrightarrow> pending fd w = hello_wire PACKET_SERVER_HELLO calm_world @
     body_wire PACKET_AUTH_REQUEST (challenge_mem (server_challenge demo_sodium demo_server calm_world)) SIZEOF_AUTH_CHALLENGE calm_world @
     body_wire PACKET_AUTH_SUCCESS (success_mem (host w) demo_confirmation) SIZEOF_AUTH_SUCCESS calm_world @ []"
  by (simp add: demo_replay_def)

lemma demo_refused:
  "connection_connect (cl_connection demo_idle_client) (td_ip demo_data) (td_port demo_data)
     (calm_world\<lparr>net_ok := \<lambda>_. False\<rparr>) \<noteq> (0, con, w)"
  by (auto simp: connection_connect_def connection_create_socket_def connection_open_def connection_cleanup_def
      sys_socket_def sys_net_def demo_idle_client_def connection_init_def calm_world_def Let_def
      split: if_splits option.splits)

lemma demo_ip: "inet_pton ''127.0.0.1'' = Some 0x7F000001"
  by code_simp

lemma demo_connects:
  "\<exists>con w. connection_connect (cl_connection demo_idle_client) (td_ip demo_data) (td_port demo_data) demo_recorded = (0, con, w) \<and>
     conn_socket con = 3 \<and> socks w 3 = Some (fresh_sock\<lparr>rx_chunks := [demo_replay]\<rparr>) \<and> malloc_ok w = (\<lambda>_. True) \<and>
     net_ok w = (\<lambda>_. True) \<and> fd_script w (fd_calls w) = 4 \<and> socks w 4 = None \<and> host w = LittleEndian \<and> files w = (\<lambda>_. None)"
  using demo_ip
    by (auto simp: connection_connect_def connection_create_socket_def connection_open_def
      sys_socket_def sys_net_def demo_idle_client_def connection_init_def calm_world_def demo_recorded_def
      demo_data_def client_arguments_def CLIENT_DEFAULT_IP_def Let_def)

lemma demo_dials_through: "dials_through demo_sodium demo_data demo_idle_client demo_recorded"
proof -
  obtain con w1 where cc: "connection_connect (cl_connection demo_idle_client) (td_ip demo_data) (td_port demo_data) demo_recorded
      = (0, con, w1)" "conn_socket con = 3" "socks w1 3 = Some (fresh_sock\<lparr>rx_chunks := [demo_replay]\<rparr>)"
      "malloc_ok w1 = (\<lambda>_. True)" "net_ok w1 = (\<lambda>_. True)" "fd_script w1 (fd_calls w1) = 4" "socks w1 4 = None"
      "host w1 = LittleEndian" "files w1 = (\<lambda>_. None)"
    using demo_connects by blast
  obtain trusted w2 where tk: "client_trusted_key w1 = (trusted, w2)" by force
  obtain r s w3 where sc: "session_create SESSION_CLIENT (conn_socket con) (td_ip demo_data) (cl_identity demo_idle_client) trusted w2
      = (r, s, w3)" by (metis prod_cases3)
  have f: "local_frame w1 w3" using local_frame_trans [OF client_trusted_key_frame [OF tk] session_create_client(1) [OF sc]] .
  have "\<And>p v. files v = (\<lambda>_. None) \<Longrightarrow> crypto_trust_key_load p v = None"
    by (simp add: crypto_trust_key_load_def sys_fopen_rb_def)
  moreover have "\<And>f v r v'. crypto_config_path f PATH_MAX v = (r, v') \<Longrightarrow> files v' = files v"
    by (auto simp: crypto_config_path_def sys_mkdir_def Let_def split: option.splits prod.splits if_splits)
  ultimately have none: "trusted = None"
    using tk cc(9) by (auto simp: client_trusted_key_def split: prod.splits option.splits)
  note c = session_create_client(2-4) [OF sc]
  have s: "r = 0" "protocol_version s = CURRENT_PROTOCOL_VERSION" "crypto s = crypto demo_client"
    using sc by (auto simp: session_create_def demo_idle_client_def demo_client_def demo_end_def none Let_def
        session_init_def split: prod.splits)
  have w3: "socks w3 = socks w1" "malloc_ok w3 = malloc_ok w1" "net_ok w3 = net_ok w1" "host w3 = host w1"
      "fd_script w3 (fd_calls w3) = fd_script w1 (fd_calls w1)"
    using f by (simp_all add: local_frame_def env_frame_def)
  have ok: "serviceable s w3" "identity_ok demo_sodium (crypto s)"
    using s c w3 cc demo_ends(1) by (simp_all add: serviceable_def accepts_data_def fresh_sock_def)
  have pen: "pending (sess_socket s) w3 = demo_replay" "host w3 = LittleEndian"
    using c w3 cc by (simp_all add: pending_def stream_def demo_replay_def hello_wire_def wire_packet_def wire_header_def)
  have trust: "has_trusted_peer_key s \<longrightarrow> trusted_peer_key s = public_key (crypto demo_server)" using c(3) none by simp
  have suc: "wf_success demo_confirmation"
    by (simp add: wf_success_def demo_confirmation_def SESSION_NONCE_SIZE_def)
  obtain s' w4 where hs: "session_client_connect demo_sodium s w3 = (0, s', w4)"
    using recorded_handshake [OF ok demo_ends(2) demo_kx_correct trust suc demo_replay_pieces [OF pen]] by blast
  let ?w = "log_msg SUCCESS_MSG CLIENT_RT ''Secure session created, now starting UDP tunnel...'' [] w4"
  have "env_frame w3 w4"
    using session_client_connect_step [OF hs] by (simp add: hs_step_def socket_frame_def)
  then have w4: "socks ?w 4 = None" "net_ok ?w = (\<lambda>_. True)" "fd_script ?w (fd_calls ?w) = 4"
    using w3 cc by (simp_all add: env_frame_def)
  obtain u w5 where "udp_tunnel_client_open (udp s') (td_ip demo_data) (td_port demo_data) ?w = (0, u, w5)"
    using w4 by (auto simp: udp_tunnel_client_open_def sys_socket_def sys_net_def demo_data_def client_arguments_def
        CLIENT_DEFAULT_IP_def Let_def demo_ip)
  with cc(1) tk sc hs s(1) show ?thesis unfolding dials_through_def by blast
qed

section \<open>Connecting\<close>

text \<open>
  C26. Started on a disconnected connection with two fresh descriptors, the connecting thread
  ends with status 0 or 1, touches no other descriptor, and frees what it allocates. The status
  says whether the client is up: it is 0 exactly when the connection, the handshake and the
  opening of the UDP tunnel have all returned 0, and, if the session was not established before,
  exactly when the tunnel is up afterwards. With status 0 the session is established over two different
  open sockets, the first of them the connection's, and its peer is the trusted server, which is the one
  whose key was stored if there was one. A thread with status 0 is never one that still waits for
  the server; for one that does, its status is not yet a result.
\<close>

theorem client_listener_status:
  assumes "client_listener S data c w = (data', c', w')" and "td_status data = 0"
    and "conn_state (cl_connection c) = CONNECTION_DISCONNECTED" and "conn_socket (cl_connection c) = -1"
    and "unused 2 w"
  shows "(td_status data' = 0 \<or> td_status data' = 1) \<and> leaked w' = leaked w \<and>
    (\<forall>fd. fd \<noteq> fd_script w (fd_calls w) \<and> fd \<noteq> fd_script w (fd_calls w + 1) \<longrightarrow> socks w' fd = socks w fd) \<and>
    (td_status data' = 0 \<longleftrightarrow> dials_through S data c w) \<and>
    (\<not> established c \<longrightarrow> (td_status data' = 0 \<longleftrightarrow> tunnel_up c')) \<and>
    (td_status data' = 0 \<longrightarrow> client_up c' w' \<and> stalled w' = stalled w \<and>
      trusted_peer_key (cl_session c') = peer_public_key (crypto (cl_session c')) \<and>
      (\<forall>k. fst (client_trusted_key w) = Some k \<longrightarrow> peer_public_key (crypto (cl_session c')) = k))"
  using client_listener_result(1,2) [OF assms] client_listener_result(3) [OF assms] client_listener_result(9,10) [OF assms]
    client_listener_result(4,5,11) [OF assms] client_listener_result(6) [OF assms] by blast

lemma demo_unused: "unused n calm_world" "unused n (calm_world\<lparr>net_ok := \<lambda>_. False\<rparr>)" "unused n demo_recorded"
  by (auto simp: unused_def calm_world_def demo_recorded_def)

text \<open>A client that reaches a server that says what the recording says, and one that reaches none.\<close>

theorem client_listener_status_witness:
  "(\<exists>data' c' w'. client_listener demo_sodium demo_data demo_idle_client demo_recorded = (data', c', w') \<and>
      td_status data' = 0 \<and> client_up c' w') \<and>
   (\<exists>data' c' w'. client_listener demo_sodium demo_data demo_idle_client (calm_world\<lparr>net_ok := \<lambda>_. False\<rparr>) = (data', c', w') \<and>
      td_status data' = 1 \<and> \<not> tunnel_up c')"
proof -
  have start: "td_status demo_data = 0" "conn_state (cl_connection demo_idle_client) = CONNECTION_DISCONNECTED"
      "conn_socket (cl_connection demo_idle_client) = -1" "\<not> established demo_idle_client"
    by (simp_all add: demo_data_def client_arguments_def demo_idle_client_def connection_init_def established_def
        session_init_def zero_session_def)
  obtain data' c' w' where up: "client_listener demo_sodium demo_data demo_idle_client demo_recorded = (data', c', w')"
    by (metis prod_cases3)
  obtain data2 c2 w2 where down: "client_listener demo_sodium demo_data demo_idle_client
      (calm_world\<lparr>net_ok := \<lambda>_. False\<rparr>) = (data2, c2, w2)" by (metis prod_cases3)
  have "\<not> dials_through demo_sodium demo_data demo_idle_client (calm_world\<lparr>net_ok := \<lambda>_. False\<rparr>)"
    by (simp add: dials_through_def demo_refused)
  then show ?thesis
    using client_listener_status [OF up start(1-3) demo_unused(3)] demo_dials_through up
      client_listener_status [OF down start(1-3) demo_unused(2)] down start(4) by metis
qed

text \<open>
  C28. The TCP connection of the client is connected with an open socket or disconnected with
  none. Connecting, sending, receiving and disconnecting keep it so: connecting returns 0 when
  it has opened the one descriptor it asked for and 1 when it has closed or never got it,
  and disconnecting succeeds exactly on a connected one, closing its socket once.
\<close>

theorem connection_state_machine:
  assumes "connection_ok c w"
  shows "(\<forall>server_ip port r c' w'. connection_connect c server_ip port w = (r, c', w') \<and>
       socks w (fd_script w (fd_calls w)) = None \<longrightarrow>
       connection_ok c' w' \<and> (r = 0 \<or> r = 1) \<and> (r = 1 \<longrightarrow> socks w' = socks w) \<and>
       (r = 0 \<longrightarrow> conn_state c' = CONNECTION_CONNECTED \<and> conn_ip c' = take 63 server_ip \<and> conn_port c' = port \<and>
          socks w' = (socks w)(conn_socket c' \<mapsto> sock_script w (fd_calls w)))) \<and>
    (\<forall>r c' w'. connection_disconnect c w = (r, c', w') \<longrightarrow>
       connection_ok c' w' \<and> conn_state c' = CONNECTION_DISCONNECTED \<and>
       (r = 0 \<longleftrightarrow> conn_state c = CONNECTION_CONNECTED) \<and>
       (r = 0 \<longrightarrow> closed w' = closed w @ [conn_socket c] \<and> bad_closes w' = bad_closes w)) \<and>
    (\<forall>b n c' w'. connection_send c b w = (n, c', w') \<longrightarrow> connection_ok c' w') \<and>
    (\<forall>k b c' w'. connection_receive c k w = (b, c', w') \<longrightarrow> connection_ok c' w')"
proof (intro conjI allI impI)
  fix server_ip port r c' w'
  assume "connection_connect c server_ip port w = (r, c', w') \<and> socks w (fd_script w (fd_calls w)) = None"
  then have run: "connection_connect c server_ip port w = (r, c', w')"
    and free: "socks w (fd_script w (fd_calls w)) = None" by simp_all
  note k = connection_connect_result [OF run assms free]
  show "connection_ok c' w'" by (rule k(1))
  show "r = 0 \<or> r = 1" by (rule k(2))
  show "socks w' = socks w" if "r = 1" using k(4) that .
  show "conn_state c' = CONNECTION_CONNECTED" "conn_ip c' = take 63 server_ip" "conn_port c' = port"
    "socks w' = (socks w)(conn_socket c' \<mapsto> sock_script w (fd_calls w))" if "r = 0"
    using k(3) [OF that] by simp_all
next
  fix r c' w'
  assume run: "connection_disconnect c w = (r, c', w')"
  note k = connection_disconnect_result [OF run assms]
  show "connection_ok c' w'" "conn_state c' = CONNECTION_DISCONNECTED" by (rule k)+
  show "r = 0 \<longleftrightarrow> conn_state c = CONNECTION_CONNECTED" by (rule k)
  show "closed w' = closed w @ [conn_socket c]" "bad_closes w' = bad_closes w" if "r = 0"
    using k(4) [OF that] by simp_all
qed (use connection_transfer_ok [OF _ assms] in blast)+

theorem connection_state_machine_witness:
  "\<exists>r c' w'. connection_disconnect connection_init calm_world = (r, c', w') \<and> r \<noteq> 0 \<and>
     conn_state c' = CONNECTION_DISCONNECTED"
proof -
  obtain r c' w' where run: "connection_disconnect connection_init calm_world = (r, c', w')" by (metis prod_cases3)
  have "connection_ok connection_init calm_world" "conn_state connection_init \<noteq> CONNECTION_CONNECTED"
    by (simp_all add: connection_ok_def connection_init_def)
  with connection_state_machine [of connection_init calm_world] run show ?thesis by metis
qed

section \<open>The end of a session\<close>

text \<open>
  C27. The receiving thread of a client that is up, running alone, goes on exactly as long as
  the server's stream is open and what has come of it is packets that are accepted and no
  goodbye, followed by the beginning of another: it then waits for more. When the stream has
  ended, or brings a goodbye or what is no packet, it returns: it has closed both sockets
  of the session once, no other, has freed what it received, and leaves the client
  disconnected with the exit flag set. That it goes on in the first case needs memory for the packets.
\<close>

theorem client_receiver_ends:
  assumes "client_up c w" and "\<not> stalled w"
  shows "(client_receiver c w = None \<longrightarrow> stream_open (sess_socket (cl_session c)) w \<and>
       keeps_talking (pending (sess_socket (cl_session c)) w)) \<and>
    (stream_open (sess_socket (cl_session c)) w \<and> keeps_talking (pending (sess_socket (cl_session c)) w) \<and>
       (\<forall>i. malloc_ok w i) \<longrightarrow> client_receiver c w = None) \<and>
    (\<forall>c' should_exit w'. client_receiver c w = Some (c', should_exit, w') \<longrightarrow>
       should_exit \<and> \<not> established c' \<and> conn_state (cl_connection c') = CONNECTION_DISCONNECTED \<and>
       socks w' (sess_socket (cl_session c)) = None \<and> socks w' (udp_socket (udp (cl_session c))) = None \<and>
       bad_closes w' = bad_closes w \<and> leaked w' = leaked w \<and>
       (\<forall>fd. fd \<noteq> sess_socket (cl_session c) \<and> fd \<noteq> udp_socket (udp (cl_session c)) \<longrightarrow> socks w' fd = socks w fd))"
proof -
  have "established c" using assms(1) by (simp add: client_up_def tunnel_up_def)
  note loop = client_receiver_loop_waits [OF this]
  have none: "client_receiver c w = None \<longleftrightarrow> client_receiver_loop c w = None"
    by (cases "client_receiver_loop c w") (simp_all add: client_receiver_def case_prod_unfold)
  have ends: "should_exit \<and> \<not> established c' \<and> conn_state (cl_connection c') = CONNECTION_DISCONNECTED \<and>
       socks w' (sess_socket (cl_session c)) = None \<and> socks w' (udp_socket (udp (cl_session c))) = None \<and>
       bad_closes w' = bad_closes w \<and> leaked w' = leaked w \<and>
       (\<forall>fd. fd \<noteq> sess_socket (cl_session c) \<and> fd \<noteq> udp_socket (udp (cl_session c)) \<longrightarrow> socks w' fd = socks w fd)"
    if "client_receiver c w = Some (c', should_exit, w')" for c' should_exit w'
    using client_receiver_result(1-7) [OF assms(1) that] client_receiver_result(8) [OF assms(1) that] by blast
  show ?thesis
    unfolding none using loop(1) [OF assms(2)] loop(2) ends by blast
qed

definition demo_up_client :: client where
  "demo_up_client = demo_idle_client\<lparr>
     cl_session := demo_client\<lparr>sess_state := SESSION_ESTABLISHED, udp := zero_udp_tunnel\<lparr>udp_socket := 5\<rparr>\<rparr>,
     cl_connection := connection_init\<lparr>conn_socket := 3, conn_state := CONNECTION_CONNECTED\<rparr>\<rparr>"

definition two_sockets :: "bytes list \<Rightarrow> world" where
  "two_sockets cs = calm_world\<lparr>socks := (\<lambda>_. None)(3 \<mapsto> fresh_sock\<lparr>rx_chunks := cs\<rparr>, 5 \<mapsto> fresh_sock)\<rparr>"

text \<open>A server that has closed the connection, and one that is silent.\<close>

theorem client_receiver_ends_witness:
  "(\<exists>c' w'. client_receiver demo_up_client (two_sockets [[]]) = Some (c', True, w') \<and> socks w' 3 = None \<and> bad_closes w' = []) \<and>
   client_receiver demo_up_client (two_sockets []) = None"
proof -
  have up: "client_up demo_up_client (two_sockets cs)" "\<not> stalled (two_sockets cs)" for cs
    by (simp_all add: client_up_def tunnel_up_def established_def demo_up_client_def demo_client_def demo_end_def
        two_sockets_def calm_world_def)
  have at: "sess_socket (cl_session demo_up_client) = 3"
    by (simp add: demo_up_client_def demo_client_def demo_end_def)
  have str: "stream_open 3 (two_sockets cs) \<longleftrightarrow> [] \<notin> set cs" "pending 3 (two_sockets cs) = stream cs"
      "malloc_ok (two_sockets cs) i" "bad_closes (two_sockets cs) = []" for cs i
    by (simp_all add: two_sockets_def stream_open_def pending_def calm_world_def)
  note ends = client_receiver_ends [OF up, unfolded at str(4)]
  have "client_receiver demo_up_client (two_sockets [[]]) \<noteq> None"
    using ends [of "[[]]", THEN conjunct1] str(1) [of "[[]]"] by simp
  then obtain c' ex w' where run: "client_receiver demo_up_client (two_sockets [[]]) = Some (c', ex, w')"
    by (metis not_Some_eq prod_cases3)
  have closed: "ex" "socks w' 3 = None" "bad_closes w' = []"
    using ends [of "[[]]", THEN conjunct2, THEN conjunct2, rule_format, OF run] by blast+
  have "keeps_talking []" by (rule talking_wait) (simp add: unfinished_def PACKET_HEADER_SIZE_def)
  then have "stream_open 3 (two_sockets []) \<and> keeps_talking (pending 3 (two_sockets [])) \<and> (\<forall>i. malloc_ok (two_sockets []) i)"
    using str(1-3) [of "[]"] by (simp add: stream_def)
  then have "client_receiver demo_up_client (two_sockets []) = None"
    by (rule ends [of "[]", THEN conjunct2, THEN conjunct1, rule_format])
  with run closed show ?thesis by auto
qed

section \<open>The arrays of a session\<close>

text \<open>
  C36. Whatever the peer sends, the handshake of either side leaves every array of the session
  with its declared size, as creating and destroying a session do.
\<close>

theorem session_arrays_sized:
  assumes "sodium_sized S" and "wf_crypto ident" and "trusted = None \<or> (\<exists>k. trusted = Some k \<and> length k = CRYPTO_PUBLIC_KEY_SIZE)"
    and "session_create rl fd addr ident trusted w = (r0, s, w0)"
    and "session_server_connect S s v = (r, s', v') \<or> session_client_connect S s v = (r, s', v')"
    and "session_destroy s' u = (s'', u')"
  shows "wf_session s \<and> wf_session s' \<and> wf_session s''"
proof -
  have "wf_session s" using session_create_wf [OF assms(4,2)] assms(3) by auto
  with session_server_connect_wf [OF _ assms(1)] session_client_connect_wf [OF _ assms(1)] assms(5)
    session_destroy_wf [OF assms(6)] show ?thesis by blast
qed

theorem session_arrays_sized_witness:
  "wf_session (fst (snd (session_create SESSION_SERVER 3 ''127.0.0.1'' crypto_context_init None calm_world)))"
proof -
  obtain r0 s w0 where c: "session_create SESSION_SERVER 3 ''127.0.0.1'' crypto_context_init None calm_world = (r0, s, w0)"
    by (metis prod_cases3)
  obtain r s' v' where h: "session_server_connect demo_sodium s w0 = (r, s', v')" by (metis prod_cases3)
  obtain s'' u' where d: "session_destroy s' v' = (s'', u')" by force
  from session_arrays_sized [OF demo_sodium_sized wf_crypto_init disjI1 [OF refl] c disjI1 [OF h] d] show ?thesis
    by (simp add: c)
qed

section \<open>Freshness\<close>

text \<open>
  C40. The client's handshake does not show that the server is present. A challenge that a
  server has signed at any time, whatever the world \<open>past\<close> was then, followed by a
  confirmation with any session id and nonce, makes a client of that server return 0 with an
  established session for the server's key: the client contributes nothing to what is signed.
\<close>

theorem client_accepts_replay:
  assumes "serviceable sc w" and "identity_ok S (crypto sc)" and "identity_ok S (crypto ss)" and "kx_correct S"
    and "has_trusted_peer_key sc \<longrightarrow> trusted_peer_key sc = public_key (crypto ss)" and "wf_success any"
    and "pending (sess_socket sc) w = hello_wire PACKET_SERVER_HELLO past @
      body_wire PACKET_AUTH_REQUEST (challenge_mem (server_challenge S ss past)) SIZEOF_AUTH_CHALLENGE past @
      body_wire PACKET_AUTH_SUCCESS (success_mem (host w) any) SIZEOF_AUTH_SUCCESS past @ rest"
  shows "\<exists>sc' w'. session_client_connect S sc w = (0, sc', w') \<and> sess_state sc' = SESSION_ESTABLISHED \<and>
    peer_public_key (crypto sc') = public_key (crypto ss) \<and>
    session_id sc' = su_session_id any \<and> session_nonce sc' = su_session_nonce any"
  using recorded_handshake [OF assms] .

theorem client_accepts_replay_witness:
  "\<exists>sc' w'. session_client_connect demo_sodium demo_client (demo_world 3 demo_replay) = (0, sc', w') \<and>
     session_id sc' = 99 \<and> peer_public_key (crypto sc') = public_key (crypto demo_server)"
proof -
  have ne: "demo_replay \<noteq> []" by (simp add: demo_replay_def hello_wire_def wire_packet_def wire_header_def)
  have h: "host (demo_world 3 demo_replay) = LittleEndian" by (simp add: demo_world_same calm_world_def)
  have s: "serviceable demo_client (demo_world 3 demo_replay)" "wf_success demo_confirmation"
    by (simp_all add: demo_client_def demo_end_ok wf_success_def demo_confirmation_def SESSION_NONCE_SIZE_def)
  have "pending (sess_socket demo_client) (demo_world 3 demo_replay) = hello_wire PACKET_SERVER_HELLO calm_world @
     body_wire PACKET_AUTH_REQUEST (challenge_mem (server_challenge demo_sodium demo_server calm_world)) SIZEOF_AUTH_CHALLENGE calm_world @
     body_wire PACKET_AUTH_SUCCESS (success_mem (host (demo_world 3 demo_replay)) demo_confirmation) SIZEOF_AUTH_SUCCESS calm_world @ []"
    using demo_world_same(6) [OF ne, of 3] unfolding h by (simp add: demo_replay_def demo_client_def demo_end_def)
  from client_accepts_replay [OF s(1) demo_ends(1,2) demo_kx_correct _ s(2) this] demo_ends(5) show ?thesis
    by (auto simp: demo_confirmation_def)
qed

end
