(* ===== verification/ClientThreads.thy ===== *)
theory ClientThreads
  imports Client
begin

text \<open>
  The four threads of \<^verbatim>\<open>src/commands/client_env.c\<close> after a successful connection, as a step
  relation: the main thread with its command loop, \<^verbatim>\<open>client_receiver\<close>,
  \<^verbatim>\<open>client_tun_sender\<close> and \<^verbatim>\<open>client_udp_receiver\<close>. They share the session without a lock, so
  a test and what depends on it are separate steps: any thread may run between the check
  that the session is established and its destruction, between the destruction and the two
  assignments to the connection, and between the check after \<^verbatim>\<open>select\<close> and the packet.
  What a thread does with one packet, and the body of \<^verbatim>\<open>session_destroy\<close>, are one step.
\<close>

section \<open>State\<close>

text \<open>The three statements that end a session, and the places of the threads.\<close>

datatype drop_pc = Destroying | Unsetting | Disconnecting_Connection

datatype client_main_pc =
    CLaunching | CAtHead | CInSelect | CCommand string | CDropping drop_pc | CAfter | CEnding | CEnded

datatype receiver_pc = RAbsent | RAtHead | RReceiving | RChecking | RDropping drop_pc | RFlagging | RFinished

datatype tunnel_pc = Spawned | Testing | Selecting | Handling | Over

text \<open>
  The state: the client, \<^verbatim>\<open>should_exit\<close>, the world, the program counters, and as an
  observation that no step reads, what the sender has encrypted: the key, the counter, and the
  datagram with the descriptor it was sent on, unless encryption failed.
\<close>

record client_state =
  cli :: client
  exiting :: bool
  cenv :: world
  cmain_at :: client_main_pc
  recv_at :: receiver_pc
  send_at :: tunnel_pc
  cudp_at :: tunnel_pc
  csealed :: "(bytes \<times> u64 \<times> (int \<times> sockaddr_in option \<times> bytes) option) list"

text \<open>
  \<^verbatim>\<open>start_client_environment\<close> up to the creation of the receiving thread: it waits for the
  connecting thread and returns when that reports a failure.
\<close>

definition client_start :: "sodium \<Rightarrow> string list \<Rightarrow> world \<Rightarrow> client option \<times> world" where
  "client_start S argv w =
     (case client_environment_begin S argv w of
        (None, w) \<Rightarrow> (None, w)
      | (Some (c, data), w) \<Rightarrow>
          (case client_listener S data c w of (data, c, w) \<Rightarrow>
             if td_status data \<noteq> 0 then (None, w) else (Some c, w)))"

definition client_initial :: "client \<Rightarrow> world \<Rightarrow> client_state" where
  "client_initial c w =
     \<lparr>cli = c, exiting = False, cenv = w, cmain_at = CLaunching, recv_at = RAbsent, send_at = Spawned,
      cudp_at = Spawned, csealed = []\<rparr>"

section \<open>The end of a session in steps\<close>

definition drop_turn :: "drop_pc \<Rightarrow> client_state \<Rightarrow> drop_pc option \<times> client_state" where
  "drop_turn pc st =
     (case pc of
        Destroying \<Rightarrow>
          (case session_destroy (cl_session (cli st)) (cenv st) of (s, w) \<Rightarrow>
             (Some Unsetting, st\<lparr>cli := (cli st)\<lparr>cl_session := s\<rparr>, cenv := w\<rparr>))
      | Unsetting \<Rightarrow>
          (Some Disconnecting_Connection,
           st\<lparr>cli := (cli st)\<lparr>cl_connection := (cl_connection (cli st))\<lparr>conn_socket := -1\<rparr>\<rparr>\<rparr>)
      | Disconnecting_Connection \<Rightarrow>
          (None,
           st\<lparr>cli := (cli st)\<lparr>cl_connection := (cl_connection (cli st))\<lparr>conn_state := CONNECTION_DISCONNECTED\<rparr>\<rparr>\<rparr>))"

text \<open>Without interference the three steps are what \<open>client_drop\<close> does at once.\<close>

lemma drop_turns:
  assumes "client_drop (cli st) (cenv st) = (c, w)"
  shows "drop_turn Disconnecting_Connection (snd (drop_turn Unsetting (snd (drop_turn Destroying st)))) =
    (None, st\<lparr>cli := c, cenv := w\<rparr>)"
  using assms by (auto simp: drop_turn_def client_drop_def Let_def split: prod.splits)

section \<open>The turns of the threads\<close>

text \<open>The main thread takes the result of \<^verbatim>\<open>select\<close>; none when it has returned.\<close>

definition client_command_turn :: "string \<Rightarrow> client_state \<Rightarrow> client_state" where
  "client_command_turn input st =
     (case map_of client_commands input of
        Some Client_Clear \<Rightarrow> st\<lparr>cenv := cmd_clear (cenv st), cmain_at := CAfter\<rparr>
      | Some Client_Disconnect \<Rightarrow>
          if \<not> established (cli st) then
            st\<lparr>cenv := log_msg WARN_MSG CLIENT_RT ''Not currently connected'' [] (cenv st), cmain_at := CAfter\<rparr>
          else st\<lparr>cmain_at := CDropping Destroying\<rparr>
      | None \<Rightarrow>
          st\<lparr>cenv := log_msg ERROR_MSG CLIENT_RT (''Unknown command'' @ [CHR 0x0A]) [] (cenv st), cmain_at := CAfter\<rparr>)"

definition client_main_turn :: "int \<Rightarrow> client_state \<Rightarrow> client_state option" where
  "client_main_turn ready st =
     (case cmain_at st of
        CLaunching \<Rightarrow> Some (st\<lparr>recv_at := RAtHead, cenv := printf CLIENT_SHELL_PREFIX (cenv st), cmain_at := CAtHead\<rparr>)
      | CAtHead \<Rightarrow> Some (st\<lparr>cmain_at := if exiting st then CEnding else CInSelect\<rparr>)
      | CInSelect \<Rightarrow>
          Some (if exiting st then st\<lparr>cmain_at := CEnding\<rparr>
                else if ready \<le> 0 then st\<lparr>cmain_at := CAtHead\<rparr>
                else (case sys_fgets 256 (cenv st) of
                        (None, w) \<Rightarrow> st\<lparr>cenv := w, cmain_at := CEnding\<rparr>
                      | (Some input, w) \<Rightarrow> st\<lparr>cenv := w, cmain_at := CCommand (cut_newline input)\<rparr>))
      | CCommand input \<Rightarrow> Some (client_command_turn input st)
      | CDropping pc \<Rightarrow>
          Some (case drop_turn pc st of
                  (Some pc', st) \<Rightarrow> st\<lparr>cmain_at := CDropping pc'\<rparr>
                | (None, st) \<Rightarrow>
                    st\<lparr>cenv := log_msg SUCCESS_MSG CLIENT_RT ''Disconnected from server'' [] (cenv st),
                       exiting := True, cmain_at := CAfter\<rparr>)
      | CAfter \<Rightarrow>
          Some (if exiting st then st\<lparr>cmain_at := CEnding\<rparr>
                else st\<lparr>cenv := printf CLIENT_SHELL_PREFIX (cenv st), cmain_at := CAtHead\<rparr>)
      | CEnding \<Rightarrow>
          Some (case client_environment_end (cli st) (cenv st) of (c, w) \<Rightarrow>
                  st\<lparr>cli := c, cenv := w, cmain_at := CEnded\<rparr>)
      | CEnded \<Rightarrow> None)"

text \<open>The receiving thread has no turn while it waits in a read.\<close>

definition client_receiver_turn :: "client_state \<Rightarrow> client_state option" where
  "client_receiver_turn st =
     (case recv_at st of
        RAbsent \<Rightarrow> None
      | RAtHead \<Rightarrow> Some (st\<lparr>recv_at := if established (cli st) then RReceiving else RChecking\<rparr>)
      | RReceiving \<Rightarrow>
          (case client_receiver_packet (cli st) (cenv st) of (go, w) \<Rightarrow>
             if stalled w then None else Some (st\<lparr>cenv := w, recv_at := if go then RAtHead else RChecking\<rparr>))
      | RChecking \<Rightarrow> Some (st\<lparr>recv_at := if established (cli st) then RDropping Destroying else RFlagging\<rparr>)
      | RDropping pc \<Rightarrow>
          Some (case drop_turn pc st of
                  (Some pc', st) \<Rightarrow> st\<lparr>recv_at := RDropping pc'\<rparr>
                | (None, st) \<Rightarrow> st\<lparr>recv_at := RFlagging\<rparr>)
      | RFlagging \<Rightarrow> Some (st\<lparr>exiting := True, recv_at := RFinished\<rparr>)
      | RFinished \<Rightarrow> None)"

text \<open>What an observer sees of a packet, if the sender has advanced its counter.\<close>

definition client_observe ::
    "client \<Rightarrow> client \<Rightarrow> world \<Rightarrow> world \<Rightarrow> (bytes \<times> u64 \<times> (int \<times> sockaddr_in option \<times> bytes) option) list" where
  "client_observe c c' w w' =
     (if c = c' then []
      else [(tx_key (crypto (cl_session c)), tx_nonce (crypto (cl_session c)),
             if length (udp_out w) < length (udp_out w') then Some (last (udp_out w')) else None)])"

definition client_send_turn :: "sodium \<Rightarrow> zstd \<Rightarrow> int \<Rightarrow> client_state \<Rightarrow> client_state option" where
  "client_send_turn S Z ready st =
     (case send_at st of
        Spawned \<Rightarrow>
          (case client_tun_sender_start (cenv st) of (go, w) \<Rightarrow>
             Some (st\<lparr>cenv := w, send_at := if go then Testing else Over\<rparr>))
      | Testing \<Rightarrow>
          Some (if tunnel_up (cli st) then st\<lparr>send_at := Selecting\<rparr>
                else st\<lparr>cenv := buffers_free (cenv st), send_at := Over\<rparr>)
      | Selecting \<Rightarrow>
          Some (if \<not> tunnel_up (cli st) then st\<lparr>cenv := buffers_free (cenv st), send_at := Over\<rparr>
                else st\<lparr>send_at := if ready \<le> 0 then Testing else Handling\<rparr>)
      | Handling \<Rightarrow>
          (case client_tun_sender_packet S Z (cli st) (cenv st) of (c, w) \<Rightarrow>
             Some (st\<lparr>cli := c, cenv := w, send_at := Testing,
                     csealed := csealed st @ client_observe (cli st) c (cenv st) w\<rparr>))
      | Over \<Rightarrow> None)"

definition client_udp_turn :: "sodium \<Rightarrow> zstd \<Rightarrow> int \<Rightarrow> client_state \<Rightarrow> client_state option" where
  "client_udp_turn S Z ready st =
     (case cudp_at st of
        Spawned \<Rightarrow>
          (case client_udp_receiver_start (cenv st) of (go, w) \<Rightarrow>
             Some (st\<lparr>cenv := w, cudp_at := if go then Testing else Over\<rparr>))
      | Testing \<Rightarrow>
          Some (if tunnel_up (cli st) then st\<lparr>cudp_at := Selecting\<rparr>
                else st\<lparr>cenv := buffers_free (cenv st), cudp_at := Over\<rparr>)
      | Selecting \<Rightarrow>
          Some (if \<not> tunnel_up (cli st) then st\<lparr>cenv := buffers_free (cenv st), cudp_at := Over\<rparr>
                else st\<lparr>cudp_at := if ready \<le> 0 then Testing else Handling\<rparr>)
      | Handling \<Rightarrow> Some (st\<lparr>cenv := client_udp_receiver_datagram S Z (cli st) (cenv st), cudp_at := Testing\<rparr>)
      | Over \<Rightarrow> None)"

section \<open>Steps and runs\<close>

text \<open>When the main thread has returned the process ends, and no thread takes another step.\<close>

datatype client_actor = Client_Main | Client_Receiver | Client_Sender | Client_Udp_Receiver | Client_Environment

inductive client_step :: "sodium \<Rightarrow> zstd \<Rightarrow> client_actor \<Rightarrow> client_state \<Rightarrow> client_state \<Rightarrow> bool"
  for S :: sodium and Z :: zstd where
  main: "client_main_turn ready st = Some st' \<Longrightarrow> client_step S Z Client_Main st st'"
| receiver: "cmain_at st \<noteq> CEnded \<Longrightarrow> client_receiver_turn st = Some st' \<Longrightarrow>
    client_step S Z Client_Receiver st st'"
| sender: "cmain_at st \<noteq> CEnded \<Longrightarrow> client_send_turn S Z ready st = Some st' \<Longrightarrow>
    client_step S Z Client_Sender st st'"
| udp_receiver: "cmain_at st \<noteq> CEnded \<Longrightarrow> client_udp_turn S Z ready st = Some st' \<Longrightarrow>
    client_step S Z Client_Udp_Receiver st st'"
| environment: "input_change (cenv st) w \<Longrightarrow> client_step S Z Client_Environment st (st\<lparr>cenv := w\<rparr>)"

inductive_cases client_main_stepE: "client_step S Z Client_Main st st'"
inductive_cases client_receiver_stepE: "client_step S Z Client_Receiver st st'"
inductive_cases client_sender_stepE: "client_step S Z Client_Sender st st'"
inductive_cases client_udp_stepE: "client_step S Z Client_Udp_Receiver st st'"

inductive client_run :: "sodium \<Rightarrow> zstd \<Rightarrow> client_state \<Rightarrow> client_state \<Rightarrow> bool"
  for S :: sodium and Z :: zstd and st0 :: client_state where
  start: "client_run S Z st0 st0"
| step: "client_run S Z st0 st \<Longrightarrow> client_step S Z a st st' \<Longrightarrow> client_run S Z st0 st'"

section \<open>Schedules\<close>

text \<open>A run as a list of turns, each with what \<^verbatim>\<open>select\<close> returns.\<close>

definition client_turn :: "sodium \<Rightarrow> zstd \<Rightarrow> client_actor \<Rightarrow> int \<Rightarrow> client_state \<Rightarrow> client_state option" where
  "client_turn S Z a ready st =
     (if cmain_at st = CEnded then None
      else (case a of
              Client_Main \<Rightarrow> client_main_turn ready st
            | Client_Receiver \<Rightarrow> client_receiver_turn st
            | Client_Sender \<Rightarrow> client_send_turn S Z ready st
            | Client_Udp_Receiver \<Rightarrow> client_udp_turn S Z ready st
            | Client_Environment \<Rightarrow> None))"

fun client_schedule :: "sodium \<Rightarrow> zstd \<Rightarrow> (client_actor \<times> int) list \<Rightarrow> client_state \<Rightarrow> client_state option" where
  "client_schedule S Z [] st = Some st"
| "client_schedule S Z ((a, ready) # turns) st =
     (case client_turn S Z a ready st of None \<Rightarrow> None | Some st' \<Rightarrow> client_schedule S Z turns st')"

lemma client_turn_step: "client_turn S Z a ready st = Some st' \<Longrightarrow> client_step S Z a st st'"
  by (cases a) (auto simp: client_turn_def intro: client_step.intros split: if_splits)

lemma client_schedule_run:
  "client_run S Z st0 st \<Longrightarrow> client_schedule S Z turns st = Some st' \<Longrightarrow> client_run S Z st0 st'"
proof (induction turns arbitrary: st)
  case (Cons turn turns)
  then obtain a ready st1 where t: "turn = (a, ready)" "client_turn S Z a ready st = Some st1"
      "client_schedule S Z turns st1 = Some st'" by (cases turn) (auto split: option.splits)
  show ?case by (rule Cons.IH [OF client_run.step [OF Cons.prems(1) client_turn_step [OF t(2)]] t(3)])
qed simp

lemma client_schedule_append:
  "client_schedule S Z (xs @ ys) st = (case client_schedule S Z xs st of None \<Rightarrow> None | Some st' \<Rightarrow> client_schedule S Z ys st')"
  by (induction S Z xs st rule: client_schedule.induct) (auto split: option.split)

end
