(* ===== verification/ClientAlone.thy ===== *)
theory ClientAlone
  imports ClientThreads
begin

text \<open>
  A thread that no other thread interrupts does in its turns what the functions of \<open>ClientEnv\<close>
  say a pass of its loop does, and the receiving thread what its whole function does.
\<close>

section \<open>The packet threads\<close>

lemma sender_turns:
  assumes at: "send_at st = Selecting" "cmain_at st \<noteq> CEnded"
    and run: "client_tun_sender_wake S Z ready (cli st) (cenv st) = (go, c, w)"
  shows "\<exists>turns es. client_schedule S Z (map (Pair Client_Sender) turns) st =
    Some (st\<lparr>cli := c, cenv := if go then w else buffers_free w, send_at := if go then Testing else Over,
             csealed := csealed st @ es\<rparr>)"
proof (cases "tunnel_up (cli st) \<and> 0 < ready")
  case True
  with assms have "client_schedule S Z (map (Pair Client_Sender) [ready, ready]) st =
      Some (st\<lparr>cli := c, cenv := w, send_at := Testing,
               csealed := csealed st @ client_observe (cli st) c (cenv st) w\<rparr>)" and go: "go"
    by (auto simp: client_turn_def client_send_turn_def client_tun_sender_wake_def)
  then show ?thesis by (intro exI [of _ "[ready, ready]"] exI [of _ "client_observe (cli st) c (cenv st) w"]) simp
next
  case False
  with assms have "client_schedule S Z (map (Pair Client_Sender) [ready]) st =
      Some (st\<lparr>cli := c, cenv := if go then w else buffers_free w, send_at := if go then Testing else Over\<rparr>)"
    by (auto simp: client_turn_def client_send_turn_def client_tun_sender_wake_def split: if_splits)
  then show ?thesis by (intro exI [of _ "[ready]"] exI [of _ "[]"]) simp
qed

lemma udp_turns:
  assumes at: "cudp_at st = Selecting" "cmain_at st \<noteq> CEnded"
    and run: "client_udp_receiver_wake S Z ready (cli st) (cenv st) = (go, w)"
  shows "\<exists>turns. client_schedule S Z (map (Pair Client_Udp_Receiver) turns) st =
    Some (st\<lparr>cenv := if go then w else buffers_free w, cudp_at := if go then Testing else Over\<rparr>)"
proof (cases "tunnel_up (cli st) \<and> 0 < ready")
  case True
  with assms have "client_schedule S Z (map (Pair Client_Udp_Receiver) [ready, ready]) st =
      Some (st\<lparr>cenv := w, cudp_at := Testing\<rparr>)" and "go"
    by (auto simp: client_turn_def client_udp_turn_def client_udp_receiver_wake_def)
  then show ?thesis by (intro exI [of _ "[ready, ready]"]) simp
next
  case False
  with assms have "client_schedule S Z (map (Pair Client_Udp_Receiver) [ready]) st =
      Some (st\<lparr>cenv := if go then w else buffers_free w, cudp_at := if go then Testing else Over\<rparr>)"
    by (auto simp: client_turn_def client_udp_turn_def client_udp_receiver_wake_def split: if_splits)
  then show ?thesis by (intro exI [of _ "[ready]"])
qed

section \<open>The receiving thread\<close>

lemma receiver_drops:
  assumes "recv_at st = RDropping Destroying" "cmain_at st \<noteq> CEnded" and "client_drop (cli st) (cenv st) = (c, w)"
  shows "client_schedule S Z (replicate 4 (Client_Receiver, 0)) st =
    Some (st\<lparr>cli := c, exiting := True, cenv := w, recv_at := RFinished\<rparr>)"
  using assms
  by (auto simp: eval_nat_numeral client_turn_def client_receiver_turn_def drop_turn_def client_drop_def Let_def
      split: prod.splits)

lemma receiver_ends:
  assumes "recv_at st = RChecking" "cmain_at st \<noteq> CEnded" and "client_receiver_end (cli st) (cenv st) = (c, w)"
  shows "\<exists>n. client_schedule S Z (replicate n (Client_Receiver, 0)) st =
    Some (st\<lparr>cli := c, exiting := True, cenv := w, recv_at := RFinished\<rparr>)"
proof (cases "established (cli st)")
  case True
  with assms have "client_drop (cli st) (cenv st) = (c, w)" by (simp add: client_receiver_end_def)
  with assms(2) receiver_drops [of "st\<lparr>recv_at := RDropping Destroying\<rparr>" c w S Z] True assms(1)
  have "client_schedule S Z ((Client_Receiver, 0) # replicate 4 (Client_Receiver, 0)) st =
      Some (st\<lparr>cli := c, exiting := True, cenv := w, recv_at := RFinished\<rparr>)"
    by (simp add: client_turn_def client_receiver_turn_def)
  then show ?thesis by (metis replicate_Suc)
next
  case False
  with assms have "client_schedule S Z (replicate 2 (Client_Receiver, 0)) st =
      Some (st\<lparr>cli := c, exiting := True, cenv := w, recv_at := RFinished\<rparr>)"
    by (simp add: eval_nat_numeral client_receiver_end_def client_turn_def client_receiver_turn_def)
  then show ?thesis by blast
qed

lemma receiver_loop_turns:
  assumes "client_receiver_loop c w = Some v" and "client_receiver_end c v = (c', w')"
  shows "cli st = c \<Longrightarrow> cenv st = w \<Longrightarrow> recv_at st = RAtHead \<Longrightarrow> cmain_at st \<noteq> CEnded \<Longrightarrow>
    \<exists>n. client_schedule S Z (replicate n (Client_Receiver, 0)) st =
      Some (st\<lparr>cli := c', exiting := True, cenv := w', recv_at := RFinished\<rparr>)"
  using assms
proof (induction c w arbitrary: st rule: client_receiver_loop.induct)
  case (1 c w)
  show ?case
  proof (cases "established c")
    case False
    then have "client_receiver_end (cli st) (cenv st) = (c', w')"
      using 1(2,3,6,7) by (simp add: client_receiver_loop.simps)
    with receiver_ends [of "st\<lparr>recv_at := RChecking\<rparr>" c' w' S Z] obtain n where
      "client_schedule S Z (replicate n (Client_Receiver, 0)) (st\<lparr>recv_at := RChecking\<rparr>) =
         Some (st\<lparr>cli := c', exiting := True, cenv := w', recv_at := RFinished\<rparr>)" using 1(5) by auto
    then have "client_schedule S Z (replicate (Suc n) (Client_Receiver, 0)) st =
         Some (st\<lparr>cli := c', exiting := True, cenv := w', recv_at := RFinished\<rparr>)"
      using 1(2,4,5) False by (simp add: client_turn_def client_receiver_turn_def)
    then show ?thesis by blast
  next
    case True
    obtain go w1 where pk: "client_receiver_packet c w = (go, w1)" by force
    let ?st = "st\<lparr>cenv := w1, recv_at := if go then RAtHead else RChecking\<rparr>"
    have nw: "\<not> stalled w1" and loop: "(if go then client_receiver_loop c w1 else Some w1) = Some v"
      using True pk 1(6) by (simp_all add: client_receiver_loop.simps [of c w] split: if_splits)
    have "\<exists>n. client_schedule S Z (replicate n (Client_Receiver, 0)) ?st =
        Some (?st\<lparr>cli := c', exiting := True, cenv := w', recv_at := RFinished\<rparr>)"
    proof (cases go)
      case t: True
      show ?thesis
        by (rule 1(1) [OF True pk [symmetric] nw t]) (use t 1(2,5,7) loop in simp_all)
    next
      case False
      show ?thesis by (rule receiver_ends) (use False 1(2,5,7) loop in simp_all)
    qed
    then obtain n where "client_schedule S Z (replicate n (Client_Receiver, 0)) ?st =
        Some (?st\<lparr>cli := c', exiting := True, cenv := w', recv_at := RFinished\<rparr>)" by blast
    then have "client_schedule S Z (replicate (Suc (Suc n)) (Client_Receiver, 0)) st =
        Some (st\<lparr>cli := c', exiting := True, cenv := w', recv_at := RFinished\<rparr>)"
      using 1(2-5) True pk nw by (simp add: client_turn_def client_receiver_turn_def)
    then show ?thesis by blast
  qed
qed

lemma receiver_turns:
  assumes "client_receiver (cli st) (cenv st) = Some (c, ex, w)" and "recv_at st = RAtHead" "cmain_at st \<noteq> CEnded"
  shows "\<exists>n. client_schedule S Z (replicate n (Client_Receiver, 0)) st =
    Some (st\<lparr>cli := c, exiting := ex, cenv := w, recv_at := RFinished\<rparr>)"
proof -
  obtain v where "client_receiver_loop (cli st) (cenv st) = Some v" "client_receiver_end (cli st) v = (c, w)" "ex"
    using assms(1) by (auto simp: client_receiver_def split: prod.splits option.splits)
  with receiver_loop_turns [OF this(1,2) refl refl assms(2,3)] show ?thesis by simp
qed

section \<open>The main thread\<close>

lemma main_drops:
  assumes "cmain_at st = CDropping Destroying" and "client_drop (cli st) (cenv st) = (c, w)"
  shows "client_schedule S Z (replicate 4 (Client_Main, 0)) st =
    Some (st\<lparr>cli := c, exiting := True, cenv := log_msg SUCCESS_MSG CLIENT_RT ''Disconnected from server'' [] w,
             cmain_at := CEnding\<rparr>)"
  using assms
  by (auto simp: eval_nat_numeral client_turn_def client_main_turn_def drop_turn_def client_drop_def Let_def
      split: prod.splits)

lemma command_turns:
  assumes at: "cmain_at st = CCommand input" "\<not> exiting st"
    and run: "client_execute_command (Some (cli st)) input False (cenv st) = (c, ex, w)"
  shows "\<exists>turns. client_schedule S Z (map (Pair Client_Main) turns) st =
    Some (st\<lparr>cli := the c, exiting := ex, cenv := if ex then w else printf CLIENT_SHELL_PREFIX w,
             cmain_at := if ex then CEnding else CAtHead\<rparr>)"
proof (cases "map_of client_commands input = Some Client_Disconnect \<and> established (cli st)")
  case True
  obtain c1 w1 where d: "client_drop (cli st) (cenv st) = (c1, w1)" by force
  have "client_schedule S Z ((Client_Main, 0) # replicate 4 (Client_Main, 0)) st =
      Some (st\<lparr>cli := the c, exiting := ex, cenv := if ex then w else printf CLIENT_SHELL_PREFIX w,
             cmain_at := if ex then CEnding else CAtHead\<rparr>)"
    using True at run d main_drops [of "st\<lparr>cmain_at := CDropping Destroying\<rparr>" c1 w1 S Z]
    by (auto simp: client_turn_def client_main_turn_def client_command_turn_def client_execute_command_def cmd_disconnect_def)
  then show ?thesis by (intro exI [of _ "replicate 5 0"]) (simp add: eval_nat_numeral)
next
  case False
  with assms have "client_schedule S Z (map (Pair Client_Main) [0, 0]) st =
      Some (st\<lparr>cli := the c, exiting := ex, cenv := if ex then w else printf CLIENT_SHELL_PREFIX w,
             cmain_at := if ex then CEnding else CAtHead\<rparr>)"
    by (auto simp: client_turn_def client_main_turn_def client_command_turn_def client_execute_command_def cmd_disconnect_def
        split: option.splits client_command_func.splits)
  then show ?thesis by (intro exI [of _ "[0, 0]"])
qed

lemma main_turns:
  assumes at: "cmain_at st = CInSelect"
    and run: "client_main_wake ready (cli st) (exiting st) (cenv st) = (go, c, ex, w)"
  shows "\<exists>turns. client_schedule S Z (map (Pair Client_Main) turns) st =
    Some (st\<lparr>cli := c, exiting := ex, cenv := w, cmain_at := if go then CAtHead else CEnding\<rparr>)"
proof -
  obtain line w1 where rd: "sys_fgets 256 (cenv st) = (line, w1)" by force
  show ?thesis
  proof (cases "exiting st \<or> ready \<le> 0 \<or> line = None")
    case True
    with at run rd have "client_schedule S Z (map (Pair Client_Main) [ready]) st =
        Some (st\<lparr>cli := c, exiting := ex, cenv := w, cmain_at := if go then CAtHead else CEnding\<rparr>)"
      by (auto simp: client_turn_def client_main_turn_def client_main_wake_def split: if_splits)
    then show ?thesis by (intro exI [of _ "[ready]"])
  next
    case False
    then obtain input where l: "line = Some input" by auto
    let ?st = "st\<lparr>cenv := w1, cmain_at := CCommand (cut_newline input)\<rparr>"
    obtain c' ex' w' where ex: "client_execute_command (Some (cli st)) (cut_newline input) False w1 = (c', ex', w')"
      by (metis prod_cases3)
    have "(go, c, ex, w) = (\<not> ex', the c', ex', if ex' then w' else printf CLIENT_SHELL_PREFIX w')"
      using run False rd l ex by (auto simp: client_main_wake_def split: if_splits)
    moreover obtain turns where "client_schedule S Z (map (Pair Client_Main) turns) ?st =
        Some (?st\<lparr>cli := the c', exiting := ex', cenv := if ex' then w' else printf CLIENT_SHELL_PREFIX w',
                 cmain_at := if ex' then CEnding else CAtHead\<rparr>)"
      using command_turns [of ?st "cut_newline input" c' ex' w' S Z] ex False by auto
    ultimately have "client_schedule S Z (map (Pair Client_Main) (ready # turns)) st =
        Some (st\<lparr>cli := c, exiting := ex, cenv := w, cmain_at := if go then CAtHead else CEnding\<rparr>)"
      using at False rd l by (simp add: client_turn_def client_main_turn_def split: if_splits)
    then show ?thesis by blast
  qed
qed

end
