(* ===== verification/ClientSafety.thy ===== *)
theory ClientSafety
  imports ClientThreads ServerNonces Tunnel
begin

text \<open>
  The invariants of the client's threads: which descriptors and blocks they may touch, and
  what the sender encrypts under which key and counter, whenever the session is destroyed.
\<close>

section \<open>What one step may do to the world\<close>

text \<open>
  \<open>keeps F w w'\<close>: only descriptors of \<open>F\<close> may have been closed, none was opened, and nothing
  is allocated or freed.
\<close>

definition keeps :: "int set \<Rightarrow> world \<Rightarrow> world \<Rightarrow> bool" where
  "keeps F w w' \<longleftrightarrow>
     (\<forall>fd. fd \<notin> F \<longrightarrow> (socks w' fd = None \<longleftrightarrow> socks w fd = None)) \<and>
     (\<forall>fd. socks w fd = None \<longrightarrow> socks w' fd = None) \<and>
     set (closed w') \<subseteq> set (closed w) \<union> F \<and> set (bad_closes w') \<subseteq> set (bad_closes w) \<union> F \<and>
     leaked w' = leaked w"

lemma keepsD:
  assumes "keeps F w w'"
  shows "fd \<notin> F \<Longrightarrow> socks w' fd = None \<longleftrightarrow> socks w fd = None" "socks w fd = None \<Longrightarrow> socks w' fd = None"
    "set (closed w') \<subseteq> set (closed w) \<union> F" "set (bad_closes w') \<subseteq> set (bad_closes w) \<union> F" "leaked w' = leaked w"
  using assms unfolding keeps_def by blast+

lemma keeps_refl [simp, intro]: "keeps F w w"
  by (simp add: keeps_def)

lemma keeps_trans [trans]: "keeps F u v \<Longrightarrow> keeps F v w \<Longrightarrow> keeps F u w"
  unfolding keeps_def by (intro conjI; (metis | (elim conjE, blast)))

lemma keeps_update [simp]:
  "keeps F w (log_msg t r m as w') \<longleftrightarrow> keeps F w w'" "keeps F w (w'\<lparr>stdin_buf := x\<rparr>) \<longleftrightarrow> keeps F w w'"
  "keeps F w (w'\<lparr>net_calls := n\<rparr>) \<longleftrightarrow> keeps F w w'" "keeps F w (w'\<lparr>udp_out := u\<rparr>) \<longleftrightarrow> keeps F w w'"
  "keeps F w (w'\<lparr>udp_in := d\<rparr>) \<longleftrightarrow> keeps F w w'" "keeps F w (w'\<lparr>tun_out := t'\<rparr>) \<longleftrightarrow> keeps F w w'"
  by (simp_all add: keeps_def leaked_def log_lines_def)
    (simp_all add: leaked_def log_lines_def log_unfold)

lemma keeps_printf: "\<not> is_log_line s \<Longrightarrow> keeps F w (printf s w') \<longleftrightarrow> keeps F w w'"
  by (simp add: keeps_def leaked_def log_lines_def printf_def)

lemma client_texts: "\<not> is_log_line CLIENT_SHELL_PREFIX" "\<not> is_log_line (CHR 0x1B # s)"
  by (simp_all add: is_log_line_def CLIENT_SHELL_PREFIX_def)

lemma keeps_cmd_clear [simp]: "keeps F w (cmd_clear w') \<longleftrightarrow> keeps F w w'"
  by (simp add: cmd_clear_def keeps_printf client_texts)

lemma cmd_clear_udp [simp]: "udp_out (cmd_clear w) = udp_out w" "udp_out (printf s w) = udp_out w"
  by (simp_all add: cmd_clear_def printf_def)

lemma keeps_close [simp]:
  assumes "fd \<in> F" and "keeps F w w'"
  shows "keeps F w (sys_close fd w')"
  using assms(2)
proof (rule keeps_trans)
  show "keeps F w' (sys_close fd w')"
    using assms(1) by (auto simp: keeps_def sys_close_def leaked_def log_lines_def split: option.splits)
qed

lemma keeps_io: "io_frame w w' \<Longrightarrow> leaked w' = leaked w \<Longrightarrow> keeps F w w'"
  by (simp add: keeps_def io_frame_def)

lemma keeps_input: "input_change w w' \<Longrightarrow> keeps F w w' \<and> udp_out w' = udp_out w"
  by (simp add: input_change_def keeps_def leaked_def log_lines_def)

lemma keeps_fgets: "sys_fgets n w = (r, w') \<Longrightarrow> keeps F w w' \<and> udp_out w' = udp_out w"
  by (auto simp: sys_fgets_def split: if_splits prod.splits)

lemma keeps_read_packet:
  "sys_read_packet fd n w = (raw, w') \<Longrightarrow> keeps F w w' \<and> udp_out w' = udp_out w \<and> host w' = host w"
  by (auto simp: sys_read_packet_def keeps_def leaked_def log_lines_def split: option.splits list.splits if_splits)

lemma keeps_tun_read: "tun_read dev n w = (raw, w') \<Longrightarrow> keeps F w w' \<and> udp_out w' = udp_out w \<and> host w' = host w"
  unfolding tun_read_def
  by (drule keeps_read_packet [where F = F], elim conjE, intro conjI, rule keeps_trans [rotated], assumption) simp_all

lemma keeps_tun_write: "keeps F w (snd (tun_write dev b w)) \<and> udp_out (snd (tun_write dev b w)) = udp_out w"
  by (simp add: tun_write_def sys_net_def Let_def)

lemma keeps_receiver_packet:
  assumes "client_receiver_packet c w = (go, w')"
  shows "keeps F w w'" "udp_out w' = udp_out w"
  using client_receiver_packet_frame [OF assms]
  by (auto simp: socket_frame_def io_frame_def intro: keeps_io)

lemma keeps_udp_datagram:
  "keeps F w (client_udp_receiver_datagram S Z c w) \<and> udp_out (client_udp_receiver_datagram S Z c w) = udp_out w"
proof -
  obtain d w1 where rv: "sys_recvfrom (udp_socket (udp (cl_session c))) TUNNEL_PACKET_MAX_SIZE w = (d, w1)" by force
  have "keeps F w w1 \<and> udp_out w1 = udp_out w"
    using rv by (auto simp: sys_recvfrom_def split: list.splits prod.splits if_splits)
  moreover have "client_udp_receiver_datagram S Z c w \<in> {w1} \<union> {snd (tun_write dev b w1) |dev b. True}"
    using rv by (auto simp: client_udp_receiver_datagram_def Let_def split: option.splits prod.splits)
  ultimately show ?thesis using keeps_tun_write [of F w1] by (auto intro: keeps_trans)
qed

lemma keeps_session_destroy:
  assumes "session_destroy s w = (s', w')" and "0 \<le> sess_socket s \<Longrightarrow> sess_socket s \<in> F"
    and "0 \<le> udp_socket (udp s) \<Longrightarrow> udp_socket (udp s) \<in> F"
  shows "keeps F w w'" "udp_out w' = udp_out w"
    "s' = zero_session\<lparr>sess_socket := -1, sess_state := SESSION_DISCONNECTED\<rparr>"
  using assms by (auto simp: destroyed_session split: if_splits)

lemma keeps_environment_end:
  assumes "client_environment_end c w = (c', w')" and "0 \<le> conn_socket (cl_connection c) \<Longrightarrow> conn_socket (cl_connection c) \<in> F"
  shows "keeps F w w'" "udp_out w' = udp_out w" "cl_session c' = cl_session c" "cl_tun c' = cl_tun c"
    "conn_socket (cl_connection c') \<in> {conn_socket (cl_connection c), -1}"
  using assms
  by (auto simp: client_environment_end_def connection_disconnect_def connection_cleanup_def Let_def
      split: if_splits prod.splits)

text \<open>The buffers of the two packet threads.\<close>

definition tunnel_blocks :: "tunnel_pc \<Rightarrow> int" where
  "tunnel_blocks pc = (if pc = Spawned \<or> pc = Over then 0 else 3)"

lemma keeps_buffers:
  assumes "client_tun_sender_start w = (go, w') \<or> client_udp_receiver_start w = (go, w')"
  shows "keeps F (w\<lparr>heap := heap w + (if go then 3 else 0)\<rparr>) w'" "udp_out w' = udp_out w"
proof -
  obtain a b c v where al: "allocate_three w = (a, b, c, v)" by (metis prod_cases4)
  have v: "v = w\<lparr>malloc_calls := Suc (Suc (Suc (malloc_calls w))),
      heap := heap w + (if a then 1 else 0) + (if b then 1 else 0) + (if c then 1 else 0)\<rparr>"
    using al unfolding allocate_three_def sys_malloc_def Let_def prod.case prod.inject by (elim conjE) simp
  have "client_tun_sender_start w = (a \<and> b \<and> c, if a \<and> b \<and> c then v
      else free_three a b c (log_msg ERROR_MSG CLIENT_RT ''Failed to allocate TUN sender buffers'' [] v))"
    "client_udp_receiver_start w = (a \<and> b \<and> c, if a \<and> b \<and> c then v
      else free_three a b c (log_msg ERROR_MSG CLIENT_RT ''Failed to allocate UDP receive buffers'' [] v))"
    by (simp_all add: client_tun_sender_start_def client_udp_receiver_start_def al)
  with assms obtain m where "go = (a \<and> b \<and> c)"
      "w' = (if a \<and> b \<and> c then v else free_three a b c (log_msg ERROR_MSG CLIENT_RT m [] v))" by auto
  then have w': "go = (a \<and> b \<and> c)"
      "w' = (if a \<and> b \<and> c then v else log_msg ERROR_MSG CLIENT_RT m [] (free_three a b c v))"
    by (simp_all add: free_three_def sys_free_log_msg)
  show "keeps F (w\<lparr>heap := heap w + (if go then 3 else 0)\<rparr>) w'" "udp_out w' = udp_out w"
    unfolding w' by (cases a; cases b; cases c; simp add: v free_three_def sys_free_def; simp add: keeps_def leaked_def log_lines_def)+
qed

lemma keeps_buffers_free: "keeps F (w\<lparr>heap := heap w - 3\<rparr>) (buffers_free w)" "udp_out (buffers_free w) = udp_out w"
  by (simp_all add: buffers_free_def free_three_def sys_free_def)

section \<open>The packets of the sender\<close>

text \<open>
  An observed packet is encrypted under the sending key of a session and its counter, and if
  it was sent, on the descriptor of the session's tunnel.
\<close>

type_synonym observation = "bytes \<times> u64 \<times> (int \<times> sockaddr_in option \<times> bytes) option"

definition sealed_under :: "sodium \<Rightarrow> session \<Rightarrow> observation \<Rightarrow> bool" where
  "sealed_under S s e \<longleftrightarrow>
     fst e = tx_key (crypto s) \<and>
     (\<forall>x. snd (snd e) = Some x \<longrightarrow>
        (\<exists>plain ct. x = (udp_socket (udp s), None, tunnel_header (session_id s, fst (snd e)) @ ct) \<and>
           aead_encrypt S plain (zeros 4 @ bytes_be 8 (fst (snd e))) (tx_key (crypto s)) = Some ct))"

lemma sealed_under_counter [simp]: "sealed_under S (s\<lparr>crypto := (crypto s)\<lparr>tx_nonce := n\<rparr>\<rparr>) = sealed_under S s"
  by (simp add: sealed_under_def fun_eq_iff)

lemma advance_neq: "advance s \<noteq> s"
proof
  assume "advance s = s"
  then have "tx_nonce (crypto (advance s)) = tx_nonce (crypto s)" by simp
  then show False by (simp add: advance_def)
qed

lemma client_packet_result:
  assumes run: "client_tun_sender_packet S Z c w = (c', w')"
  shows "keeps F w w'"
    "c' = c \<and> udp_out w' = udp_out w \<and> client_observe c c' w w' = [] \<or>
     c' = c\<lparr>cl_session := advance (cl_session c)\<rparr> \<and>
     (\<exists>e. client_observe c c' w w' = [e] \<and> fst (snd e) = tx_nonce (crypto (cl_session c)) \<and>
        sealed_under S (cl_session c) e \<and> udp_out w' = udp_out w @ List.map_filter (snd \<circ> snd) [e])"
proof -
  let ?s = "cl_session c"
  obtain raw w1 where rd: "tun_read (the (cl_tun c)) TUNNEL_PACKET_MAX_PLAINTEXT w = (raw, w1)" by force
  have w1: "keeps F w w1" "udp_out w1 = udp_out w" "host w1 = host w" using keeps_tun_read [OF rd] by blast+
  let ?z = "tunnel_pipeline_compress Z (host w) raw TUNNEL_PACKET_MAX_PLAINTEXT"
  let ?inp = "\<lparr>enc_session_id = session_id ?s, enc_counter = tx_nonce (crypto ?s), enc_plaintext = ?z\<rparr>"
  obtain r w2 where en: "tunnel_packet_encode S ?inp (crypto (advance ?s)) w1 = (r, w2)" by force
  have eq: "(c', w') = (if raw = [] \<or> ?z = [] then (c, w1)
      else (c\<lparr>cl_session := advance ?s\<rparr>,
        case r of None \<Rightarrow> w2 | Some d \<Rightarrow> sys_send_datagram (udp_socket (udp ?s)) None d w2))"
    unfolding run [symmetric] using en
    by (simp add: client_tun_sender_packet_def rd w1(3) Let_def advance_def split: option.split)
  have w2: "keeps F w1 w2" "udp_out w2 = udp_out w1"
    using encode_header(1) [OF en] by (auto simp: log_frame_def io_frame_def intro: keeps_io)
  show "keeps F w w'"
    using eq w1(1) keeps_trans [OF w1(1) w2(1)] by (auto simp: sys_send_datagram_def split: if_splits option.splits)
  show "c' = c \<and> udp_out w' = udp_out w \<and> client_observe c c' w w' = [] \<or>
     c' = c\<lparr>cl_session := advance (cl_session c)\<rparr> \<and>
     (\<exists>e. client_observe c c' w w' = [e] \<and> fst (snd e) = tx_nonce (crypto (cl_session c)) \<and>
        sealed_under S (cl_session c) e \<and> udp_out w' = udp_out w @ List.map_filter (snd \<circ> snd) [e])"
  proof (cases "raw = [] \<or> ?z = []")
    case True
    with eq w1(2) show ?thesis by (simp add: client_observe_def)
  next
    case False
    have ne: "c \<noteq> c\<lparr>cl_session := advance ?s\<rparr>"
      using advance_neq [of ?s] by (metis client.select_convs(1) client.surjective client.update_convs(1))
    show ?thesis
    proof (cases r)
      case None
      with False eq w1(2) w2(2) ne show ?thesis
        by (auto simp: client_observe_def sealed_under_def map_filter_simps)
    next
      case (Some d)
      from encode_header(2) [OF en Some] obtain ct where
        ct: "aead_encrypt S ?z (zeros 4 @ bytes_be 8 (tx_nonce (crypto ?s))) (tx_key (crypto ?s)) = Some ct"
          "d = tunnel_header (session_id ?s, tx_nonce (crypto ?s)) @ ct"
        by (auto simp: crypto_build_nonce_be advance_def)
      with Some False eq w1(2) w2(2) ne show ?thesis
        by (auto simp: client_observe_def sealed_under_def map_filter_simps sys_send_datagram_def)
    qed
  qed
qed

section \<open>The invariant\<close>

text \<open>The session while it lives, after \<open>n\<close> packets, and the session after it was destroyed.\<close>

definition live_session :: "session \<Rightarrow> nat \<Rightarrow> session" where
  "live_session s n = s\<lparr>crypto := (crypto s)\<lparr>tx_nonce := tx_nonce (crypto s) + of_nat n\<rparr>\<rparr>"

definition dead_session :: "u64 \<Rightarrow> session" where
  "dead_session n =
     zero_session\<lparr>sess_socket := -1, sess_state := SESSION_DISCONNECTED, crypto := crypto_context_init\<lparr>tx_nonce := n\<rparr>\<rparr>"

lemma dead_session_crypto: "crypto (dead_session t) = crypto_context_init\<lparr>tx_nonce := t\<rparr>"
  by (simp add: dead_session_def)

lemma advance_simps [simp]:
  "advance (live_session s n) = live_session s (Suc n)" "advance (dead_session t) = dead_session (t + 1)"
  "sealed_under S (live_session s n) = sealed_under S s"
  "tx_nonce (crypto (live_session s n)) = tx_nonce (crypto s) + of_nat n" "tx_nonce (crypto (dead_session t)) = t"
  "zero_session\<lparr>sess_socket := -1, sess_state := SESSION_DISCONNECTED\<rparr> = dead_session 0"
  by (simp_all add: advance_def live_session_def dead_session_def zero_session_def crypto_context_init_def add_ac
      sealed_under_def fun_eq_iff)

lemma dead_session_down [simp]: "sess_state (dead_session t) = SESSION_DISCONNECTED" "sess_socket (dead_session t) = -1"
  "udp_socket (udp (dead_session t)) = 0" "tx_key (crypto (dead_session t)) = zeros CRYPTO_SESSION_KEY_SIZE"
  by (simp_all add: dead_session_def zero_session_def zero_udp_tunnel_def crypto_context_init_def)

lemma live_session_same [simp]: "sess_state (live_session s n) = sess_state s" "sess_socket (live_session s n) = sess_socket s"
  "udp (live_session s n) = udp s" "tx_key (crypto (live_session s n)) = tx_key (crypto s)"
  by (simp_all add: live_session_def)

text \<open>
  What has been encrypted: first, under the keys of the session, counters that go up by one;
  then, when the session was destroyed under the sender's feet, at most one packet under the
  zero key.
\<close>

definition live_packets :: "sodium \<Rightarrow> session \<Rightarrow> observation list \<Rightarrow> bool" where
  "live_packets S s0 l \<longleftrightarrow>
     map (fst \<circ> snd) l = map (\<lambda>i. tx_nonce (crypto s0) + of_nat i) [0..<length l] \<and>
     (\<forall>e \<in> set l. sealed_under S s0 e)"

definition dead_packets :: "sodium \<Rightarrow> observation list \<Rightarrow> bool" where
  "dead_packets S r \<longleftrightarrow> length r \<le> 1 \<and> (\<forall>e \<in> set r. fst (snd e) = 0 \<and> sealed_under S (dead_session 0) e)"

lemma packets_nil [simp]: "live_packets S s0 []" "dead_packets S []"
  by (simp_all add: live_packets_def dead_packets_def)

inductive phase_ok :: "sodium \<Rightarrow> session \<Rightarrow> session \<Rightarrow> tunnel_pc \<Rightarrow> observation list \<Rightarrow> bool"
  for S :: sodium and s0 :: session where
  living: "live_packets S s0 l \<Longrightarrow> phase_ok S s0 (live_session s0 (length l)) a l"
| dead: "live_packets S s0 l \<Longrightarrow> dead_packets S r \<Longrightarrow> (a = Handling \<longrightarrow> r = [] \<and> t = 0) \<Longrightarrow>
    phase_ok S s0 (dead_session t) a (l @ r)"

inductive_cases phase_okE: "phase_ok S s0 s a es"

lemma phase_dead_first: "live_packets S s0 l \<Longrightarrow> phase_ok S s0 (dead_session 0) a l"
  using phase_ok.dead [of S s0 l "[]" a 0] by simp

lemma phase_destroy: "phase_ok S s0 s a es \<Longrightarrow> phase_ok S s0 (dead_session 0) a es"
  by (erule phase_okE) (blast intro: phase_dead_first, simp only:, blast intro: phase_ok.dead)

lemma phase_move: "phase_ok S s0 s a es \<Longrightarrow> a' \<noteq> Handling \<Longrightarrow> phase_ok S s0 s a' es"
  by (erule phase_okE) (simp only:, blast intro: phase_ok.living, simp only:, blast intro: phase_ok.dead)

lemma phase_handle:
  "phase_ok S s0 s a es \<Longrightarrow> sess_state s = SESSION_ESTABLISHED \<Longrightarrow> phase_ok S s0 s Handling es"
  by (erule phase_okE) (simp only:, rule phase_ok.living, simp_all)

lemma phase_packet:
  assumes "phase_ok S s0 s Handling es" and "fst (snd e) = tx_nonce (crypto s)" and "sealed_under S s e"
  shows "phase_ok S s0 (advance s) Testing (es @ [e])"
  using assms(1)
proof cases
  case living
  then have "live_packets S s0 (es @ [e])" using assms(2,3) by (simp add: live_packets_def)
  from phase_ok.living [OF this, of Testing] living show ?thesis by simp
next
  case (dead l r t)
  then have "dead_packets S [e]" using assms(2,3) by (simp add: dead_packets_def)
  with dead show ?thesis by (auto intro: phase_ok.dead)
qed

text \<open>
  The descriptors a client may close, and the invariant of the client and the world: its
  blocks are the buffers of the packet threads that run.
\<close>

definition client_fds :: "client \<Rightarrow> int set" where
  "client_fds c = {sess_socket (cl_session c), udp_socket (udp (cl_session c)), 0}"

definition client_core ::
    "sodium \<Rightarrow> client \<Rightarrow> world \<Rightarrow> client \<Rightarrow> world \<Rightarrow> tunnel_pc \<Rightarrow> tunnel_pc \<Rightarrow> observation list \<Rightarrow> bool" where
  "client_core S c0 w0 c w a b es \<longleftrightarrow>
     keeps (client_fds c0) (w0\<lparr>heap := heap w0 + (tunnel_blocks a + tunnel_blocks b)\<rparr>) w \<and>
     conn_socket (cl_connection c) \<in> {sess_socket (cl_session c0), -1} \<and> cl_tun c = cl_tun c0 \<and>
     udp_out w = udp_out w0 @ List.map_filter (snd \<circ> snd) es \<and>
     phase_ok S (cl_session c0) (cl_session c) a es"

definition client_ok :: "sodium \<Rightarrow> client \<Rightarrow> world \<Rightarrow> client_state \<Rightarrow> bool" where
  "client_ok S c0 w0 st \<longleftrightarrow>
     client_core S c0 w0 (cli st) (cenv st) (send_at st) (cudp_at st) (csealed st) \<and>
     (recv_at st = RFinished \<longrightarrow> exiting st) \<and> (recv_at st = RAbsent \<longleftrightarrow> cmain_at st = CLaunching)"

section \<open>Every step keeps it\<close>

lemma core_quiet:
  assumes "client_core S c0 w0 c w a b es" and "keeps (client_fds c0) w w'" and "udp_out w' = udp_out w"
  shows "client_core S c0 w0 c w' a b es"
  using assms(1) keeps_trans [OF _ assms(2)] unfolding client_core_def assms(3) by blast

lemma core_session:
  assumes "client_core S c0 w0 c w a b es"
  shows "sess_socket (cl_session c) \<in> {sess_socket (cl_session c0), -1} \<and>
    udp_socket (udp (cl_session c)) \<in> {udp_socket (udp (cl_session c0)), 0}"
  using assms unfolding client_core_def by (elim conjE phase_okE) simp_all

lemma core_destroy:
  assumes ok: "client_core S c0 w0 c w a b es" and run: "session_destroy (cl_session c) w = (s, w')"
  shows "client_core S c0 w0 (c\<lparr>cl_session := s\<rparr>) w' a b es"
proof -
  have d: "keeps (client_fds c0) w w'" "udp_out w' = udp_out w" "s = dead_session 0"
    using keeps_session_destroy [OF run, of "client_fds c0"] core_session [OF ok] by (auto simp: client_fds_def)
  with core_quiet [OF ok d(1,2)] show ?thesis by (auto simp: client_core_def intro: phase_destroy)
qed

lemma core_connection:
  assumes "client_core S c0 w0 c w a b es" and "conn_socket con \<in> {conn_socket (cl_connection c), -1}"
  shows "client_core S c0 w0 (c\<lparr>cl_connection := con\<rparr>) w a b es"
  using assms by (auto simp: client_core_def)

lemma core_packet:
  assumes ok: "client_core S c0 w0 c w Handling b es" and run: "client_tun_sender_packet S Z c w = (c', w')"
  shows "client_core S c0 w0 c' w' Testing b (es @ client_observe c c' w w')"
proof -
  note k = client_packet_result(1) [OF run, of "client_fds c0"]
  have keep: "keeps (client_fds c0) (w0\<lparr>heap := heap w0 + (tunnel_blocks Testing + tunnel_blocks b)\<rparr>) w'"
    using ok keeps_trans [OF _ k] by (simp add: client_core_def tunnel_blocks_def)
  from client_packet_result(2) [OF run] show ?thesis
  proof (elim disjE conjE exE)
    assume "c' = c" "udp_out w' = udp_out w" "client_observe c c' w w' = []"
    with ok keep show ?thesis by (auto simp: client_core_def intro: phase_move)
  next
    fix e assume "c' = c\<lparr>cl_session := advance (cl_session c)\<rparr>" "client_observe c c' w w' = [e]"
        "fst (snd e) = tx_nonce (crypto (cl_session c))" "sealed_under S (cl_session c) e"
        "udp_out w' = udp_out w @ List.map_filter (snd \<circ> snd) [e]"
    with ok keep show ?thesis by (auto simp: client_core_def List.map_filter_def intro: phase_packet)
  qed
qed

text \<open>A packet thread that starts or leaves takes its buffers with it.\<close>

lemma keeps_heap: "keeps F u v \<Longrightarrow> keeps F (u\<lparr>heap := heap u + k\<rparr>) (v\<lparr>heap := heap v + k\<rparr>)"
  by (simp add: keeps_def leaked_def log_lines_def)

lemma keeps_blocks:
  assumes "keeps F (w0\<lparr>heap := heap w0 + k\<rparr>) w" and "keeps F (w\<lparr>heap := heap w + j\<rparr>) w'" and "m = k + j"
  shows "keeps F (w0\<lparr>heap := heap w0 + m\<rparr>) w'"
  using keeps_trans [OF keeps_heap [OF assms(1), of j] assms(2)] assms(3) by (simp add: add_ac)

lemma core_start:
  assumes ok: "client_core S c0 w0 c w a b es"
    and start: "client_tun_sender_start w = (go, w') \<or> client_udp_receiver_start w = (go, w')"
  shows "a = Spawned \<Longrightarrow> client_core S c0 w0 c w' (if go then Testing else Over) b es"
    "b = Spawned \<Longrightarrow> client_core S c0 w0 c w' a (if go then Testing else Over) es"
proof -
  note k = keeps_buffers(1) [OF start, of "client_fds c0"] keeps_buffers(2) [OF start]
  have w: "keeps (client_fds c0) (w0\<lparr>heap := heap w0 + (tunnel_blocks a + tunnel_blocks b)\<rparr>) w"
    using ok by (simp add: client_core_def)
  have n: "keeps (client_fds c0)
      (w0\<lparr>heap := heap w0 + (tunnel_blocks a + tunnel_blocks b + (if go then 3 else 0))\<rparr>) w'"
    by (rule keeps_blocks [OF w k(1) refl])
  have g: "tunnel_blocks (if go then Testing else Over) = (if go then 3 else 0)" "tunnel_blocks Spawned = 0"
    by (simp_all add: tunnel_blocks_def)
  show "client_core S c0 w0 c w' (if go then Testing else Over) b es" if "a = Spawned"
    using ok k(2) n that unfolding client_core_def g by (auto simp: add_ac g intro: phase_move)
  show "client_core S c0 w0 c w' a (if go then Testing else Over) es" if "b = Spawned"
    using ok k(2) n that unfolding client_core_def g by (simp add: add_ac g)
qed

lemma core_leave:
  assumes ok: "client_core S c0 w0 c w a b es"
  shows "tunnel_blocks a = 3 \<Longrightarrow> client_core S c0 w0 c (buffers_free w) Over b es"
    "tunnel_blocks b = 3 \<Longrightarrow> client_core S c0 w0 c (buffers_free w) a Over es"
proof -
  note k = keeps_buffers_free(1) [of "client_fds c0" w] keeps_buffers_free(2) [of w]
  have w: "keeps (client_fds c0) (w0\<lparr>heap := heap w0 + (tunnel_blocks a + tunnel_blocks b)\<rparr>) w"
    using ok by (simp add: client_core_def)
  have "keeps (client_fds c0) (w\<lparr>heap := heap w + - 3\<rparr>) (buffers_free w)" using k(1) by simp
  note * = keeps_blocks [OF w this]
  show "client_core S c0 w0 c (buffers_free w) Over b es" if "tunnel_blocks a = 3"
    using ok k(2) that by (auto simp: client_core_def tunnel_blocks_def [of Over] intro: phase_move intro!: *)
  show "client_core S c0 w0 c (buffers_free w) a Over es" if "tunnel_blocks b = 3"
    using ok k(2) that by (auto simp: client_core_def tunnel_blocks_def [of Over] intro: phase_move intro!: *)
qed

lemma core_move:
  assumes ok: "client_core S c0 w0 c w a b es"
  shows "tunnel_blocks a' = tunnel_blocks a \<Longrightarrow> a' \<noteq> Handling \<or> tunnel_up c \<Longrightarrow> client_core S c0 w0 c w a' b es"
    "tunnel_blocks b' = tunnel_blocks b \<Longrightarrow> client_core S c0 w0 c w a b' es"
proof -
  assume t: "tunnel_blocks a' = tunnel_blocks a" "a' \<noteq> Handling \<or> tunnel_up c"
  have p: "phase_ok S (cl_session c0) (cl_session c) a es" using ok by (simp add: client_core_def)
  have "phase_ok S (cl_session c0) (cl_session c) a' es"
  proof (cases "a' = Handling")
    case True
    with t(2) phase_handle [OF p] show ?thesis by (simp add: tunnel_up_def established_def)
  qed (rule phase_move [OF p])
  with ok t(1) show "client_core S c0 w0 c w a' b es" by (simp add: client_core_def)
next
  assume "tunnel_blocks b' = tunnel_blocks b"
  with ok show "client_core S c0 w0 c w a b' es" by (simp add: client_core_def)
qed

section \<open>The threads keep it\<close>

lemma core_drop_turn:
  assumes ok: "client_core S c0 w0 (cli st) (cenv st) a b es" and run: "drop_turn pc st = (pc', st')"
  shows "client_core S c0 w0 (cli st') (cenv st') a b es"
proof -
  obtain s w where d: "session_destroy (cl_session (cli st)) (cenv st) = (s, w)" by force
  note destroyed = core_destroy [OF ok d]
  have con: "client_core S c0 w0 ((cli st)\<lparr>cl_connection := con\<rparr>) (cenv st) a b es"
    if "conn_socket con \<in> {conn_socket (cl_connection (cli st)), -1}" for con
    by (rule core_connection [OF ok that])
  show "client_core S c0 w0 (cli st') (cenv st') a b es"
    using run destroyed con d by (cases pc) (auto simp: drop_turn_def)
qed

lemma drop_turn_frame:
  assumes "drop_turn pc st = (pc', st')"
  shows "exiting st' = exiting st" "cmain_at st' = cmain_at st" "recv_at st' = recv_at st"
    "send_at st' = send_at st" "cudp_at st' = cudp_at st" "csealed st' = csealed st"
  using assms by (cases pc; auto simp: drop_turn_def split: prod.splits)+

lemma ok_main:
  assumes ok: "client_ok S c0 w0 st" and run: "client_main_turn ready st = Some st'"
  shows "client_ok S c0 w0 st'"
proof -
  have core: "client_core S c0 w0 (cli st) (cenv st) (send_at st) (cudp_at st) (csealed st)"
    and recv: "recv_at st = RFinished \<longrightarrow> exiting st" "recv_at st = RAbsent \<longleftrightarrow> cmain_at st = CLaunching"
    using ok by (simp_all add: client_ok_def)
  have quiet: "client_core S c0 w0 (cli st) w (send_at st) (cudp_at st) (csealed st)"
    if "keeps (client_fds c0) (cenv st) w \<and> udp_out w = udp_out (cenv st)" for w
    using that core_quiet [OF core] by blast
  show ?thesis
  proof (cases "cmain_at st")
    case CLaunching
    with run recv quiet show ?thesis
      by (auto simp: client_main_turn_def client_ok_def keeps_printf client_texts)
  next
    case CAtHead
    with run recv core show ?thesis by (cases "exiting st") (auto simp: client_main_turn_def client_ok_def)
  next
    case CInSelect
    obtain r w where "sys_fgets 256 (cenv st) = (r, w)" by force
    with CInSelect run recv core quiet [of w] keeps_fgets [of 256 "cenv st" r w] show ?thesis
      by (auto simp: client_main_turn_def client_ok_def split: if_splits option.splits)
  next
    case (CCommand input)
    with run recv core quiet show ?thesis
      by (auto simp: client_main_turn_def client_ok_def client_command_turn_def split: if_splits option.splits client_command_func.splits)
  next
    case (CDropping pc)
    obtain pc' st1 where d: "drop_turn pc st = (pc', st1)" by force
    note * = core_drop_turn [OF core d]
    from run CDropping d have "st' = (case pc' of Some p \<Rightarrow> st1\<lparr>cmain_at := CDropping p\<rparr>
        | None \<Rightarrow> st1\<lparr>cenv := log_msg SUCCESS_MSG CLIENT_RT ''Disconnected from server'' [] (cenv st1),
                  exiting := True, cmain_at := CAfter\<rparr>)"
      by (simp add: client_main_turn_def split: option.splits)
    then show ?thesis
      using CDropping recv * drop_turn_frame [OF d] core_quiet [OF *]
      by (simp add: client_ok_def split: option.split)
  next
    case CAfter
    with run recv core quiet show ?thesis
      by (auto simp: client_main_turn_def client_ok_def keeps_printf client_texts split: if_splits)
  next
    case CEnding
    obtain c w where e: "client_environment_end (cli st) (cenv st) = (c, w)" by force
    have "0 \<le> conn_socket (cl_connection (cli st)) \<Longrightarrow> conn_socket (cl_connection (cli st)) \<in> client_fds c0"
      using core by (auto simp: client_core_def client_fds_def)
    note k = keeps_environment_end [OF e this]
    then have "client_core S c0 w0 c w (send_at st) (cudp_at st) (csealed st)"
      using core_quiet [OF core k(1,2)] by (auto simp: client_core_def)
    with CEnding run recv e show ?thesis by (auto simp: client_main_turn_def client_ok_def)
  next
    case CEnded
    with run show ?thesis by (simp add: client_main_turn_def)
  qed
qed

lemma ok_receiver:
  assumes ok: "client_ok S c0 w0 st" and run: "client_receiver_turn st = Some st'"
  shows "client_ok S c0 w0 st'"
proof -
  have core: "client_core S c0 w0 (cli st) (cenv st) (send_at st) (cudp_at st) (csealed st)"
    and recv: "recv_at st = RFinished \<longrightarrow> exiting st" "recv_at st = RAbsent \<longleftrightarrow> cmain_at st = CLaunching"
    using ok by (simp_all add: client_ok_def)
  show ?thesis
  proof (cases "recv_at st")
    case RReceiving
    obtain go w where p: "client_receiver_packet (cli st) (cenv st) = (go, w)" by force
    with RReceiving run recv core_quiet [OF core keeps_receiver_packet [OF p]] show ?thesis
      by (auto simp: client_receiver_turn_def client_ok_def split: if_splits)
  next
    case (RDropping pc)
    obtain pc' st1 where d: "drop_turn pc st = (pc', st1)" by force
    note * = core_drop_turn [OF core d]
    from run RDropping d have "st' = st1\<lparr>recv_at := case pc' of Some p \<Rightarrow> RDropping p | None \<Rightarrow> RFlagging\<rparr>"
      by (simp add: client_receiver_turn_def split: option.splits)
    then show ?thesis
      using RDropping recv * drop_turn_frame [OF d] by (simp add: client_ok_def split: option.split)
  qed (use run recv core in \<open>auto simp: client_receiver_turn_def client_ok_def split: if_splits\<close>)
qed

lemma ok_sender:
  assumes ok: "client_ok S c0 w0 st" and run: "client_send_turn S Z ready st = Some st'"
  shows "client_ok S c0 w0 st'"
proof -
  have core: "client_core S c0 w0 (cli st) (cenv st) (send_at st) (cudp_at st) (csealed st)"
    and recv: "recv_at st = RFinished \<longrightarrow> exiting st" "recv_at st = RAbsent \<longleftrightarrow> cmain_at st = CLaunching"
    using ok by (simp_all add: client_ok_def)
  note moves = core_move(1) [OF core] core_leave(1) [OF core]
  show ?thesis
  proof (cases "send_at st")
    case Spawned
    obtain go w where "client_tun_sender_start (cenv st) = (go, w)" by force
    with Spawned run recv core_start(1) [OF core, of go w] show ?thesis
      by (auto simp: client_send_turn_def client_ok_def)
  next
    case Handling
    obtain c w where p: "client_tun_sender_packet S Z (cli st) (cenv st) = (c, w)" by force
    from core_packet [OF core [unfolded Handling] p] Handling run recv p show ?thesis
      by (auto simp: client_send_turn_def client_ok_def)
  qed (use run recv moves in \<open>auto simp: client_send_turn_def client_ok_def tunnel_blocks_def split: if_splits\<close>)
qed

lemma ok_udp_receiver:
  assumes ok: "client_ok S c0 w0 st" and run: "client_udp_turn S Z ready st = Some st'"
  shows "client_ok S c0 w0 st'"
proof -
  have core: "client_core S c0 w0 (cli st) (cenv st) (send_at st) (cudp_at st) (csealed st)"
    and recv: "recv_at st = RFinished \<longrightarrow> exiting st" "recv_at st = RAbsent \<longleftrightarrow> cmain_at st = CLaunching"
    using ok by (simp_all add: client_ok_def)
  note moves = core_move(2) [OF core] core_leave(2) [OF core]
  show ?thesis
  proof (cases "cudp_at st")
    case Spawned
    obtain go w where "client_udp_receiver_start (cenv st) = (go, w)" by force
    with Spawned run recv core_start(2) [OF core, of go w] show ?thesis
      by (auto simp: client_udp_turn_def client_ok_def)
  next
    case Handling
    let ?w = "client_udp_receiver_datagram S Z (cli st) (cenv st)"
    have "client_core S c0 w0 (cli st) ?w (send_at st) (cudp_at st) (csealed st)"
      using core_quiet [OF core] keeps_udp_datagram by blast
    from core_move(2) [OF this, of Testing] Handling run recv show ?thesis
      by (auto simp: client_udp_turn_def client_ok_def tunnel_blocks_def)
  qed (use run recv moves in \<open>auto simp: client_udp_turn_def client_ok_def tunnel_blocks_def split: if_splits\<close>)
qed

lemma client_ok_step:
  assumes "client_step S Z a st st'" and "client_ok S c0 w0 st"
  shows "client_ok S c0 w0 st'"
  using assms
proof (cases rule: client_step.cases)
  case (environment w)
  then have "client_core S c0 w0 (cli st) w (send_at st) (cudp_at st) (csealed st)"
    using assms(2) keeps_input [OF environment(3), of "client_fds c0"] by (auto simp: client_ok_def intro: core_quiet)
  with environment assms(2) show ?thesis by (simp add: client_ok_def)
qed (use assms(2) in \<open>auto intro: ok_main ok_receiver ok_sender ok_udp_receiver\<close>)

lemma client_ok_initial:
  assumes "client_up c w"
  shows "client_ok S c w (client_initial c w)"
proof -
  have "phase_ok S (cl_session c) (cl_session c) Spawned []"
    using phase_ok.living [of S "cl_session c" "[]" Spawned] by (simp add: live_session_def)
  then show ?thesis
    using assms by (simp add: client_ok_def client_core_def client_initial_def tunnel_blocks_def client_up_def)
qed

lemma client_ok_run:
  assumes "client_run S Z (client_initial c w) st" and "client_up c w"
  shows "client_ok S c w st"
  using assms(1) by induction (auto intro: client_ok_initial [OF assms(2)] client_ok_step)

end
