(* ===== verification/ClientEnds.thy ===== *)
theory ClientEnds
  imports ClientSafety Progress
begin

text \<open>
  The client as a system that makes progress: once its session is gone or the exit flag is
  set, every execution that is fair to the main and the receiving thread comes to the end of
  the program.
\<close>

section \<open>How the client ends\<close>

text \<open>
  The most turns the main thread still takes once the exit flag is set, and the most turns
  the receiving thread takes until it has set the flag, once the session is gone.
\<close>

definition drop_rank :: "drop_pc \<Rightarrow> nat" where
  "drop_rank pc = (case pc of Destroying \<Rightarrow> 3 | Unsetting \<Rightarrow> 2 | Disconnecting_Connection \<Rightarrow> 1)"

definition main_rank :: "client_main_pc \<Rightarrow> nat" where
  "main_rank pc =
     (case pc of
        CEnded \<Rightarrow> 0 | CEnding \<Rightarrow> 1 | CAfter \<Rightarrow> 2 | CAtHead \<Rightarrow> 2 | CInSelect \<Rightarrow> 2 | CLaunching \<Rightarrow> 3
      | CDropping d \<Rightarrow> 2 + drop_rank d | CCommand input \<Rightarrow> 6)"

definition receiver_rank :: "receiver_pc \<Rightarrow> nat" where
  "receiver_rank pc =
     (case pc of
        RFinished \<Rightarrow> 0 | RFlagging \<Rightarrow> 1 | RDropping d \<Rightarrow> 1 + drop_rank d | RChecking \<Rightarrow> 2 | RAtHead \<Rightarrow> 3 | RAbsent \<Rightarrow> 4
      | RReceiving \<Rightarrow> 4)"

lemma ranks_bound: "main_rank pc \<le> 6" "receiver_rank pc' \<le> 4"
  by (cases pc; simp add: main_rank_def drop_rank_def split: drop_pc.split)
    (cases pc'; simp add: receiver_rank_def drop_rank_def split: drop_pc.split)

lemma drop_turn_rank:
  assumes "drop_turn pc st = (r, st')"
  shows "case r of Some pc' \<Rightarrow> drop_rank pc = Suc (drop_rank pc') | None \<Rightarrow> drop_rank pc = 1"
    "\<not> established (cli st) \<Longrightarrow> \<not> established (cli st')"
  using assms by (cases pc; auto simp: drop_turn_def drop_rank_def established_def destroyed_session split: prod.splits)+

lemma main_turn_exiting:
  assumes run: "client_main_turn ready st = Some st'" and "exiting st"
  shows "main_rank (cmain_at st') < main_rank (cmain_at st)" "exiting st'"
proof -
  have "main_rank (cmain_at st') < main_rank (cmain_at st) \<and> exiting st'"
  proof (cases "cmain_at st")
    case (CCommand input)
    with assms show ?thesis
      by (auto simp: client_main_turn_def client_command_turn_def main_rank_def drop_rank_def
          split: option.splits client_command_func.splits if_splits)
  next
    case (CDropping pc)
    obtain r st1 where d: "drop_turn pc st = (r, st1)" by force
    from drop_turn_rank(1) [OF d] drop_turn_frame(1) [OF d] CDropping run d assms(2) show ?thesis
      by (cases r) (auto simp: client_main_turn_def main_rank_def)
  qed (use assms in \<open>auto simp: client_main_turn_def main_rank_def split: prod.splits\<close>)
  then show "main_rank (cmain_at st') < main_rank (cmain_at st)" "exiting st'" by simp_all
qed

lemma receiver_turn_down:
  assumes run: "client_receiver_turn st = Some st'" and "\<not> established (cli st)"
  shows "receiver_rank (recv_at st') < receiver_rank (recv_at st)"
proof (cases "recv_at st")
  case (RDropping pc)
  obtain r st1 where d: "drop_turn pc st = (r, st1)" by force
  from drop_turn_rank(1) [OF d] RDropping run d show ?thesis
    by (cases r) (auto simp: client_receiver_turn_def receiver_rank_def)
qed (use assms in \<open>auto simp: client_receiver_turn_def receiver_rank_def split: prod.splits if_splits\<close>)

text \<open>The other threads leave the rank of the main thread alone, and nobody brings a session back.\<close>

lemma packet_turns_frame:
  "client_send_turn S Z ready st = Some st' \<Longrightarrow>
     cmain_at st' = cmain_at st \<and> recv_at st' = recv_at st \<and> exiting st' = exiting st \<and>
     established (cli st') = established (cli st)"
  "client_udp_turn S Z ready st = Some st' \<Longrightarrow>
     cmain_at st' = cmain_at st \<and> recv_at st' = recv_at st \<and> exiting st' = exiting st \<and> cli st' = cli st"
proof -
  show "cmain_at st' = cmain_at st \<and> recv_at st' = recv_at st \<and> exiting st' = exiting st \<and>
     established (cli st') = established (cli st)" if run: "client_send_turn S Z ready st = Some st'"
  proof (cases "send_at st")
    case Handling
    obtain c w where p: "client_tun_sender_packet S Z (cli st) (cenv st) = (c, w)" by force
    have "established c = established (cli st)"
      using client_packet_result(2) [OF p] by (auto simp: established_def advance_def)
    with run Handling p show ?thesis by (auto simp: client_send_turn_def)
  qed (use run in \<open>auto simp: client_send_turn_def split: prod.splits if_splits\<close>)
  show "cmain_at st' = cmain_at st \<and> recv_at st' = recv_at st \<and> exiting st' = exiting st \<and> cli st' = cli st"
    if "client_udp_turn S Z ready st = Some st'"
    using that by (cases "cudp_at st") (auto simp: client_udp_turn_def split: prod.splits if_splits)
qed

lemma main_turn_frame:
  assumes run: "client_main_turn ready st = Some st'"
  shows "\<not> established (cli st) \<Longrightarrow> \<not> established (cli st')"
    "recv_at st' = (if cmain_at st = CLaunching then RAtHead else recv_at st)" "cmain_at st' \<noteq> CLaunching"
proof -
  have "(\<not> established (cli st) \<longrightarrow> \<not> established (cli st')) \<and>
    recv_at st' = (if cmain_at st = CLaunching then RAtHead else recv_at st) \<and> cmain_at st' \<noteq> CLaunching"
  proof (cases "cmain_at st")
    case (CDropping pc)
    obtain r st1 where d: "drop_turn pc st = (r, st1)" by force
    from drop_turn_rank(2) [OF d] drop_turn_frame [OF d] CDropping run d show ?thesis
      by (cases r) (auto simp: client_main_turn_def)
  next
    case CEnding
    obtain c w where e: "client_environment_end (cli st) (cenv st) = (c, w)" by force
    have "cl_session c = cl_session (cli st)" using keeps_environment_end(3) [OF e, of UNIV] by simp
    with e CEnding run show ?thesis by (auto simp: client_main_turn_def established_def)
  qed (use run in \<open>auto simp: client_main_turn_def client_command_turn_def
        split: prod.splits if_splits option.splits client_command_func.splits\<close>)
  then show "\<not> established (cli st) \<Longrightarrow> \<not> established (cli st')"
    "recv_at st' = (if cmain_at st = CLaunching then RAtHead else recv_at st)" "cmain_at st' \<noteq> CLaunching" by simp_all
qed

lemma receiver_turn_established:
  assumes run: "client_receiver_turn st = Some st'"
  shows "\<not> established (cli st) \<Longrightarrow> \<not> established (cli st')" "exiting st \<Longrightarrow> exiting st'" "cmain_at st' = cmain_at st"
proof -
  have "(\<not> established (cli st) \<longrightarrow> \<not> established (cli st')) \<and> (exiting st \<longrightarrow> exiting st') \<and> cmain_at st' = cmain_at st"
  proof (cases "recv_at st")
    case (RDropping pc)
    obtain r st1 where d: "drop_turn pc st = (r, st1)" by force
    from drop_turn_rank(2) [OF d] drop_turn_frame [OF d] RDropping run d show ?thesis
      by (cases r) (auto simp: client_receiver_turn_def)
  qed (use run in \<open>auto simp: client_receiver_turn_def split: prod.splits if_splits\<close>)
  then show "\<not> established (cli st) \<Longrightarrow> \<not> established (cli st')" "exiting st \<Longrightarrow> exiting st'" "cmain_at st' = cmain_at st"
    by simp_all
qed

lemma step_exiting:
  assumes "client_step S Z a st st'" and "exiting st"
  shows "exiting st'" "(if a = Client_Main then 1 else 0) + main_rank (cmain_at st') \<le> main_rank (cmain_at st)"
  using assms main_turn_exiting receiver_turn_established(2,3) packet_turns_frame
  by (cases; fastforce)+

lemma step_down:
  assumes "client_step S Z a st st'" and "\<not> established (cli st)" and "recv_at st = RAbsent \<longleftrightarrow> cmain_at st = CLaunching"
  shows "\<not> established (cli st')"
    "(if a = Client_Receiver then 1 else 0) + receiver_rank (recv_at st') \<le> receiver_rank (recv_at st)"
proof -
  have "receiver_rank RAtHead \<le> receiver_rank RAbsent" by (simp add: receiver_rank_def)
  with assms main_turn_frame receiver_turn_established(1) receiver_turn_down packet_turns_frame
  show "\<not> established (cli st')"
    "(if a = Client_Receiver then 1 else 0) + receiver_rank (recv_at st') \<le> receiver_rank (recv_at st)"
    by (cases; fastforce)+
qed

text \<open>Runs are paths, and what a path does to the ranks.\<close>

lemma client_run_path: "client_run S Z st0 st \<Longrightarrow> \<exists>as. path (client_step S Z) st0 as st"
  by (induction rule: client_run.induct) (blast intro: path_here path_step)+

lemma client_path_run: "path (client_step S Z) st as st' \<Longrightarrow> client_run S Z st0 st \<Longrightarrow> client_run S Z st0 st'"
  by (induction rule: path.induct) (blast intro: client_run.step)+

lemma path_exiting:
  "path (client_step S Z) st as st' \<Longrightarrow> exiting st \<Longrightarrow>
     exiting st' \<and> count_list as Client_Main + main_rank (cmain_at st') \<le> main_rank (cmain_at st)"
  by (induction rule: path.induct) (auto dest: step_exiting split: if_splits)

lemma path_down:
  assumes "path (client_step S Z) st as st'" and "\<not> established (cli st)" and "client_ok S c w st"
  shows "\<not> established (cli st') \<and>
    count_list as Client_Receiver + receiver_rank (recv_at st') \<le> receiver_rank (recv_at st)"
proof -
  have "client_ok S c w st' \<and> \<not> established (cli st') \<and>
    count_list as Client_Receiver + receiver_rank (recv_at st') \<le> receiver_rank (recv_at st)"
    using assms(1)
  proof induction
    case (path_step as st1 a st2)
    then have "recv_at st1 = RAbsent \<longleftrightarrow> cmain_at st1 = CLaunching" by (simp add: client_ok_def)
    with step_down [OF path_step(2) _ this] client_ok_step [OF path_step(2)] path_step.IH show ?case
      by (auto split: if_splits)
  qed (use assms(2,3) in simp)
  then show ?thesis by simp
qed

lemma turns_enabled:
  "cmain_at st \<noteq> CEnded \<Longrightarrow> \<exists>st'. client_main_turn ready st = Some st'"
  "recv_at st = RDropping pc \<or> recv_at st = RFlagging \<Longrightarrow> \<exists>st'. client_receiver_turn st = Some st'"
  by (cases "cmain_at st"; simp add: client_main_turn_def) (auto simp: client_receiver_turn_def)

section \<open>The end makes progress\<close>

definition client_ending :: "client_state \<Rightarrow> bool" where
  "client_ending st \<longleftrightarrow> exiting st \<or> \<not> established (cli st)"

text \<open>
  The receiving thread is about to set the flag when it is past its last look at the session,
  whatever it has found there. Before that it may wait in a read for ever.
\<close>

definition about_to_flag :: "receiver_pc \<Rightarrow> bool" where
  "about_to_flag pc \<longleftrightarrow> (case pc of RDropping d \<Rightarrow> True | RFlagging \<Rightarrow> True | _ \<Rightarrow> False)"

definition main_drops :: "client_main_pc \<Rightarrow> bool" where
  "main_drops pc \<longleftrightarrow> pc = CDropping Unsetting \<or> pc = CDropping Disconnecting_Connection"

text \<open>
  Who has destroyed the session sets the flag: a session that is gone is one that the receiving
  thread or the main thread is dropping, until the flag is set.
\<close>

definition flag_follows :: "client_state \<Rightarrow> bool" where
  "flag_follows st \<longleftrightarrow>
     (established (cli st) \<or> exiting st \<or> about_to_flag (recv_at st) \<or> main_drops (cmain_at st)) \<and>
     (cmain_at st = CLaunching \<longrightarrow> recv_at st = RAbsent)"

text \<open>The thread that is awaited is the one that sets the flag; afterwards it is the main thread.\<close>

definition client_awaited :: "client_state \<Rightarrow> client_actor" where
  "client_awaited st = (if \<not> exiting st \<and> about_to_flag (recv_at st) then Client_Receiver else Client_Main)"

definition client_rank :: "client_state \<Rightarrow> nat" where
  "client_rank st =
     (if exiting st then main_rank (cmain_at st)
      else if about_to_flag (recv_at st) then 7 + receiver_rank (recv_at st)
      else 9 + main_rank (cmain_at st))"

definition client_threads :: "client_actor set" where
  "client_threads = {Client_Main, Client_Receiver, Client_Sender, Client_Udp_Receiver}"

lemma client_rank_bound: "flag_follows st \<Longrightarrow> \<not> established (cli st) \<or> exiting st \<Longrightarrow> client_rank st \<le> 13"
  using ranks_bound(1) [of "cmain_at st"] ranks_bound(2) [of "recv_at st"]
  by (auto simp: client_rank_def flag_follows_def main_drops_def main_rank_def drop_rank_def)

text \<open>What the turns do to a session that is there, and to one that is not.\<close>

lemma drop_turn_flag:
  assumes "drop_turn pc st = (r, st')"
  shows "exiting st' = exiting st" "established (cli st) \<Longrightarrow> \<not> established (cli st') \<Longrightarrow> r = Some Unsetting"
    "r = None \<longleftrightarrow> pc = Disconnecting_Connection" "r = Some Destroying \<Longrightarrow> False"
  using assms by (cases pc; auto simp: drop_turn_def established_def split: prod.splits)+

lemma main_turn_flag:
  assumes run: "client_main_turn ready st = Some st'" and "flag_follows st"
  shows "flag_follows st'"
    "\<not> exiting st \<Longrightarrow> main_drops (cmain_at st) \<Longrightarrow>
       exiting st' \<or> (main_drops (cmain_at st') \<and> main_rank (cmain_at st') < main_rank (cmain_at st))"
proof -
  have "flag_follows st' \<and> (\<not> exiting st \<longrightarrow> main_drops (cmain_at st) \<longrightarrow>
       exiting st' \<or> (main_drops (cmain_at st') \<and> main_rank (cmain_at st') < main_rank (cmain_at st)))"
  proof (cases "cmain_at st")
    case (CDropping pc)
    obtain r st1 where d: "drop_turn pc st = (r, st1)" by force
    note t = drop_turn_flag [OF d] drop_turn_frame [OF d] drop_turn_rank(1) [OF d] drop_turn_rank(2) [OF d]
    show ?thesis
    proof (cases r)
      case None
      with CDropping run d show ?thesis by (auto simp: client_main_turn_def flag_follows_def)
    next
      case (Some pc')
      then have "pc' \<noteq> Destroying" using t(4) by blast
      then have "main_drops (CDropping pc')" by (cases pc') (simp_all add: main_drops_def)
      with CDropping run d Some t show ?thesis by (auto simp: client_main_turn_def flag_follows_def main_rank_def)
    qed
  next
    case CEnding
    obtain c w where e: "client_environment_end (cli st) (cenv st) = (c, w)" by force
    have "cl_session c = cl_session (cli st)" using keeps_environment_end(3) [OF e, of UNIV] by simp
    with e CEnding run assms(2) show ?thesis
      by (auto simp: client_main_turn_def established_def flag_follows_def main_drops_def)
  qed (use run assms(2) in \<open>auto simp: client_main_turn_def client_command_turn_def flag_follows_def main_drops_def
        about_to_flag_def split: prod.splits if_splits option.splits client_command_func.splits\<close>)
  then show "flag_follows st'"
    "\<not> exiting st \<Longrightarrow> main_drops (cmain_at st) \<Longrightarrow>
       exiting st' \<or> (main_drops (cmain_at st') \<and> main_rank (cmain_at st') < main_rank (cmain_at st))"
    by blast+
qed

lemma receiver_turn_flag:
  assumes run: "client_receiver_turn st = Some st'" and "flag_follows st"
  shows "flag_follows st'"
    "about_to_flag (recv_at st) \<Longrightarrow> exiting st' \<or>
       (about_to_flag (recv_at st') \<and> receiver_rank (recv_at st') < receiver_rank (recv_at st))"
proof -
  have "flag_follows st' \<and> (about_to_flag (recv_at st) \<longrightarrow> exiting st' \<or>
       (about_to_flag (recv_at st') \<and> receiver_rank (recv_at st') < receiver_rank (recv_at st)))"
  proof (cases "recv_at st")
    case (RDropping pc)
    obtain r st1 where d: "drop_turn pc st = (r, st1)" by force
    note t = drop_turn_rank(1) [OF d] drop_turn_frame [OF d]
    from RDropping run d t assms(2) show ?thesis
      by (cases r) (auto simp: client_receiver_turn_def flag_follows_def about_to_flag_def receiver_rank_def)
  qed (use run assms(2) in \<open>auto simp: client_receiver_turn_def flag_follows_def about_to_flag_def
        split: prod.splits if_splits\<close>)
  then show "flag_follows st'"
    "about_to_flag (recv_at st) \<Longrightarrow> exiting st' \<or>
       (about_to_flag (recv_at st') \<and> receiver_rank (recv_at st') < receiver_rank (recv_at st))"
    by blast+
qed

lemma flag_follows_step:
  assumes step: "client_step S Z a st st'" and "flag_follows st"
  shows "flag_follows st'"
  using step
proof cases
  case (main ready)
  show ?thesis by (rule main_turn_flag(1) [OF main(2) assms(2)])
next
  case receiver
  show ?thesis by (rule receiver_turn_flag(1) [OF receiver(3) assms(2)])
next
  case (sender ready)
  with packet_turns_frame(1) [OF sender(3)] assms(2) show ?thesis by (simp add: flag_follows_def)
next
  case (udp_receiver ready)
  with packet_turns_frame(2) [OF udp_receiver(3)] assms(2) show ?thesis by (simp add: flag_follows_def)
qed (use assms(2) in \<open>simp add: flag_follows_def\<close>)

text \<open>What a step does to the rank and to the thread that is awaited.\<close>

lemma ending_step:
  assumes step: "client_step S Z a st st'" and fl: "flag_follows st" and e: "client_ending st"
  shows "client_ending st'" "a = client_awaited st \<Longrightarrow> client_rank st' < client_rank st"
    "client_rank st' < client_rank st \<or> (client_rank st' = client_rank st \<and> client_awaited st' = client_awaited st)"
proof -
  have flag: "main_rank pc < 7 + n" "main_rank pc < 9 + n" for pc n using ranks_bound(1) [of pc] by simp_all
  have drops: "7 + receiver_rank pc' < 9 + main_rank pc" if "main_drops pc" for pc pc'
    using that ranks_bound(2) [of pc'] by (auto simp: main_drops_def main_rank_def drop_rank_def)
  have *: "client_ending st' \<and> (a = client_awaited st \<longrightarrow> client_rank st' < client_rank st) \<and>
    (client_rank st' < client_rank st \<or> (client_rank st' = client_rank st \<and> client_awaited st' = client_awaited st))"
    using step
  proof cases
    case (main ready)
    note fr = main_turn_frame [OF main(2)] and fl' = main_turn_flag [OF main(2) fl]
    show ?thesis
    proof (cases "exiting st")
      case True
      with main_turn_exiting [OF main(2) True] main(1) show ?thesis
        by (simp add: client_ending_def client_awaited_def client_rank_def)
    next
      case False
      then have gone: "\<not> established (cli st)" using e by (simp add: client_ending_def)
      then have e': "client_ending st'" using fr(1) by (simp add: client_ending_def)
      show ?thesis
      proof (cases "exiting st'")
        case True
        with False main(1) e' flag show ?thesis
          by (auto simp: client_awaited_def client_rank_def trans_less_add1)
      next
        case not: False
        show ?thesis
        proof (cases "about_to_flag (recv_at st)")
          case True
          then have "recv_at st \<noteq> RAbsent" by (auto simp: about_to_flag_def)
          then have "recv_at st' = recv_at st" using fr(2) fl by (auto simp: flag_follows_def)
          with True False not main(1) e' show ?thesis by (simp add: client_awaited_def client_rank_def)
        next
          case no: False
          then have md: "main_drops (cmain_at st)" using fl False gone by (simp add: flag_follows_def)
          then have "cmain_at st \<noteq> CLaunching" by (auto simp: main_drops_def)
          then have "recv_at st' = recv_at st" using fr(2) by simp
          with fl'(2) [OF False md] no False not main(1) e' show ?thesis
            by (simp add: client_awaited_def client_rank_def)
        qed
      qed
    qed
  next
    case receiver
    note fr = receiver_turn_established [OF receiver(3)] and fl' = receiver_turn_flag [OF receiver(3) fl]
    have e': "client_ending st'" using fr e by (auto simp: client_ending_def)
    show ?thesis
    proof (cases "exiting st")
      case True
      with fr(2,3) receiver(1) e' show ?thesis by (simp add: client_awaited_def client_rank_def)
    next
      case False
      then have gone: "\<not> established (cli st)" using e by (simp add: client_ending_def)
      show ?thesis
      proof (cases "about_to_flag (recv_at st)")
        case True
        with fl'(2) [OF True] False flag receiver(1) e' show ?thesis
          by (auto simp: client_awaited_def client_rank_def fr(3) trans_less_add1)
      next
        case no: False
        then have md: "main_drops (cmain_at st)" using fl False gone by (simp add: flag_follows_def)
        with no False flag drops fr(3) receiver(1) e' show ?thesis
          by (cases "exiting st'"; cases "about_to_flag (recv_at st')")
            (simp_all add: client_awaited_def client_rank_def trans_less_add1)
      qed
    qed
  next
    case (sender ready)
    with packet_turns_frame(1) [OF sender(3)] e show ?thesis
      by (simp add: client_ending_def client_awaited_def client_rank_def)
  next
    case (udp_receiver ready)
    with packet_turns_frame(2) [OF udp_receiver(3)] e show ?thesis
      by (simp add: client_ending_def client_awaited_def client_rank_def)
  next
    case (environment w)
    with e show ?thesis by (simp add: client_ending_def client_awaited_def client_rank_def)
  qed
  then show "client_ending st'" "a = client_awaited st \<Longrightarrow> client_rank st' < client_rank st"
    "client_rank st' < client_rank st \<or> (client_rank st' = client_rank st \<and> client_awaited st' = client_awaited st)"
    by blast+
qed

lemma client_ended_stays: "client_step S Z a st st' \<Longrightarrow> cmain_at st = CEnded \<Longrightarrow> cmain_at st' = CEnded"
  by (cases rule: client_step.cases) (auto simp: client_main_turn_def)

lemma client_awaited_enabled:
  assumes "cmain_at st \<noteq> CEnded"
  shows "\<exists>st'. client_step S Z (client_awaited st) st st'"
proof (cases "\<not> exiting st \<and> about_to_flag (recv_at st)")
  case True
  then obtain pc where "recv_at st = RDropping pc \<or> recv_at st = RFlagging"
    by (auto simp: about_to_flag_def split: receiver_pc.splits)
  from turns_enabled(2) [OF this] True assms show ?thesis by (auto simp: client_awaited_def intro: client_step.receiver)
next
  case False
  with turns_enabled(1) [OF assms, of 0] show ?thesis by (auto simp: client_awaited_def intro: client_step.main)
qed

text \<open>The invariant of the client is kept along paths and executions.\<close>

interpretation client_keeps: invariant_kept "client_step S Z" "\<lambda>st. client_ok S c w st \<and> flag_follows st" for S Z c w
  by unfold_locales (blast intro: client_ok_step flag_follows_step)

lemma client_run_flag:
  "client_run S Z (client_initial c w) st \<Longrightarrow> client_up c w \<Longrightarrow> flag_follows st"
proof (induction rule: client_run.induct)
  case start
  then show ?case by (simp add: flag_follows_def client_initial_def client_up_def tunnel_up_def)
qed (blast intro: flag_follows_step)

text \<open>No wait has to end for it: the thread that is awaited is never in a read.\<close>

interpretation ending: progress "client_step S Z" "\<lambda>st. flag_follows st \<and> client_ending st"
  "\<lambda>st. cmain_at st = CEnded" client_rank client_awaited "\<lambda>_. False" client_threads for S Z
proof
  show "client_awaited st \<in> client_threads" for st by (simp add: client_awaited_def client_threads_def)
qed (auto intro: flag_follows_step client_awaited_enabled client_ended_stays dest: ending_step)

lemma client_ended_rests:
  assumes "cmain_at st = CEnded" and "a \<in> client_threads"
  shows "\<nexists>st'. client_step S Z a st st'"
proof
  assume "\<exists>st'. client_step S Z a st st'"
  then obtain st' where step: "client_step S Z a st st'" by blast
  from step assms show False by (cases rule: client_step.cases) (auto simp: client_main_turn_def client_threads_def)
qed

lemma client_idles: "client_step S Z Client_Environment st st"
  using client_step.environment [of st "cenv st" S Z] by (simp add: input_change_def)

lemma client_fair_execution:
  assumes "flag_follows st" and "client_ending st"
  shows "\<exists>actor state. fair_execution (client_step S Z) client_threads actor state \<and> state 0 = st"
proof -
  obtain as st' where p: "path (client_step S Z) st as st'" "cmain_at st' = CEnded"
    using ending.can_finish [of st S Z] assms by blast
  from fair_execution_exists [OF p(1) client_idles client_ended_rests [OF p(2)]] show ?thesis by blast
qed

lemma client_fair_end:
  assumes "flag_follows st" and "client_ending st"
    and "fair_execution (client_step S Z) client_threads actor state" and "state 0 = st"
  shows "\<exists>n. \<forall>m\<ge>n. cmain_at (state m) = CEnded"
proof -
  have "never_lasting (\<lambda>_. False) state" by (auto simp: never_lasting_def)
  from ending.fair_finishes [OF assms(3) this, of 0] assms(1,2,4) show ?thesis by auto
qed

end
