(* ===== verification/ClientRuns.thy ===== *)
theory ClientRuns
  imports ClientAlone ClientEnds ClientGuarantees ServerStart
begin

text \<open>
  The properties of the client's threads in every interleaving: what they may touch, what
  the sender encrypts under which key and counter, how the client ends, and what two of them
  do to each other when the session is destroyed.
\<close>

section \<open>What the threads touch\<close>

text \<open>
  C13. Whatever the order of the steps of its threads, a client that was up never closes a
  descriptor other than the two of its session and 0, opens none, keeps its TUN device, and
  at every moment the blocks it holds are the three buffers of each packet thread that runs.
\<close>

theorem client_threads_frame:
  assumes "client_run S Z (client_initial c w) st" and "client_up c w"
  shows "set (closed (cenv st)) \<subseteq> set (closed w) \<union> {sess_socket (cl_session c), udp_socket (udp (cl_session c)), 0} \<and>
    set (bad_closes (cenv st)) \<subseteq> set (bad_closes w) \<union> {sess_socket (cl_session c), udp_socket (udp (cl_session c)), 0} \<and>
    open_fds (cenv st) \<subseteq> open_fds w \<and>
    open_fds w - open_fds (cenv st) \<subseteq> {sess_socket (cl_session c), udp_socket (udp (cl_session c)), 0} \<and>
    cl_tun (cli st) = cl_tun c \<and>
    leaked (cenv st) = leaked w + tunnel_blocks (send_at st) + tunnel_blocks (cudp_at st)"
proof -
  have core: "keeps (client_fds c) (w\<lparr>heap := heap w + (tunnel_blocks (send_at st) + tunnel_blocks (cudp_at st))\<rparr>) (cenv st)"
    and tun: "cl_tun (cli st) = cl_tun c"
    using client_ok_run [OF assms] by (simp_all add: client_ok_def client_core_def)
  note k = keepsD [OF core, simplified]
  have "leaked (w\<lparr>heap := heap w + j\<rparr>) = leaked w + j" for j by (simp add: leaked_def log_lines_def)
  with k(5) have l: "leaked (cenv st) = leaked w + (tunnel_blocks (send_at st) + tunnel_blocks (cudp_at st))" by simp
  have open1: "open_fds (cenv st) \<subseteq> open_fds w"
  proof
    show "fd \<in> open_fds w" if "fd \<in> open_fds (cenv st)" for fd
      using k(2) [of fd] that by (cases "socks w fd") (simp_all add: open_fds_def)
  qed
  have open2: "open_fds w - open_fds (cenv st) \<subseteq> client_fds c"
  proof
    show "fd \<in> client_fds c" if "fd \<in> open_fds w - open_fds (cenv st)" for fd
      using k(1) [of fd] that by (cases "fd \<in> client_fds c") (auto simp: open_fds_def)
  qed
  have close: "set (closed (cenv st)) \<subseteq> set (closed w) \<union> client_fds c"
      "set (bad_closes (cenv st)) \<subseteq> set (bad_closes w) \<union> client_fds c"
    by (rule k)+
  show ?thesis
    unfolding client_fds_def [symmetric] add.assoc by (intro conjI close open1 open2 tun l)
qed

section \<open>What the sender encrypts\<close>

text \<open>
  C8. In every interleaving the sender numbers the packets of a session from the counter it
  starts with, one by one, under the session's key and on its UDP socket, so that no counter
  is used twice until 2 ^ 64 of them are used up; after the session was destroyed at most one
  more packet is encrypted, under the key and counter 0 of the zeroed session, and handed to
  descriptor 0. What the tunnel sends is exactly what was encrypted.
\<close>

theorem client_no_nonce_reuse:
  assumes "client_run S Z (client_initial c w) st" and "client_up c w"
  shows "\<exists>live late. csealed st = live @ late \<and>
    map (fst \<circ> snd) live = map (\<lambda>i. tx_nonce (crypto (cl_session c)) + of_nat i) [0..<length live] \<and>
    (length live \<le> 2 ^ 64 \<longrightarrow> distinct (map (fst \<circ> snd) live)) \<and>
    (\<forall>e \<in> set live. sealed_under S (cl_session c) e) \<and>
    length late \<le> 1 \<and> (late \<noteq> [] \<longrightarrow> \<not> established (cli st)) \<and>
    (\<forall>e \<in> set late. fst e = zeros CRYPTO_SESSION_KEY_SIZE \<and> fst (snd e) = 0 \<and>
       (\<forall>x. snd (snd e) = Some x \<longrightarrow> fst x = 0)) \<and>
    udp_out (cenv st) = udp_out w @ List.map_filter (snd \<circ> snd) (csealed st)"
proof -
  have phase: "phase_ok S (cl_session c) (cl_session (cli st)) (send_at st) (csealed st)"
    and out: "udp_out (cenv st) = udp_out w @ List.map_filter (snd \<circ> snd) (csealed st)"
    using client_ok_run [OF assms] by (simp_all add: client_ok_def client_core_def)
  have counters: "k \<le> 2 ^ 64 \<longrightarrow> distinct (map (\<lambda>i. n + of_nat i :: u64) [0..<k])" for n k
  proof
    assume k: "k \<le> 2 ^ 64"
    have "unat (n + of_nat i - n) = i" if "i \<in> set [0..<k]" for i
      using that k by (simp add: unat_of_nat_small)
    then have "inj_on (\<lambda>i. n + of_nat i) (set [0..<k])" by (rule inj_on_inverseI [of _ "\<lambda>x. unat (x - n)"])
    then show "distinct (map (\<lambda>i. n + of_nat i :: u64) [0..<k])" by (simp add: distinct_map)
  qed
  from phase obtain live late where l: "csealed st = live @ late" "live_packets S (cl_session c) live"
      "dead_packets S late" "late \<noteq> [] \<longrightarrow> \<not> established (cli st)"
    by (cases; force simp: established_def)
  have "fst e = zeros CRYPTO_SESSION_KEY_SIZE \<and> fst (snd e) = 0 \<and> (\<forall>x. snd (snd e) = Some x \<longrightarrow> fst x = 0)"
    if "e \<in> set late" for e
    using that l(3) by (auto simp: dead_packets_def sealed_under_def)
  with l out counters show ?thesis unfolding live_packets_def dead_packets_def by metis
qed

section \<open>How the client ends\<close>

text \<open>
  C11. The client ends: from every state in which its session is gone or its exit flag set,
  every execution that is weakly fair to its four threads, whatever the environment does,
  comes to the end of the program and stays there; such executions exist. On the way the
  receiving thread takes at most four more turns until it has set the flag, a session that is
  gone does not come back, once the flag is set the main thread takes at most six more turns
  to its end, and the thread that is awaited can always take the next one: the flag is set by
  whoever has destroyed the session, and the receiving thread is not awaited while it may
  wait in a read.
\<close>

theorem client_exit_progress:
  assumes "client_run S Z (client_initial c w) st" and "client_up c w" and "exiting st \<or> \<not> established (cli st)"
  shows "(\<forall>actor state. fair_execution (client_step S Z) client_threads actor state \<and> state 0 = st \<longrightarrow>
      (\<exists>n. \<forall>k\<ge>n. cmain_at (state k) = CEnded)) \<and>
    (\<exists>actor state. fair_execution (client_step S Z) client_threads actor state \<and> state 0 = st) \<and>
    (\<forall>as st'. path (client_step S Z) st as st' \<longrightarrow>
      (cmain_at st' = CEnded \<or> (\<exists>st''. client_step S Z (client_awaited st') st' st'')) \<and>
      (exiting st \<longrightarrow> exiting st' \<and> count_list as Client_Main + main_rank (cmain_at st') \<le> 6 \<and>
         (main_rank (cmain_at st') = 0 \<longleftrightarrow> cmain_at st' = CEnded)) \<and>
      (\<not> established (cli st) \<longrightarrow> \<not> established (cli st') \<and>
         count_list as Client_Receiver + receiver_rank (recv_at st') \<le> 4))"
proof -
  have ok: "client_ok S c w st" by (rule client_ok_run [OF assms(1,2)])
  have e: "client_ending st" using assms(3) by (simp add: client_ending_def)
  have fl: "flag_follows st" by (rule client_run_flag [OF assms(1,2)])
  have path: "(cmain_at st' = CEnded \<or> (\<exists>st''. client_step S Z (client_awaited st') st' st'')) \<and>
      (exiting st \<longrightarrow> exiting st' \<and> count_list as Client_Main + main_rank (cmain_at st') \<le> 6 \<and>
         (main_rank (cmain_at st') = 0 \<longleftrightarrow> cmain_at st' = CEnded)) \<and>
      (\<not> established (cli st) \<longrightarrow> \<not> established (cli st') \<and>
         count_list as Client_Receiver + receiver_rank (recv_at st') \<le> 4)"
    if p: "path (client_step S Z) st as st'" for as st'
  proof -
    have "main_rank (cmain_at st') = 0 \<longleftrightarrow> cmain_at st' = CEnded"
      by (cases "cmain_at st'") (simp_all add: main_rank_def)
    with path_exiting [OF p] path_down [OF p _ ok] client_awaited_enabled [of st' S Z]
      ranks_bound(1) [of "cmain_at st"] ranks_bound(2) [of "recv_at st"] show ?thesis by (meson order_trans)
  qed
  show ?thesis
  proof (intro conjI)
    show "\<forall>actor state. fair_execution (client_step S Z) client_threads actor state \<and> state 0 = st \<longrightarrow>
        (\<exists>n. \<forall>k\<ge>n. cmain_at (state k) = CEnded)"
      by (intro allI impI, elim conjE) (rule client_fair_end [OF fl e])
    show "\<exists>actor state. fair_execution (client_step S Z) client_threads actor state \<and> state 0 = st"
      by (rule client_fair_execution [OF fl e])
  qed (intro allI impI, rule path)
qed

section \<open>Two threads end the session\<close>

text \<open>
  The input of the race: the user asks to disconnect, the server closes its end, and a
  packet of one byte waits on the TUN device. What the environment must change for it leaves
  everything the client holds alone.
\<close>

definition race_world :: "client \<Rightarrow> tun_device \<Rightarrow> world \<Rightarrow> world" where
  "race_world c dev w = w\<lparr>
     malloc_ok := (\<lambda>_. True), stalled := False, stdin_buf := ''disconnect'' @ [CHR 0x0A],
     socks := (socks w)(sess_socket (cl_session c) \<mapsto> fresh_sock\<lparr>rx_chunks := [[]]\<rparr>, dev_fd dev \<mapsto> fresh_sock\<lparr>rx_chunks := [[0]]\<rparr>)\<rparr>"

lemma race_world_input:
  "socks w (sess_socket (cl_session c)) \<noteq> None \<Longrightarrow> socks w (dev_fd dev) \<noteq> None \<Longrightarrow> input_change w (race_world c dev w)"
  by (simp add: race_world_def input_change_def)

text \<open>Both threads pass their test before either destroys the session.\<close>

definition race_start :: "(client_actor \<times> int) list" where
  "race_start =
     [(Client_Sender, 1), (Client_Sender, 1), (Client_Sender, 1), (Client_Main, 1), (Client_Main, 1), (Client_Main, 1),
      (Client_Main, 1), (Client_Receiver, 1), (Client_Receiver, 1), (Client_Receiver, 1)]"

definition race_end :: "(client_actor \<times> int) list" where
  "race_end = [(Client_Main, 1), (Client_Sender, 1), (Client_Receiver, 1)]"

lemma race_started:
  assumes up: "client_up c w" and dev: "dev_fd dev \<noteq> sess_socket (cl_session c)"
  shows "\<exists>v. client_schedule S Z race_start ((client_initial c w)\<lparr>cenv := race_world c dev w\<rparr>) =
      Some ((client_initial c w)\<lparr>cenv := v, cmain_at := CDropping Destroying, recv_at := RDropping Destroying, send_at := Handling\<rparr>) \<and>
    device_has dev [0] v \<and> udp_out v = udp_out w"
proof -
  let ?w = "race_world c dev w"
  have live: "established c" "tunnel_up c" using up by (simp_all add: client_up_def tunnel_up_def)
  obtain w1 where 1: "client_tun_sender_start ?w = (True, w1)" "socks w1 = socks ?w" "stdin_buf w1 = stdin_buf ?w"
      "udp_out w1 = udp_out w" "\<not> stalled w1"
    by (simp add: client_tun_sender_start_def allocate_three_def sys_malloc_def race_world_def Let_def)
  let ?p = "printf CLIENT_SHELL_PREFIX w1"
  obtain input w2 where 2: "sys_fgets 256 ?p = (Some input, w2)" "socks w2 = socks ?w" "udp_out w2 = udp_out w" "\<not> stalled w2"
    and cut: "cut_newline input = ''disconnect''"
  proof
    show "sys_fgets 256 ?p = (Some (''disconnect'' @ [CHR 0x0A]), ?p\<lparr>stdin_buf := []\<rparr>)"
      using 1(3) by (simp add: sys_fgets_def printf_def race_world_def eval_nat_numeral)
    show "cut_newline (''disconnect'' @ [CHR 0x0A]) = ''disconnect''" by code_simp
  qed (use 1(2,4,5) in \<open>simp_all add: printf_def\<close>)
  have cmd: "map_of client_commands ''disconnect'' = Some Client_Disconnect" by (simp add: client_commands_def)
  obtain go v where 3: "client_receiver_packet c w2 = (go, v)" by force
  have shut: "pending (sess_socket (cl_session c)) w2 = []" "\<not> stream_open (sess_socket (cl_session c)) w2"
    using 2(2) dev by (simp_all add: pending_def stream_def stream_open_def race_world_def)
  with client_receiver_packet_consumes [of c w2 v] 3 have go: "\<not> go" by (cases go) simp_all
  from 3 have wait: "\<not> stalled v"
    by (cases rule: client_receiver_packet_cases) (use 2(4) shut(2) in auto)
  have f: "socks v (dev_fd dev) = socks w2 (dev_fd dev)" "udp_out v = udp_out w2"
    using client_receiver_packet_frame [OF 3] dev by (simp_all add: socket_frame_def io_frame_def)
  have "client_schedule S Z race_start ((client_initial c w)\<lparr>cenv := ?w\<rparr>) =
      Some ((client_initial c w)\<lparr>cenv := v, cmain_at := CDropping Destroying, recv_at := RDropping Destroying, send_at := Handling\<rparr>)"
    using live go wait
    by (simp add: race_start_def client_initial_def client_turn_def client_send_turn_def 1(1) client_main_turn_def 2(1)
        cut client_command_turn_def cmd client_receiver_turn_def 3)
  moreover have "device_has dev [0] v" using f(1) 2(2) by (simp add: device_has_def race_world_def)
  ultimately show ?thesis using f(2) 2(3) by auto
qed

lemma race_run:
  assumes "client_up c w" and "cl_tun c = Some dev" and "socks w (dev_fd dev) \<noteq> None"
    and "dev_fd dev \<notin> {sess_socket (cl_session c), udp_socket (udp (cl_session c))}"
    and "aead_correct S" and "zstd_bounded Z"
  shows "\<exists>st d. client_run S Z (client_initial c w) st \<and>
    csealed st = [(zeros CRYPTO_SESSION_KEY_SIZE, 0, Some (0, None, d))] \<and> udp_out (cenv st) = udp_out w @ [(0, None, d)] \<and>
    (0 \<in> set (closed (cenv st)) \<or> 0 \<in> set (bad_closes (cenv st))) \<and>
    \<not> established (cli st) \<and> cmain_at st = CDropping Unsetting \<and> recv_at st = RDropping Unsetting"
proof -
  let ?w = "race_world c dev w" and ?i = "client_initial c w"
  have "input_change w ?w" using assms(1,3) by (auto simp: client_up_def intro: race_world_input)
  then have "client_step S Z Client_Environment ?i (?i\<lparr>cenv := ?w\<rparr>)"
    by (intro client_step.environment) (simp add: client_initial_def)
  then have run0: "client_run S Z ?i (?i\<lparr>cenv := ?w\<rparr>)" by (rule client_run.step [OF client_run.start])
  obtain v where v: "client_schedule S Z race_start (?i\<lparr>cenv := ?w\<rparr>) =
      Some (?i\<lparr>cenv := v, cmain_at := CDropping Destroying, recv_at := RDropping Destroying, send_at := Handling\<rparr>)"
      "device_has dev [0] v" "udp_out v = udp_out w"
    using race_started [OF assms(1), of dev S Z] assms(4) by auto
  obtain s w1 where 1: "session_destroy (cl_session c) v = (s, w1)" by force
  have s: "s = dead_session 0" "udp_out w1 = udp_out w" "socks w1 (dev_fd dev) = socks v (dev_fd dev)"
    using 1 assms(4) v(3) by (auto simp: destroyed_session socks_close)
  let ?c = "c\<lparr>cl_session := s\<rparr>"
  have "device_has dev [0] w1" using v(2) s(3) by (simp add: device_has_def)
  moreover have "wf_crypto (crypto (dead_session 0))"
    by (simp add: dead_session_crypto wf_crypto_def crypto_context_init_def)
  moreover have "fits [0]" by (simp add: fits_def mtu_consts)
  ultimately obtain d w2 where 2: "client_tun_sender_packet S Z ?c w1 = (?c\<lparr>cl_session := dead_session 1\<rparr>, w2)"
      "udp_out w2 = udp_out w @ [(0, None, d)]"
    using client_sends [of ?c dev "[0]" w1 S Z] assms(2,5,6) s(1,2) by auto
  obtain s3 w3 where 3: "session_destroy (dead_session 1) w2 = (s3, w3)" by force
  have c0: "0 \<in> set (closed w3) \<or> 0 \<in> set (bad_closes w3)" "udp_out w3 = udp_out w2"
      "sess_state s3 = SESSION_DISCONNECTED"
    using 3 by (auto simp: destroyed_session sys_close_def split: option.splits)
  let ?st = "?i\<lparr>cli := c\<lparr>cl_session := s3\<rparr>, cenv := w3, cmain_at := CDropping Unsetting, recv_at := RDropping Unsetting,
      send_at := Testing, csealed := [(zeros CRYPTO_SESSION_KEY_SIZE, 0, Some (0, None, d))]\<rparr>"
  have "dead_session 0 \<noteq> dead_session 1" using advance_neq [of "dead_session 0"] by auto
  then have "c\<lparr>cl_session := dead_session 0\<rparr> \<noteq> c\<lparr>cl_session := dead_session 1\<rparr>"
    by (metis client.select_convs(1) client.surjective client.update_convs(1))
  then have "client_schedule S Z race_end
      (?i\<lparr>cenv := v, cmain_at := CDropping Destroying, recv_at := RDropping Destroying, send_at := Handling\<rparr>) = Some ?st"
    using 1 2 3 s(1,2)
    by (simp add: race_end_def client_initial_def client_turn_def client_main_turn_def client_send_turn_def
        client_receiver_turn_def drop_turn_def client_observe_def)
  with v(1) have "client_schedule S Z (race_start @ race_end) (?i\<lparr>cenv := ?w\<rparr>) = Some ?st"
    by (simp add: client_schedule_append)
  from client_schedule_run [OF run0 this] c0 2(2) show ?thesis
    by (intro exI [of _ ?st] exI [of _ d]) (simp add: established_def)
qed

text \<open>
  C38. The threads test the session without a lock, and the result is a race: from every
  state in which the client is up, there is a run, in which the server closes the connection
  while the user types \<^verbatim>\<open>disconnect\<close> and a packet waits on the TUN device,
  in which the main thread and the receiving thread both destroy the session, the second of
  them closing descriptor 0, which the zeroed session names, and in which the sender
  meanwhile encrypts a packet under the zero key and hands it to descriptor 0.
\<close>

theorem client_session_race:
  assumes "client_up c w" and "cl_tun c = Some dev" and "socks w (dev_fd dev) \<noteq> None"
    and "dev_fd dev \<notin> {sess_socket (cl_session c), udp_socket (udp (cl_session c))}"
    and "aead_correct S" and "zstd_bounded Z"
  shows "\<exists>st d. client_run S Z (client_initial c w) st \<and>
    csealed st = [(zeros CRYPTO_SESSION_KEY_SIZE, 0, Some (0, None, d))] \<and> udp_out (cenv st) = udp_out w @ [(0, None, d)] \<and>
    (0 \<in> set (closed (cenv st)) \<or> 0 \<in> set (bad_closes (cenv st)))"
  using race_run [OF assms] by blast

section \<open>The start\<close>

lemma client_vni: "inet_pton CLIENT_DEFAULT_VNI = Some 0x0A080002"
  unfolding CLIENT_DEFAULT_VNI_def by code_simp

lemma client_begin_result:
  assumes "client_environment_begin S argv w = (r, w')" and "unused 2 w"
  shows "case r of
      None \<Rightarrow> socks w' = socks w \<and> leaked w' = leaked w
    | Some (c, data) \<Rightarrow> leaked w' = leaked w + 1 \<and> td_status data = 0 \<and> data = client_arguments argv \<and>
        conn_state (cl_connection c) = CONNECTION_DISCONNECTED \<and> conn_socket (cl_connection c) = -1 \<and> \<not> tunnel_up c \<and>
        (\<exists>dev. cl_tun c = Some dev \<and> socks w' = (socks w)(dev_fd dev \<mapsto> sock_script w (fd_calls w)) \<and>
           0 \<le> dev_fd dev \<and> dev_fd dev = fd_script w (fd_calls w) \<and> same_script 2 w w' \<and>
           ifaces w' (dev_name dev) = Some \<lparr>if_addr = 0x0A080002, if_netmask = 0xFFFFFF00, if_up = True\<rparr>)"
proof -
  let ?cfg = "\<lparr>cfg_address = CLIENT_DEFAULT_VNI, cfg_netmask = DEFAULT_NETMASK, cfg_ifname = CLIENT_TUN_INTERFACE_NAME\<rparr>"
  obtain ident w1 where id: "client_load_identity S w = (ident, w1)" by force
  obtain dev w2 where op: "tun_open ?cfg w1 = (dev, w2)" by force
  have "local_frame w w1"
    using id by (auto simp: client_load_identity_def split: prod.splits option.splits
        dest!: crypto_config_path_frame crypto_identity_load_or_create_frame intro: local_frame_trans)
  then have same: "same_script 0 w w1" "socks w1 = socks w" "leaked w1 = leaked w" "fd_script w1 = fd_script w" "fd_calls w1 = fd_calls w"
      "sock_script w1 = sock_script w"
    by (simp_all add: local_frame_def env_frame_def same_script_def)
  have "unused 2 w1" using assms(2) same by (simp add: unused_def)
  note t = tun_open_result [OF op this]
  show ?thesis
  proof (cases ident)
    case None
    with assms(1) id same show ?thesis by (auto simp: client_environment_begin_def Let_def)
  next
    case (Some ctx)
    have args: "td_status (client_arguments argv) = 0" by (simp add: client_arguments_def Let_def)
    show ?thesis
    proof (cases dev)
      case None
      with assms(1) id op Some same t(1) show ?thesis by (auto simp: client_environment_begin_def Let_def)
    next
      case d: (Some d)
      have r: "w' = w2" "\<exists>c. r = Some (c, client_arguments argv) \<and> cl_tun c = Some d \<and> cl_connection c = connection_init \<and>
          cl_session c = session_init SESSION_CLIENT"
        using assms(1) id op Some d by (auto simp: client_environment_begin_def Let_def)
      have "\<not> tunnel_up c" if "cl_session c = session_init SESSION_CLIENT" for c
        using that by (simp add: tunnel_up_def established_def session_init_def)
      moreover have "same_script 2 w w2" using same_script_trans [OF same(1) tun_open_fds [OF op [unfolded d]]]
        by (simp add: numeral_2_eq_2)
      ultimately show ?thesis
        using t(2) [OF d] client_vni server_vni(2) same r args by (auto simp: connection_init_def)
    qed
  qed
qed

text \<open>
  The four descriptors the start asks for: the TUN device, the control socket that
  configures it (closed again), the TCP socket and the UDP socket. The kernel hands out none
  that is open.
\<close>

definition client_kernel_fresh :: "world \<Rightarrow> bool" where
  "client_kernel_fresh w \<longleftrightarrow>
     (let f = (\<lambda>i. fd_script w (fd_calls w + i))
      in (\<forall>i<4. socks w (f i) = None) \<and> f 1 \<noteq> f 0 \<and> f 2 \<noteq> f 0 \<and> f 3 \<noteq> f 0 \<and> f 3 \<noteq> f 2)"

lemma client_fresh:
  assumes "client_kernel_fresh w"
  shows "unused 2 w" "socks w (fd_script w (fd_calls w + 2)) = None" "socks w (fd_script w (fd_calls w + 3)) = None"
    "fd_script w (fd_calls w + 2) \<noteq> fd_script w (fd_calls w)" "fd_script w (fd_calls w + 3) \<noteq> fd_script w (fd_calls w)"
    "fd_script w (fd_calls w + 3) \<noteq> fd_script w (fd_calls w + 2)"
proof -
  let ?f = "\<lambda>i. fd_script w (fd_calls w + i)"
  have none: "socks w (?f i) = None" if "i < 4" for i using assms that by (simp add: client_kernel_fresh_def Let_def)
  have "?f 1 \<noteq> ?f 0" using assms by (simp add: client_kernel_fresh_def Let_def)
  then show "unused 2 w" using none [of 0] none [of 1] by (auto simp: unused_def less_Suc_eq numeral_2_eq_2)
  show "socks w (?f 2) = None" "socks w (?f 3) = None" by (rule none, simp)+
qed (use assms in \<open>simp_all add: client_kernel_fresh_def Let_def\<close>)

text \<open>The connecting thread after a start that has opened the device \<open>dev\<close>.\<close>

lemma client_listener_started:
  assumes run: "client_listener S data c w1 = (data', c', w2)" and fresh: "client_kernel_fresh w"
    and c: "leaked w1 = leaked w + 1" "td_status data = 0" "conn_state (cl_connection c) = CONNECTION_DISCONNECTED"
      "conn_socket (cl_connection c) = -1" "same_script 2 w w1"
      "socks w1 = (socks w)(fd_script w (fd_calls w) \<mapsto> sock_script w (fd_calls w))"
  defines "f \<equiv> \<lambda>i. fd_script w (fd_calls w + i)"
  shows "leaked w2 = leaked w + 1" "socks w2 (f 0) \<noteq> None" "fd \<notin> {f 0, f 2, f 3} \<Longrightarrow> socks w2 fd = socks w fd"
    "cl_tun c' = cl_tun c"
    "td_status data' = 0 \<Longrightarrow> client_up c' w2 \<and> sess_socket (cl_session c') = f 2 \<and> udp_socket (udp (cl_session c')) = f 3 \<and>
       open_fds w2 = open_fds w \<union> {f 0, f 2, f 3}"
proof -
  note fr = client_fresh [OF fresh]
  have script: "fd_script w1 (fd_calls w1 + i) = f (2 + i)" for i
    using c(5) by (simp add: same_script_def f_def add.assoc)
  have "unused 2 w1"
    using fr c(6) unfolding unused_def script by (auto simp: f_def less_Suc_eq numeral_2_eq_2 numeral_3_eq_3)
  note l = client_listener_result [OF run c(2-4) this]
  have same: "socks w2 fd = socks w1 fd" if "fd \<noteq> f 2" "fd \<noteq> f 3" for fd
    using l(3) [of fd] that script [of 0] script [of 1] by simp
  show "leaked w2 = leaked w + 1" using l(2) c(1) by simp
  show dev: "socks w2 (f 0) \<noteq> None" using same [of "f 0"] fr(4,5) c(6) by (simp add: f_def)
  show other: "socks w2 fd = socks w fd" if "fd \<notin> {f 0, f 2, f 3}" for fd
    using same [of fd] that c(6) by (simp add: f_def)
  show "cl_tun c' = cl_tun c" by (rule l(8))
  assume s: "td_status data' = 0"
  have fds: "sess_socket (cl_session c') = f 2" "udp_socket (udp (cl_session c')) = f 3"
    using l(7) [OF s] script [of 0] script [of 1] by simp_all
  have opened: "socks w2 (f 2) \<noteq> None" "socks w2 (f 3) \<noteq> None" using l(4) [OF s] fds by (simp_all add: client_up_def)
  have "socks w2 fd \<noteq> None \<longleftrightarrow> socks w fd \<noteq> None \<or> fd \<in> {f 0, f 2, f 3}" for fd
    using other [of fd] dev opened by (cases "fd \<in> {f 0, f 2, f 3}") auto
  then have "open_fds w2 = open_fds w \<union> {f 0, f 2, f 3}" unfolding open_fds_def by blast
  with l(4) [OF s] fds show "client_up c' w2 \<and> sess_socket (cl_session c') = f 2 \<and> udp_socket (udp (cl_session c')) = f 3 \<and>
       open_fds w2 = open_fds w \<union> {f 0, f 2, f 3}" by simp
qed

text \<open>
  C35. The start of the client, from reading its identity to the report of the connecting
  thread, for which it waits as long as that thread waits for the server. It fails having opened and kept nothing, or, once the TUN device was open, keeping
  the device and its block and at most its two sockets; it succeeds with a client that is up
  over the two sockets the kernel gave it, whose interface has the address 10.8.0.2/24, and
  nothing else is open or held.
\<close>

theorem client_start_result:
  assumes "client_start S argv w = (r, w')" and "client_kernel_fresh w"
  shows "let f = (\<lambda>i. fd_script w (fd_calls w + i)) in
    case r of
      None \<Rightarrow> (socks w' = socks w \<and> leaked w' = leaked w) \<or>
        (leaked w' = leaked w + 1 \<and> socks w' (f 0) \<noteq> None \<and> (\<forall>fd. fd \<notin> {f 0, f 2, f 3} \<longrightarrow> socks w' fd = socks w fd))
    | Some c \<Rightarrow> client_up c w' \<and> leaked w' = leaked w + 1 \<and> open_fds w' = open_fds w \<union> {f 0, f 2, f 3} \<and>
        sess_socket (cl_session c) = f 2 \<and> udp_socket (udp (cl_session c)) = f 3 \<and>
        (\<exists>dev. cl_tun c = Some dev \<and> dev_fd dev = f 0)"
proof -
  obtain b w1 where be: "client_environment_begin S argv w = (b, w1)" by force
  note began = client_begin_result [OF be client_fresh(1) [OF assms(2)]]
  show ?thesis
  proof (cases b)
    case None
    with assms(1) be began show ?thesis by (simp add: client_start_def)
  next
    case (Some p)
    obtain c data where p: "p = (c, data)" by force
    from began Some p obtain dev where c: "leaked w1 = leaked w + 1" "td_status data = 0"
        "conn_state (cl_connection c) = CONNECTION_DISCONNECTED" "conn_socket (cl_connection c) = -1" "same_script 2 w w1"
        "socks w1 = (socks w)(fd_script w (fd_calls w) \<mapsto> sock_script w (fd_calls w))"
      and dev: "cl_tun c = Some dev" "dev_fd dev = fd_script w (fd_calls w)"
      by auto
    obtain data' c' w2 where li: "client_listener S data c w1 = (data', c', w2)" by (metis prod_cases3)
    note l = client_listener_started [OF li assms(2) c]
    have run: "(r, w') = (if td_status data' \<noteq> 0 then None else Some c', w2)"
      using assms(1) be Some p li by (simp add: client_start_def split: if_splits)
    show ?thesis
    proof (cases "td_status data' = 0")
      case True
      with run l(1,4) l(5) [OF True] dev show ?thesis by (simp add: Let_def)
    next
      case False
      with run l(1-3) show ?thesis by (simp add: Let_def)
    qed
  qed
qed

theorem client_start_result_witness:
  "\<exists>r w'. client_start demo_sodium [''sencd-client'', ''connect''] calm_world = (r, w') \<and>
     (r = None \<longrightarrow> leaked w' - leaked calm_world \<in> {0, 1}) \<and> (r \<noteq> None \<longrightarrow> open_fds w' = {3, 5, 6})"
proof -
  obtain r w' where run: "client_start demo_sodium [''sencd-client'', ''connect''] calm_world = (r, w')" by force
  have "client_kernel_fresh calm_world" "open_fds calm_world = {}"
    by (simp_all add: client_kernel_fresh_def calm_world_def open_fds_def)
  with client_start_result [OF run this(1)] run show ?thesis
    by (auto simp: calm_world_def split: option.splits)
qed

section \<open>Concrete runs\<close>

text \<open>A client that is up on sockets 3 and 5, with its TUN device on 9, and the race from there.\<close>

definition three_fds :: world where
  "three_fds = (two_sockets [])\<lparr>socks := (socks (two_sockets []))(9 \<mapsto> fresh_sock)\<rparr>"

lemma demo_up:
  "client_up demo_up_client three_fds" "cl_tun demo_up_client = Some \<lparr>dev_name = ''sencd1'', dev_fd = 9\<rparr>"
  "socks three_fds 9 \<noteq> None" "sess_socket (cl_session demo_up_client) = 3" "udp_socket (udp (cl_session demo_up_client)) = 5"
  "open_fds three_fds = {3, 5, 9}"
  by (auto simp: client_up_def tunnel_up_def established_def demo_up_client_def demo_idle_client_def demo_client_def
      demo_end_def three_fds_def two_sockets_def calm_world_def open_fds_def split: if_splits)

lemma demo_race:
  "\<exists>st d. client_run demo_sodium demo_zstd (client_initial demo_up_client three_fds) st \<and>
    csealed st = [(zeros CRYPTO_SESSION_KEY_SIZE, 0, Some (0, None, d))] \<and>
    udp_out (cenv st) = udp_out three_fds @ [(0, None, d)] \<and>
    (0 \<in> set (closed (cenv st)) \<or> 0 \<in> set (bad_closes (cenv st))) \<and>
    \<not> established (cli st) \<and> cmain_at st = CDropping Unsetting \<and> recv_at st = RDropping Unsetting"
  using race_run [OF demo_up(1,2) _ _ demo_aead_correct demo_zstd_bounded] demo_up(3-5) by simp

theorem client_threads_frame_witness:
  "\<exists>st. client_run demo_sodium demo_zstd (client_initial demo_up_client three_fds) st \<and>
     cmain_at st = CDropping Unsetting \<and> {9} \<subseteq> open_fds three_fds - {3, 5, 0} \<and> 9 \<in> open_fds (cenv st)"
proof -
  obtain st where run: "client_run demo_sodium demo_zstd (client_initial demo_up_client three_fds) st"
      "cmain_at st = CDropping Unsetting"
    using demo_race by blast
  from client_threads_frame [OF run(1) demo_up(1)] run show ?thesis by (auto simp: demo_up(4-6))
qed

theorem client_no_nonce_reuse_witness:
  "\<exists>st live late. client_run demo_sodium demo_zstd (client_initial demo_up_client three_fds) st \<and>
     csealed st = live @ late \<and> length (csealed st) = 1 \<and> length late \<le> 1 \<and>
     udp_out (cenv st) = udp_out three_fds @ List.map_filter (snd \<circ> snd) (csealed st)"
proof -
  obtain st d where run: "client_run demo_sodium demo_zstd (client_initial demo_up_client three_fds) st"
      "csealed st = [(zeros CRYPTO_SESSION_KEY_SIZE, 0, Some (0, None, d))]"
    using demo_race by blast
  from run(2) have "length (csealed st) = 1" by simp
  with client_no_nonce_reuse [OF run(1) demo_up(1)] run(1) show ?thesis by blast
qed

theorem client_exit_progress_witness:
  "\<exists>st actor state n. client_run demo_sodium demo_zstd (client_initial demo_up_client three_fds) st \<and>
     cmain_at st = CDropping Unsetting \<and> recv_at st = RDropping Unsetting \<and>
     fair_execution (client_step demo_sodium demo_zstd) client_threads actor state \<and> state 0 = st \<and>
     cmain_at (state n) = CEnded"
proof -
  obtain st where run: "client_run demo_sodium demo_zstd (client_initial demo_up_client three_fds) st"
      "\<not> established (cli st)" "cmain_at st = CDropping Unsetting" "recv_at st = RDropping Unsetting"
    using demo_race by blast
  note p = client_exit_progress [OF run(1) demo_up(1) disjI2 [OF run(2)]]
  note fair = p [THEN conjunct1] and some = p [THEN conjunct2, THEN conjunct1]
  from some obtain actor state where
    x: "fair_execution (client_step demo_sodium demo_zstd) client_threads actor state" "state 0 = st" by blast
  from fair [rule_format, OF conjI, OF x] obtain n where "cmain_at (state n) = CEnded" by blast
  with run x show ?thesis by blast
qed

theorem client_session_race_witness:
  "\<exists>st d. client_run demo_sodium demo_zstd (client_initial demo_up_client three_fds) st \<and>
     csealed st = [(zeros 32, 0, Some (0, None, d))]"
  using client_session_race [OF demo_up(1,2) _ _ demo_aead_correct demo_zstd_bounded] demo_up(3-5)
  by (auto simp: size_consts)

end
