(* ===== verification/EndToEnd.thy ===== *)
theory EndToEnd
  imports SessionTypes TableGuarantees Tunnel Demo
begin

text \<open>
  The parts together: a client connects, the server's manager takes it into its table, and
  from then on packets travel in both directions between the two devices.
\<close>

section \<open>One packet\<close>

text \<open>From the client's device to the server's, and back.\<close>

lemma uplink:
  assumes "cl_tun c = Some dev" and "device_has dev raw w" and "fits raw" and "wf_crypto (crypto (cl_session c))"
    and "aead_correct S" and "zstd_bounded Z" and "zstd_correct Z"
  shows "\<exists>d w'. client_tun_sender_packet S Z c w = (c\<lparr>cl_session := advance (cl_session c)\<rparr>, w') \<and>
    udp_out w' = udp_out w @ [(udp_socket (udp (cl_session c)), None, d)] \<and>
    (\<forall>m i s sdev addr v. manager_ok m \<and> find_session (session_id (cl_session c)) m = Some i \<and>
       sessions m ! i = Some s \<and> agree (cl_session c) s \<and> tun m = Some sdev \<and>
       datagram_next (manager_socket m) addr d v \<and> can_write v \<longrightarrow>
       (\<exists>v'. udp_listener_datagram S Z m v = (m\<lparr>sessions := (sessions m)[i := Some (rebind addr s)]\<rparr>, v') \<and>
          tun_out v' = tun_out v @ [raw]))"
proof -
  obtain d w' where d: "seal S Z (host w) (cl_session c) raw = Some d" "length d \<le> TUNNEL_PACKET_MAX_SIZE"
      "client_tun_sender_packet S Z c w = (c\<lparr>cl_session := advance (cl_session c)\<rparr>, w')"
      "udp_out w' = udp_out w @ [(udp_socket (udp (cl_session c)), None, d)]"
    using client_sends [OF assms(1,2,5,6,4,3)] by blast
  have "\<exists>v'. udp_listener_datagram S Z m v = (m\<lparr>sessions := (sessions m)[i := Some (rebind addr s)]\<rparr>, v') \<and>
      tun_out v' = tun_out v @ [raw]"
    if m: "manager_ok m" and i: "find_session (session_id (cl_session c)) m = Some i" and s: "sessions m ! i = Some s"
      and ag: "agree (cl_session c) s" and t: "tun m = Some sdev"
      and dg: "datagram_next (manager_socket m) addr d v" and cw: "can_write v" for m i s sdev addr v
  proof -
    have key: "rx_key (crypto s) = tx_key (crypto (cl_session c))" using ag by (simp add: agree_def)
    note u = unseal_seal(1,2) [OF d(1) assms(5-7,4,3) key, of "host v"]
    have ne: "raw \<noteq> []" using assms(3) by (simp add: fits_def)
    show ?thesis by (rule server_receives [OF m dg d(2) u(2) i s t cw u(1) ne])
  qed
  with d(3,4) show ?thesis by blast
qed

lemma downlink:
  assumes "manager_ok m" and "tun m = Some sdev" and "device_has sdev raw w" and "20 \<le> length raw"
    and "routes_to m raw i" and "sessions m ! i = Some s" and "fits raw" and "wf_crypto (crypto s)"
    and "aead_correct S" and "zstd_bounded Z" and "zstd_correct Z"
  shows "sess_state s = SESSION_ESTABLISHED \<and> peer_known (udp s) \<and> tunnel_ip_octet s = raw ! 19 \<and>
    (\<exists>d w'. tun_sender_packet S Z m w = (m\<lparr>sessions := (sessions m)[i := Some (advance s)]\<rparr>, w') \<and>
      udp_out w' = udp_out w @ [(manager_socket m, Some (peer_addr (udp s)), d)] \<and>
      (\<forall>c dev addr v. agree (cl_session c) s \<and> cl_tun c = Some dev \<and>
         datagram_next (udp_socket (udp (cl_session c))) addr d v \<and> can_write v \<longrightarrow>
         tun_out (client_udp_receiver_datagram S Z c v) = tun_out v @ [raw]))"
proof -
  obtain d w' where d: "seal S Z (host w) s raw = Some d" "length d \<le> TUNNEL_PACKET_MAX_SIZE"
      "tun_sender_packet S Z m w = (m\<lparr>sessions := (sessions m)[i := Some (advance s)]\<rparr>, w')"
      "udp_out w' = udp_out w @ [(manager_socket m, Some (peer_addr (udp s)), d)]"
    using server_sends [OF assms(1-6,9,10,8,7)] by blast
  have "tun_out (client_udp_receiver_datagram S Z c v) = tun_out v @ [raw]"
    if ag: "agree (cl_session c) s" and t: "cl_tun c = Some dev"
      and dg: "datagram_next (udp_socket (udp (cl_session c))) addr d v" and cw: "can_write v" for c dev addr v
  proof -
    have key: "rx_key (crypto (cl_session c)) = tx_key (crypto s)" using ag by (simp add: agree_def)
    note u = unseal_seal(1,2) [OF d(1) assms(9-11,8,7) key, of "host v"]
    have ne: "raw \<noteq> []" using assms(7) by (simp add: fits_def)
    show ?thesis by (rule client_receives [OF dg peek_ne [OF u(2)] d(2) t cw u(1) ne])
  qed
  with d(3,4) routes_to_slot(2) [OF assms(5)] assms(6) show ?thesis by auto
qed

section \<open>A packet from device to device\<close>

text \<open>
  \<open>carried_up S Z c m addr raw m'\<close>: whatever the worlds of the two hosts are like, if the packet
  \<open>raw\<close> is next on the client's device, the client sends one datagram for it, and when that
  datagram is the next on the server's socket, from the address \<open>addr\<close>, the server writes
  \<open>raw\<close> to its device, and its table is then that of \<open>m'\<close>.
\<close>

definition carried_up ::
    "sodium \<Rightarrow> zstd \<Rightarrow> client \<Rightarrow> session_manager \<Rightarrow> sockaddr_in \<Rightarrow> bytes \<Rightarrow> session_manager \<Rightarrow> bool" where
  "carried_up S Z c m addr raw m' \<longleftrightarrow>
     (\<forall>dev w. cl_tun c = Some dev \<and> device_has dev raw w \<longrightarrow>
        (\<exists>d w'. client_tun_sender_packet S Z c w = (c\<lparr>cl_session := advance (cl_session c)\<rparr>, w') \<and>
           udp_out w' = udp_out w @ [(udp_socket (udp (cl_session c)), None, d)] \<and>
           (\<forall>v. datagram_next (manager_socket m) addr d v \<and> can_write v \<longrightarrow>
              (\<exists>v'. udp_listener_datagram S Z m v = (m', v') \<and> tun_out v' = tun_out v @ [raw]))))"

text \<open>
  \<open>carried_down S Z m c addr raw\<close>: the same from the server to the client, by a datagram that is
  sent to \<open>addr\<close>.
\<close>

definition carried_down :: "sodium \<Rightarrow> zstd \<Rightarrow> session_manager \<Rightarrow> client \<Rightarrow> sockaddr_in \<Rightarrow> bytes \<Rightarrow> bool" where
  "carried_down S Z m c addr raw \<longleftrightarrow>
     (\<forall>dev w. tun m = Some dev \<and> device_has dev raw w \<longrightarrow>
        (\<exists>d m' w'. tun_sender_packet S Z m w = (m', w') \<and>
           udp_out w' = udp_out w @ [(manager_socket m, Some addr, d)] \<and>
           (\<forall>a v. datagram_next (udp_socket (udp (cl_session c))) a d v \<and> can_write v \<longrightarrow>
              tun_out (client_udp_receiver_datagram S Z c v) = tun_out v @ [raw])))"

lemma carries_up:
  assumes lib: "aead_correct S" "zstd_bounded Z" "zstd_correct Z"
    and c: "wf_crypto (crypto (cl_session c))" and fit: "fits raw"
    and m: "manager_ok m" "find_session (session_id (cl_session c)) m = Some i" "sessions m ! i = Some s"
      "tun m = Some sdev"
    and ag: "agree (cl_session c) s"
  shows "carried_up S Z c m addr raw (m\<lparr>sessions := (sessions m)[i := Some (rebind addr s)]\<rparr>)"
  unfolding carried_up_def
proof (intro allI impI, elim conjE)
  fix dev w assume "cl_tun c = Some dev" "device_has dev raw w"
  from uplink [OF this fit c lib] m ag
  show "\<exists>d w'. client_tun_sender_packet S Z c w = (c\<lparr>cl_session := advance (cl_session c)\<rparr>, w') \<and>
      udp_out w' = udp_out w @ [(udp_socket (udp (cl_session c)), None, d)] \<and>
      (\<forall>v. datagram_next (manager_socket m) addr d v \<and> can_write v \<longrightarrow>
        (\<exists>v'. udp_listener_datagram S Z m v = (m\<lparr>sessions := (sessions m)[i := Some (rebind addr s)]\<rparr>, v') \<and>
           tun_out v' = tun_out v @ [raw]))" by blast
qed

lemma carries_down:
  assumes lib: "aead_correct S" "zstd_bounded Z" "zstd_correct Z"
    and m: "manager_ok m" "routes_to m raw i" "sessions m ! i = Some s" "peer_addr (udp s) = addr"
    and s: "wf_crypto (crypto s)" and fit: "fits raw" "20 \<le> length raw"
    and c: "cl_tun c = Some cdev" and ag: "agree (cl_session c) s"
  shows "carried_down S Z m c addr raw"
  unfolding carried_down_def
proof (intro allI impI, elim conjE)
  fix dev w assume "tun m = Some dev" "device_has dev raw w"
  from downlink [OF m(1) this fit(2) m(2,3) fit(1) s lib] m(4) c ag
  show "\<exists>d m' w'. tun_sender_packet S Z m w = (m', w') \<and>
      udp_out w' = udp_out w @ [(manager_socket m, Some addr, d)] \<and>
      (\<forall>a v. datagram_next (udp_socket (udp (cl_session c))) a d v \<and> can_write v \<longrightarrow>
         tun_out (client_udp_receiver_datagram S Z c v) = tun_out v @ [raw])" by blast
qed

section \<open>A connection enters the table\<close>

text \<open>Accepting a client whose handshake succeeds, while a slot is free.\<close>

lemma connect_stores:
  assumes m: "manager_ok m" and free: "\<exists>i<MAX_SESSIONS. sessions m ! i = None"
    and ml: "sys_malloc w = (True, w1)" and cr: "session_create SESSION_SERVER fd addr (identity m) None w1 = (0, ss, w2)"
    and co: "session_server_connect S ss w2 = (0, s0, w3)" and new: "find_session (session_id s0) m = None"
  shows "\<exists>i m'. session_manager_connect S m SESSION_SERVER fd addr w = (Some (place_session i s0), m', w3) \<and>
    i < MAX_SESSIONS \<and> manager_ok m' \<and> find_session (session_id s0) m' = Some i \<and> sessions m' ! i = Some (place_session i s0) \<and>
    tun m' = tun m \<and> manager_socket m' = manager_socket m"
proof -
  have len: "length (sessions m) = MAX_SESSIONS" using m by (simp add: manager_ok_def)
  obtain i where i: "first_slot (\<lambda>slot. slot = None) 0 (sessions m) = Some i"
  proof (cases "first_slot (\<lambda>slot. slot = None) 0 (sessions m)")
    case None
    with free len show ?thesis by (force simp: first_slot_None in_set_conv_nth)
  qed
  let ?m = "mutex_unlock (m\<lparr>sessions := (sessions m)[i := Some (place_session i s0)], session_count := session_count m + 1\<rparr>)"
  have add: "session_manager_add m s0 = (0, place_session i s0, ?m)" by (simp add: session_manager_add_eq [OF m] i)
  have slot: "i < MAX_SESSIONS" "sessions m ! i = None" using i len by (auto simp: first_slot_0)
  have as: "add_session s0 m = Some ?m" by (simp add: add_session_def add)
  obtain j where j: "find_session (session_id s0) ?m = Some j" "slot_of ?m j = Some (place_session j s0)"
    using table.add_find [OF m as new] by blast
  have "j = i"
  proof (rule ccontr)
    assume ne: "j \<noteq> i"
    have "slot_of ?m j = slot_of m j" using ne by (simp add: slot_of_def)
    with j(2) have "slot_of m j = Some (place_session j s0)" by simp
    moreover have "session_id (place_session j s0) = session_id s0" by (simp add: place_session_def)
    ultimately show False using new table.find_None [OF m] by blast
  qed
  moreover have "session_manager_connect S m SESSION_SERVER fd addr w = (Some (place_session i s0), ?m, w3)"
    by (simp add: session_manager_connect_def ml cr co add)
  moreover have "sessions ?m ! i = Some (place_session i s0)" using slot len by simp
  ultimately show ?thesis
    using j(1) slot(1) manager_ok_fill [OF m slot, of s0] by (intro exI [of _ i] exI [of _ ?m]) simp
qed

lemma manager_ok_rebind:
  "manager_ok m \<Longrightarrow> i < MAX_SESSIONS \<Longrightarrow> sessions m ! i = Some s \<Longrightarrow>
     manager_ok (m\<lparr>sessions := (sessions m)[i := Some (rebind addr s)]\<rparr>)"
  by (auto simp: manager_ok_def nth_list_update occupied_replace)

section \<open>A connection carries packets\<close>

lemma agree_moved [simp]:
  "agree (s\<lparr>udp := u\<rparr>) t = agree s t" "agree s (rebind addr t) = agree s t" "agree s (place_session i t) = agree s t"
  "agree (advance s) t = agree s t"
  by (simp_all add: agree_def place_session_def advance_def rebind_def)

text \<open>Both directions at once, between a client and the session it agrees with.\<close>

lemma carries_both:
  assumes lib: "aead_correct S" "zstd_bounded Z" "zstd_correct Z"
    and m: "manager_ok m" "i < MAX_SESSIONS" "find_session (session_id sc) m = Some i" "sessions m ! i = Some s" "tun m = Some sdev"
    and ends: "agree sc s" "wf_crypto (crypto sc)" "wf_crypto (crypto s)"
    and c: "cl_session c = sc\<lparr>udp := u\<rparr>" "cl_tun c = Some cdev" and up: "fits up"
    and m': "m' = m\<lparr>sessions := (sessions m)[i := Some (rebind addr s)]\<rparr>"
  shows "carried_up S Z c m addr up m' \<and>
    (\<forall>down. fits down \<and> 20 \<le> length down \<and> routes_to m' down i \<longrightarrow>
       carried_down S Z m' (c\<lparr>cl_session := advance (cl_session c)\<rparr>) addr down)"
proof -
  have len: "length (sessions m) = MAX_SESSIONS" using m(1) by (simp add: manager_ok_def)
  have "carried_up S Z c m addr up m'" unfolding m'
    by (rule carries_up [OF lib _ up m(1) _ m(4)]) (use c ends m(3,5) in simp_all)
  moreover have "carried_down S Z m' (c\<lparr>cl_session := advance (cl_session c)\<rparr>) addr down"
    if "fits down" "20 \<le> length down" "routes_to m' down i" for down
    unfolding m'
    by (rule carries_down [OF lib manager_ok_rebind [OF m(1,2,4)] that(3) [unfolded m'], where s = "rebind addr s"])
      (use c ends that m(2) len in simp_all)
  ultimately show ?thesis by blast
qed

text \<open>
  C4. A client and a server on hosts of the same byte order, whose handshake streams reach each
  other, connect: both report success, the server has the new session in its table, where the client's session id finds
  it, and the sessions agree. From then on the tunnel carries every packet that fits it: what
  the client reads from its device the server writes to its own, and afterwards what the
  server reads from its device for the octet of the session goes to the address the client was
  last heard from and is written by the client. The byte order matters: the confirmation holds the
  session id in the order of the server's host, so that a client on a host of the other order
  ends up with a reversed id, which the server does not find.
\<close>

theorem connection_carries_packets:
  assumes lib: "aead_correct S" "zstd_bounded Z" "zstd_correct Z" "kx_correct S" "sodium_sized S"
    and client: "serviceable sc wc" "identity_ok S (crypto sc)" "wf_session sc"
      "has_trusted_peer_key sc \<longrightarrow> trusted_peer_key sc = public_key (identity m)"
    and server: "manager_ok m" "\<exists>i<MAX_SESSIONS. sessions m ! i = None" "tun m = Some sdev"
      "identity_ok S (identity m)" "wf_crypto (identity m)"
    and accept: "sys_malloc ws = (True, w1)" "session_create SESSION_SERVER fd ip_text (identity m) None w1 = (0, ss, w2)"
      "serviceable ss w2" "find_session (session_id ss) m = None"
    and streams: "pending (sess_socket sc) wc = server_stream S ss w2 @ restc"
      "pending fd w2 = client_stream S (server_challenge S ss w2) sc wc @ rests" "host wc = host w2"
  shows "\<exists>sc' wc' s m' ws' i. session_client_connect S sc wc = (0, sc', wc') \<and>
    session_manager_connect S m SESSION_SERVER fd ip_text ws = (Some s, m', ws') \<and>
    agree sc' s \<and> find_session (session_id sc') m' = Some i \<and> sessions m' ! i = Some s \<and>
    tunnel_ip_octet s = of_nat (i + 2) \<and>
    (\<forall>c u cdev addr up. cl_session c = sc'\<lparr>udp := u\<rparr> \<and> cl_tun c = Some cdev \<and> fits up \<longrightarrow>
       (let m'' = m'\<lparr>sessions := (sessions m')[i := Some (rebind addr s)]\<rparr>
        in carried_up S Z c m' addr up m'' \<and>
           (\<forall>down. fits down \<and> 20 \<le> length down \<and> routes_to m'' down i \<longrightarrow>
              carried_down S Z m'' (c\<lparr>cl_session := advance (cl_session c)\<rparr>) addr down)))"
proof -
  note cr = session_create_result [OF accept(2)]
  have ids: "identity_ok S (crypto ss)" using server(4) cr(8,9) by (simp add: identity_ok_def)
  have trust: "has_trusted_peer_key sc \<longrightarrow> trusted_peer_key sc = public_key (crypto ss)" using client(4) cr(8) by simp
  have pens: "pending (sess_socket ss) w2 = client_stream S (server_challenge S ss w2) sc wc @ rests"
    using streams(2) cr(2) by simp
  obtain sc' wc' s0 w3 where hs: "session_client_connect S sc wc = (0, sc', wc')"
      "session_server_connect S ss w2 = (0, s0, w3)" "agree sc' s0" "session_id sc' = session_id s0"
    using handshake_completes [OF client(1) accept(3) client(2) ids lib(4) trust streams(1) pens] streams(3) by blast
  have "session_id s0 = session_id ss" using session_server_connect_0(5) [OF hs(2)] by simp
  with accept(4) have new: "find_session (session_id s0) m = None" by simp
  obtain i m' where cn: "session_manager_connect S m SESSION_SERVER fd ip_text ws = (Some (place_session i s0), m', w3)"
      "i < MAX_SESSIONS" "manager_ok m'" "find_session (session_id s0) m' = Some i"
      "sessions m' ! i = Some (place_session i s0)" "tun m' = tun m" "manager_socket m' = manager_socket m"
    using connect_stores [OF server(1,2) accept(1,2) hs(2) new] by blast
  let ?s = "place_session i s0"
  have wfc: "wf_crypto (crypto sc')"
    using session_client_connect_wf [OF hs(1) lib(5) client(3)] by (simp add: wf_session_def)
  have "wf_session ss" by (rule session_create_wf [OF accept(2) server(5)]) simp
  from session_server_connect_wf [OF hs(2) lib(5) this] have wfs: "wf_crypto (crypto ?s)"
    by (simp add: wf_session_def place_session_def)
  have found: "find_session (session_id sc') m' = Some i" and dev: "tun m' = Some sdev" and ag: "agree sc' ?s"
    using cn(4,6) hs(3,4) server(3) by simp_all
  note tr = carries_both [OF lib(1-3) cn(3,2) found cn(5) dev ag wfc wfs _ _ _ refl]
  have oct: "tunnel_ip_octet ?s = of_nat (i + 2)" by (simp add: place_session_def)
  show ?thesis unfolding Let_def
    by (rule exI [of _ sc'], rule exI [of _ wc'], rule exI [of _ ?s], rule exI [of _ m'], rule exI [of _ w3], rule exI [of _ i])
      (intro conjI allI impI hs(1) cn(1,5) ag found oct tr; blast)
qed

section \<open>A concrete connection\<close>

text \<open>
  The server's manager with the server's demonstration identity and no session, and the
  session it creates for the client on socket 4, which does not depend on what the client
  has sent.
\<close>

definition demo_host :: session_manager where
  "demo_host = (demo_manager {})\<lparr>identity := crypto demo_server\<rparr>"

definition demo_connected :: "session \<Rightarrow> client" where
  "demo_connected s =
     \<lparr>cl_session = s, cl_identity = crypto_context_init, cl_connection = connection_init,
      cl_tun = Some \<lparr>dev_name = ''sencd1'', dev_fd = 9\<rparr>\<rparr>"

definition demo_accepted :: "bytes \<Rightarrow> rc \<times> session \<times> world" where
  "demo_accepted bs = session_create SESSION_SERVER 4 ''10.0.0.1'' (crypto demo_server) None (snd (sys_malloc (demo_world 4 bs)))"

definition demo_new :: session where "demo_new = fst (snd (demo_accepted []))"

definition demo_wait :: "bytes \<Rightarrow> world" where "demo_wait bs = snd (snd (demo_accepted bs))"

lemma demo_accepted: "demo_accepted bs = (0, demo_new, demo_wait bs)"
proof -
  have "fst (demo_accepted bs) = 0 \<and> fst (snd (demo_accepted bs)) = fst (snd (demo_accepted []))"
    by (simp add: demo_accepted_def session_create_def generate_session_id_def sys_random_def sys_malloc_def rand_bytes_def
        demo_world_def Let_def)
  then show ?thesis by (simp add: demo_new_def demo_wait_def prod_eq_iff)
qed

lemma demo_wait_same:
  "draw n k (demo_wait bs) = draw n (8 + k) calm_world" "host (demo_wait bs) = host calm_world"
  "pad_bytes (demo_wait bs) = pad_bytes calm_world" "malloc_ok (demo_wait bs) i" "socks (demo_wait bs) = socks (demo_world 4 bs)"
  by (simp_all add: demo_wait_def demo_accepted_def session_create_def generate_session_id_def sys_random_def sys_malloc_def
      demo_world_def calm_world_def draw_def rand_bytes_def Let_def)

lemma demo_wait_streams:
  "server_challenge S s (demo_wait bs) = server_challenge S s (demo_wait [])"
  "server_stream S s (demo_wait bs) = server_stream S s (demo_wait [])"
  by (simp_all add: server_challenge_def server_success_def server_stream_def hello_wire_def body_wire_def demo_wait_same)

definition demo_inbound :: bytes where
  "demo_inbound = client_stream demo_sodium (server_challenge demo_sodium demo_new (demo_wait [])) demo_client calm_world"

definition demo_dialling :: world where
  "demo_dialling = demo_world 3 (server_stream demo_sodium demo_new (demo_wait []))"

lemma demo_connection:
  "sys_malloc (demo_world 4 demo_inbound) = (True, snd (sys_malloc (demo_world 4 demo_inbound)))"
  "session_create SESSION_SERVER 4 ''10.0.0.1'' (identity demo_host) None (snd (sys_malloc (demo_world 4 demo_inbound))) =
     (0, demo_new, demo_wait demo_inbound)"
  "serviceable demo_client demo_dialling" "serviceable demo_new (demo_wait demo_inbound)"
  "pending (sess_socket demo_client) demo_dialling = server_stream demo_sodium demo_new (demo_wait demo_inbound) @ []"
  "pending 4 (demo_wait demo_inbound) =
     client_stream demo_sodium (server_challenge demo_sodium demo_new (demo_wait demo_inbound)) demo_client demo_dialling @ []"
  "host demo_dialling = host (demo_wait demo_inbound)"
proof -
  show "sys_malloc (demo_world 4 demo_inbound) = (True, snd (sys_malloc (demo_world 4 demo_inbound)))"
    by (simp add: sys_malloc_def Let_def demo_world_same)
  have cr: "session_create SESSION_SERVER 4 ''10.0.0.1'' (crypto demo_server) None
      (snd (sys_malloc (demo_world 4 demo_inbound))) = (0, demo_new, demo_wait demo_inbound)"
    using demo_accepted by (simp add: demo_accepted_def)
  then show "session_create SESSION_SERVER 4 ''10.0.0.1'' (identity demo_host) None
      (snd (sys_malloc (demo_world 4 demo_inbound))) = (0, demo_new, demo_wait demo_inbound)"
    by (simp add: demo_host_def)
  note c = session_create_result [OF cr]
  show "serviceable demo_client demo_dialling" unfolding demo_client_def demo_dialling_def by (rule demo_end_ok)
  show "serviceable demo_new (demo_wait demo_inbound)"
    using c(2,6) demo_world_same(5) [of 4 demo_inbound]
    by (simp add: serviceable_def accepts_data_def demo_wait_same)
  show "pending (sess_socket demo_client) demo_dialling = server_stream demo_sodium demo_new (demo_wait demo_inbound) @ []"
    by (simp add: demo_client_def demo_end_def demo_dialling_def demo_world_same demo_streams demo_wait_streams(2) [of _ _ demo_inbound])
  show "pending 4 (demo_wait demo_inbound) =
     client_stream demo_sodium (server_challenge demo_sodium demo_new (demo_wait demo_inbound)) demo_client demo_dialling @ []"
    using demo_world_same(6) [of demo_inbound 4]
    by (simp add: pending_def stream_def demo_wait_same demo_wait_streams(1) [of _ _ demo_inbound] demo_dialling_def demo_streams)
      (simp add: demo_inbound_def demo_streams)
  show "host demo_dialling = host (demo_wait demo_inbound)" by (simp add: demo_dialling_def demo_world_same demo_wait_same)
qed

theorem connection_carries_packets_witness:
  "\<exists>sc' wc' s m' ws' i. session_client_connect demo_sodium demo_client demo_dialling = (0, sc', wc') \<and>
     session_manager_connect demo_sodium demo_host SESSION_SERVER 4 ''10.0.0.1'' (demo_world 4 demo_inbound) = (Some s, m', ws') \<and>
     carried_up demo_sodium demo_zstd (demo_connected sc') m' no_addr (replicate 20 2)
       (m'\<lparr>sessions := (sessions m')[i := Some (rebind no_addr s)]\<rparr>)"
proof -
  have m: "manager_ok demo_host" "sessions demo_host ! 0 = None" "0 < MAX_SESSIONS"
      "tun demo_host = Some \<lparr>dev_name = ''sencd0'', dev_fd = 4\<rparr>" "identity demo_host = crypto demo_server"
    using demo_manager_ok [of "{}"] by (simp_all add: demo_host_def manager_ok_def MAX_SESSIONS_def)
  have free: "find_session sid demo_host = None" for sid
  proof -
    have "slot_of demo_host j = None" for j by (simp add: slot_of_def demo_host_def)
    then show ?thesis by (simp add: table.find_None [OF m(1)])
  qed
  have wf: "wf_session demo_client" "wf_crypto (crypto demo_server)"
    by (simp_all add: demo_client_def demo_server_def demo_end_def wf_session_unfold session_init_def zero_session_def
        crypto_context_init_def size_consts INET_ADDRSTRLEN_def)
  have free_slot: "\<exists>i<MAX_SESSIONS. sessions demo_host ! i = None" using m(2,3) by blast
  have fit: "fits (replicate 20 2)" by (simp add: fits_def mtu_consts)
  note d = demo_connection
  have ids: "identity_ok demo_sodium (identity demo_host)" "wf_crypto (identity demo_host)"
    using demo_ends(2) wf(2) m(5) by simp_all
  obtain sc' wc' s m' ws' i where
    r: "session_client_connect demo_sodium demo_client demo_dialling = (0, sc', wc')"
      "session_manager_connect demo_sodium demo_host SESSION_SERVER 4 ''10.0.0.1'' (demo_world 4 demo_inbound) = (Some s, m', ws')"
    and all: "\<And>c u cdev addr up. cl_session c = sc'\<lparr>udp := u\<rparr> \<and> cl_tun c = Some cdev \<and> fits up \<Longrightarrow>
       carried_up demo_sodium demo_zstd c m' addr up (m'\<lparr>sessions := (sessions m')[i := Some (rebind addr s)]\<rparr>)"
    using connection_carries_packets [OF demo_aead_correct demo_zstd_bounded demo_zstd_correct demo_kx_correct demo_sodium_sized
        d(3) demo_ends(1) wf(1) _ m(1) free_slot m(4) ids d(1,2,4) free d(5-7)]
      demo_ends(5) unfolding Let_def by blast
  have "cl_session (demo_connected sc') = sc'\<lparr>udp := udp sc'\<rparr>"
      "cl_tun (demo_connected sc') = Some \<lparr>dev_name = ''sencd1'', dev_fd = 9\<rparr>" by (simp_all add: demo_connected_def)
  with all [of "demo_connected sc'"] fit r show ?thesis by blast
qed

end
