(* ===== verification/Spec2Isabelle.thy ===== *)
theory Spec2Isabelle
  imports ServerGuarantees TableGuarantees WireGuarantees ClientGuarantees ClientRuns EndToEnd
begin

text \<open>
  sencd is a tunnel: a client and a server connect over TCP and authenticate each other
  there, and then carry IP packets between their TUN devices in UDP datagrams, compressed
  with zstd and encrypted with ChaCha20-Poly1305 under keys from the handshake. This library
  models the C sources under \<^verbatim>\<open>src/src\<close> and \<^verbatim>\<open>src/main\<close> and proves what each part promises.

  \<^bold>\<open>The program's parts and their theories.\<close>
  \<^item> \<^theory_text>\<open>Prelude\<close>: bytes, object representation and byte order of integers; the interfaces
    \<open>fixed_codec\<close> (an encoding of fixed width), \<open>byte_reader\<close> and \<open>byte_writer\<close> (what a
    stream promises its users) and \<open>framed_reader\<close> (one on top of the other).
  \<^item> \<^theory_text>\<open>Progress\<close>: runs of threads that interleave: finite paths, infinite executions, weak
    fairness; the interfaces \<open>invariant_kept\<close> (what every step keeps) and \<open>progress\<close> (a rank that
    every awaited step lowers and no step raises), under which every fair execution ends in
    which no thread that is awaited waits in a read for ever.
  \<^item> \<^theory_text>\<open>World\<close>: the operating system as explicit state, one record that the operations take
    and return: sockets and what they deliver, files, the heap as a number of blocks,
    entropy, the console. What calls answer is a script in that record, so that a theorem
    about every world is one about every behaviour of the system.
  \<^item> \<^theory_text>\<open>Logs\<close>: \<^verbatim>\<open>debug/logs.c\<close>, \<^verbatim>\<open>server/serverinit/idle.c\<close>, \<^verbatim>\<open>commands/utility/clear.c\<close>.
  \<^item> \<^theory_text>\<open>Packet\<close>: \<^verbatim>\<open>shared/packet.c\<close>, packets on a TCP stream; it interprets the interfaces on
    \<^verbatim>\<open>recv_all\<close>, \<^verbatim>\<open>send_all\<close> and the header. \<^theory_text>\<open>Waiting\<close>: when its receiver waits.
  \<^item> \<^theory_text>\<open>Crypto\<close>: \<^verbatim>\<open>shared/security/crypto.c\<close>: identities and trusted keys on disk, key
    exchange, nonces, encryption. \<^theory_text>\<open>Auth\<close>: the messages of \<^verbatim>\<open>shared/auth.h\<close>.
  \<^item> \<^theory_text>\<open>UdpTunnel\<close>, \<^theory_text>\<open>TunnelPacket\<close>, \<^theory_text>\<open>TunnelCompress\<close>: the files of \<^verbatim>\<open>tunnel/\<close>;
    \<^theory_text>\<open>Tun\<close>: \<^verbatim>\<open>platform/linux/tun.c\<close>.
  \<^item> \<^theory_text>\<open>Session\<close>: \<^verbatim>\<open>sessions/session.c\<close>, both sides of the handshake. \<^theory_text>\<open>Handshake\<close> shows what
    every path of it keeps, \<^theory_text>\<open>Agreement\<close> what a result of 0 means and when it is reached,
    \<^theory_text>\<open>SessionTypes\<close> that all arrays keep their sizes.
  \<^item> \<^theory_text>\<open>SlotTable\<close>: the interface \<open>slot_table\<close> of a table of numbered slots;
    \<^theory_text>\<open>SessionManager\<close>: \<^verbatim>\<open>sessions/session_manager.c\<close>, which is shown to be one;
    \<^theory_text>\<open>ManagerFacts\<close>: what its operations do to the world.
  \<^item> \<^theory_text>\<open>ServerCore\<close>, \<^theory_text>\<open>ServerEnv\<close>: \<^verbatim>\<open>server/server_core.c\<close>, \<^verbatim>\<open>commands/server_env.c\<close> and
    \<^verbatim>\<open>main/server.c\<close>. \<^theory_text>\<open>Server\<close>: the four threads of the server as a step relation.
    \<^theory_text>\<open>ServerFacts\<close>, \<^theory_text>\<open>ServerSafety\<close>, \<^theory_text>\<open>ServerNonces\<close>, \<^theory_text>\<open>ServerStart\<close>: the invariants of its
    runs, on descriptors, memory and the table, on counters, and that a start establishes them.
    \<^theory_text>\<open>ServerEnds\<close>: the shutdown is a \<open>progress\<close>.
  \<^item> \<^theory_text>\<open>ClientCore\<close>, \<^theory_text>\<open>ClientEnv\<close>: \<^verbatim>\<open>client/client_core.c\<close>, \<^verbatim>\<open>commands/client_env.c\<close> and
    \<^verbatim>\<open>main/client.c\<close>. \<^theory_text>\<open>Client\<close>: what they do.
  \<^item> \<^theory_text>\<open>ClientThreads\<close>: the four threads of the client, in finer steps than the server's, as a
    step relation; \<^theory_text>\<open>ClientAlone\<close>: that the turns of a thread nobody interrupts are the passes
    of its loop in \<^theory_text>\<open>ClientEnv\<close>; \<^theory_text>\<open>ClientSafety\<close>: the invariants of its runs, on descriptors, memory and what
    the sender encrypts; \<^theory_text>\<open>ClientEnds\<close>: that its end is a \<open>progress\<close>.
  \<^item> \<^theory_text>\<open>Tunnel\<close>: a packet on its way from one device to the other; \<^theory_text>\<open>EndToEnd\<close>: from two
    endpoints that are not connected to packets carried in both directions.
  \<^item> \<^theory_text>\<open>ServerGuarantees\<close>, \<^theory_text>\<open>TableGuarantees\<close>, \<^theory_text>\<open>WireGuarantees\<close>, \<^theory_text>\<open>ClientGuarantees\<close>,
    \<^theory_text>\<open>ClientRuns\<close> and this theory hold the properties, each with an example that applies it to concrete data;
    \<^theory_text>\<open>Demo\<close> holds the data of the examples.

  \<^bold>\<open>Correspondence.\<close> A struct is a record with its fields, an enumeration a datatype, and a
  function of the same name takes the struct and the world and returns them with its
  result. Results are the code's: 0 and 1, or an option where the code returns a pointer or
  fills a buffer. Integers that wrap are words; descriptors are integers, negative when
  there is none. A pointer into the table of sessions is the number of its slot. Loops over
  sockets are recursive functions that end because each pass consumes input or moves a byte.
  Idle mode, which need not end, is a partial function into an option. No fuel is used.

  \<^bold>\<open>Reads that wait.\<close> A \<^verbatim>\<open>recv\<close> on an open connection that has nothing to deliver does not
  return. The model sets the field \<open>stalled\<close> of the world, and from then on what an operation
  returns is no result: in the runs of the server and the client the thread has no turn until
  the script of its socket has more, and in a function that stands for a thread that runs alone the result
  is none. A socket whose script has an empty piece is one the peer has closed. So a theorem
  about a function that reads, such as a handshake, speaks of the calls that return; which ones do
  is said in \<open>packet_receive_wait\<close>.
  What keeps the server from ending is a peer that is silent in its handshake: the listener
  has accepted it and waits, and the main thread waits for the listener. That the server
  ends is therefore shown of the executions in which no handshake waits for ever, and that it
  does not end otherwise is a theorem too.

  \<^bold>\<open>Bounds.\<close>
  The bound 28 in the liveness of the server's shutdown is the number of steps the
  threads it waits for can still take, added up over the phases of the shutdown; the bounds
  4 and 6 for the client are the turns of its receiving and its main thread to their ends. The thread
  the client waits for is the one that has destroyed the session and sets the flag, and then
  the main thread; neither is ever in a read then.
  That these steps are taken is what fairness says: no thread that can always move waits
  for ever. The theorems that the server and the client end are about all fair executions.

  \<^bold>\<open>Libraries.\<close> libsodium and zstd are records of functions, parameters of the definitions
  that call them; what is assumed of them is named: \<open>sign_correct\<close>, \<open>kx_correct\<close>,
  \<open>aead_correct\<close>, \<open>aead_authentic\<close>, \<open>sodium_sized\<close>, \<open>zstd_bounded\<close>, \<open>zstd_correct\<close>.
  \<open>demo_sodium\<close> and \<open>demo_zstd\<close> satisfy them.

  \<^bold>\<open>Threads.\<close> A thread takes one step per pass of its loop: the test of the condition, the
  return of \<^verbatim>\<open>select\<close> with any result, what follows until the next test. The environment
  moves in between: input arrives and later calls may answer differently. Passes of the
  server are atomic, but for the one of the listener that accepts a client: the acceptance with its
  handshake is a step of its own, which is there only when the handshake comes to its end. The table is the only data its threads share with one another; adding,
  looking up and choosing a session happen under its mutex, no session leaves the table while
  threads run, each field of a session is written by one thread only after it has been added,
  apart from the address of the peer, which is written and read under the mutex, and the main thread destroys sessions
  only when it has joined the others. The flag \<^verbatim>\<open>running\<close> and the two descriptors, which
  the main thread clears without a lock, are read in steps of their own.
  The threads of the client share the session and the connection without a lock, and what
  one does to them shows in another. There each test, the body of \<^verbatim>\<open>session_destroy\<close>, each
  of the two assignments after it and what a thread does with one packet are steps of their own;
  what happens when the session is destroyed in the middle of a packet is not modelled.

  \<^bold>\<open>Not modelled.\<close> What \<^verbatim>\<open>perror\<close> writes to the standard error; the time-outs of \<^verbatim>\<open>select\<close>
  (any result may come at any time); a \<^verbatim>\<open>send\<close> that waits because the peer does not read, and a
  line of input of which only a part is there, for which \<^verbatim>\<open>fgets\<close> would wait: lines arrive as a whole;
  signals, such as the one \<^verbatim>\<open>send\<close> raises on a
  connection that was reset; what the kernel does to a datagram it was handed; \<^verbatim>\<open>pthread_create\<close> failing. The Windows file of the TUN device has
  no code. The usage texts of the two main functions are represented by their cases.
\<close>

section \<open>The handshake\<close>

text \<open>
  C1. When the client has the server's stream waiting and the server the client's, whatever
  the pieces they arrive in, both handshake functions return 0, each has sent exactly what
  the other reads, and they agree: same session nonce, crossed keys, each knows the other's
  key, and the client trusts the server's. The session ids are equal when the hosts have the
  same byte order and reversed when they have not.
\<close>

theorem handshake_agreement:
  assumes "serviceable sc wc" and "serviceable ss ws"
    and "identity_ok S (crypto sc)" and "identity_ok S (crypto ss)" and "kx_correct S"
    and "has_trusted_peer_key sc \<longrightarrow> trusted_peer_key sc = public_key (crypto ss)"
    and "pending (sess_socket sc) wc = server_stream S ss ws @ restc"
    and "pending (sess_socket ss) ws = client_stream S (server_challenge S ss ws) sc wc @ rests"
  shows "\<exists>sc' wc' ss' ws'. session_client_connect S sc wc = (0, sc', wc') \<and>
    session_server_connect S ss ws = (0, ss', ws') \<and>
    sent_on (sess_socket sc) wc' = sent_on (sess_socket sc) wc @ client_stream S (server_challenge S ss ws) sc wc \<and>
    sent_on (sess_socket ss) ws' = sent_on (sess_socket ss) ws @ server_stream S ss ws \<and>
    pending (sess_socket sc) wc' = restc \<and> pending (sess_socket ss) ws' = rests \<and>
    agree sc' ss' \<and> trusted_peer_key sc' = public_key (crypto ss') \<and>
    (host wc = host ws \<longrightarrow> session_id sc' = session_id ss') \<and>
    (host wc \<noteq> host ws \<longrightarrow> session_id sc' = bswap 8 (session_id ss'))"
  using handshake_completes [OF assms] .

theorem handshake_agreement_witness:
  "\<exists>sc' wc' ss' ws'. session_client_connect demo_sodium demo_client client_world = (0, sc', wc') \<and>
    session_server_connect demo_sodium demo_server server_world = (0, ss', ws') \<and> agree sc' ss' \<and>
    session_id sc' = session_id ss'"
proof -
  have "host client_world = host server_world"
    by (simp add: client_world_def server_world_def demo_world_same)
  then show ?thesis
    using handshake_agreement [OF demo_ends(3,4,1,2) demo_kx_correct _ demo_pending] demo_ends(5) by blast
qed

text \<open>
  C2. A server whose handshake returns 0 has an established, verified session; it has read an
  authentication response, and the signature in it, under the key the session records as
  the peer's, covers the 16 random bytes this handshake has drawn and the ephemeral key from
  which the session keys are derived. The id is the one the session had; the entropy
  consumed is the nonce, the ephemeral seed and the session nonce.
\<close>

theorem server_authenticates_client:
  assumes "session_server_connect S s w = (0, s', w')"
  shows "sess_state s' = SESSION_ESTABLISHED \<and> verified (crypto s') = 1 \<and>
    auth_nonce s' = draw AUTH_NONCE_SIZE 0 w \<and> session_id s' = session_id s \<and>
    rng_pos w' = rng_pos w + 80 \<and>
    (\<exists>pad hello pad' reply.
       pending (sess_socket s) w =
         wire_packet pad hello @ wire_packet pad' reply @ pending (sess_socket s) w' \<and>
       ptype (header hello) = type_code PACKET_CLIENT_HELLO \<and>
       ptype (header reply) = type_code PACKET_AUTH_RESPONSE \<and>
       (let resp = response_of_mem (payload_bytes reply)
        in peer_public_key (crypto s') = rs_public_key resp \<and>
           sign_verify S (rs_signature resp) (auth_nonce s' @ rs_eph_public_key resp) (peer_public_key (crypto s')) \<and>
           (\<exists>spk ssk. kx_keypair S (draw KX_SEEDBYTES AUTH_NONCE_SIZE w) = Some (spk, ssk) \<and>
              kx_server_session_keys S spk ssk (rs_eph_public_key resp) =
                Some (rx_key (crypto s'), tx_key (crypto s')))))"
proof -
  note r = session_server_connect_0 [OF assms]
  have "rng_pos w' = rng_pos w + 80" using r(6) by (simp add: drew_def size_consts)
  with r(1-3,5,7) show ?thesis unfolding Let_def by metis
qed

theorem server_authenticates_client_witness:
  "\<exists>s' w'. session_server_connect demo_sodium demo_server server_world = (0, s', w') \<and>
     verified (crypto s') = 1 \<and> auth_nonce s' = map of_nat [0..<16]"
proof -
  obtain s' w' where run: "session_server_connect demo_sodium demo_server server_world = (0, s', w')"
    using demo_run by blast
  from server_authenticates_client [OF run]
  have "verified (crypto s') = 1" "auth_nonce s' = draw AUTH_NONCE_SIZE 0 server_world" by blast+
  with run show ?thesis
    by (simp add: server_world_def demo_world_same) (simp add: draw_def calm_world_def AUTH_NONCE_SIZE_def)
qed

text \<open>
  C3. A client whose handshake returns 0 has read a challenge whose signature verifies under
  the key it contains; that key is the trusted one if the client had one and is the trusted
  one afterwards in any case; the session keys are derived from the signed ephemeral key,
  and the session id and nonce are those of the confirmation.
\<close>

theorem client_authenticates_server:
  assumes "session_client_connect S s w = (0, s', w')"
  shows "sess_state s' = SESSION_ESTABLISHED \<and> trusted_peer_key s' = peer_public_key (crypto s') \<and>
    (has_trusted_peer_key s \<longrightarrow> peer_public_key (crypto s') = trusted_peer_key s) \<and>
    (\<exists>pad hello pad1 req pad2 m cpk csk.
      pending (sess_socket s) w =
        wire_packet pad hello @ wire_packet pad1 req @ wire_packet pad2 m @ pending (sess_socket s) w' \<and>
      ptype (header hello) = type_code PACKET_SERVER_HELLO \<and>
      ptype (header req) = type_code PACKET_AUTH_REQUEST \<and>
      ptype (header m) = type_code PACKET_AUTH_SUCCESS \<and>
      kx_keypair S (draw KX_SEEDBYTES 0 w) = Some (cpk, csk) \<and>
      (let c = challenge_of_mem (payload_bytes req); succ = success_of_mem (host w) (payload_bytes m)
       in sign_verify S (ch_signature c) (ch_nonce c @ ch_eph_public_key c) (peer_public_key (crypto s')) \<and>
          kx_client_session_keys S cpk csk (ch_eph_public_key c) = Some (rx_key (crypto s'), tx_key (crypto s')) \<and>
          session_id s' = su_session_id succ \<and> session_nonce s' = su_session_nonce succ))"
  using session_client_connect_0 [OF assms] unfolding Let_def by metis

theorem client_authenticates_server_witness:
  "\<exists>s' w'. session_client_connect demo_sodium demo_client client_world = (0, s', w') \<and>
     sess_state s' = SESSION_ESTABLISHED \<and> trusted_peer_key s' = peer_public_key (crypto s')"
proof -
  obtain s' w' where run: "session_client_connect demo_sodium demo_client client_world = (0, s', w')"
    using demo_run by blast
  with client_authenticates_server [OF run] show ?thesis by blast
qed

section \<open>The tunnel from end to end\<close>

text \<open>
  C5. A packet that the client reads from its TUN device and that fits the tunnel leaves in
  one datagram; every server whose table finds, under the id of the client's session, a
  session that agrees with it writes exactly that packet to its own device when the datagram
  arrives, from whatever address and on a host of either byte order.
\<close>

theorem uplink_delivers:
  assumes "cl_tun c = Some dev" and "device_has dev raw w" and "fits raw" and "wf_crypto (crypto (cl_session c))"
    and "aead_correct S" and "zstd_bounded Z" and "zstd_correct Z"
  shows "\<exists>d w'. client_tun_sender_packet S Z c w = (c\<lparr>cl_session := advance (cl_session c)\<rparr>, w') \<and>
    udp_out w' = udp_out w @ [(udp_socket (udp (cl_session c)), None, d)] \<and>
    (\<forall>m i s sdev addr v. manager_ok m \<and> find_session (session_id (cl_session c)) m = Some i \<and>
       sessions m ! i = Some s \<and> agree (cl_session c) s \<and> tun m = Some sdev \<and>
       datagram_next (manager_socket m) addr d v \<and> can_write v \<longrightarrow>
       (\<exists>v'. udp_listener_datagram S Z m v = (m\<lparr>sessions := (sessions m)[i := Some (rebind addr s)]\<rparr>, v') \<and>
          tun_out v' = tun_out v @ [raw]))"
  by (rule uplink [OF assms])

text \<open>A client and a server that share the first demonstration session, and their devices.\<close>

definition demo_client_end :: client where
  "demo_client_end = demo_idle_client\<lparr>cl_session := (demo_slot 0)\<lparr>udp := zero_udp_tunnel\<lparr>udp_socket := 6\<rparr>\<rparr>\<rparr>"

definition device_world :: "int \<Rightarrow> bytes \<Rightarrow> world" where
  "device_world fd raw = calm_world\<lparr>socks := (\<lambda>_. None)(fd \<mapsto> fresh_sock\<lparr>rx_chunks := [raw]\<rparr>)\<rparr>"

definition arrival :: "int \<Rightarrow> bytes \<Rightarrow> world" where
  "arrival fd d = calm_world\<lparr>udp_in := (\<lambda>_. [])(fd := [(no_addr, d)]), host := BigEndian\<rparr>"

lemma demo_tunnel:
  "device_has \<lparr>dev_name = nm, dev_fd = fd\<rparr> raw (device_world fd raw)" "wf_crypto (crypto (demo_slot 0))"
  "fits (replicate 20 2)" "agree (cl_session demo_client_end) (demo_slot 0)"
  "udp_out (device_world fd raw) = []" "datagram_next fd no_addr d (arrival fd d)" "can_write (arrival fd d)"
  "tun_out (arrival fd d) = []"
  by (simp_all add: device_has_def device_world_def demo_slot_def wf_crypto_def crypto_context_init_def fits_def
      mtu_consts agree_def demo_client_end_def calm_world_def datagram_next_def arrival_def can_write_def)

theorem uplink_delivers_witness:
  "\<exists>c' w' d m' v'. client_tun_sender_packet demo_sodium demo_zstd demo_client_end (device_world 9 (replicate 20 2)) = (c', w') \<and>
     udp_out w' = [(6, None, d)] \<and>
     udp_listener_datagram demo_sodium demo_zstd (demo_manager {0}) (arrival 5 d) = (m', v') \<and> tun_out v' = [replicate 20 2]"
proof -
  let ?c = demo_client_end and ?w = "device_world 9 (replicate 20 2)"
  have c: "cl_tun ?c = Some \<lparr>dev_name = ''sencd1'', dev_fd = 9\<rparr>" "wf_crypto (crypto (cl_session ?c))"
      "udp_socket (udp (cl_session ?c)) = 6" "session_id (cl_session ?c) = of_nat 0"
    using demo_tunnel(2) by (simp_all add: demo_client_end_def demo_idle_client_def demo_slot_def)
  from uplink_delivers [OF c(1) demo_tunnel(1,3) c(2) demo_aead_correct demo_zstd_bounded demo_zstd_correct]
  obtain d w' where d: "client_tun_sender_packet demo_sodium demo_zstd ?c ?w = (?c\<lparr>cl_session := advance (cl_session ?c)\<rparr>, w')"
      "udp_out w' = udp_out ?w @ [(udp_socket (udp (cl_session ?c)), None, d)]"
    and all: "\<And>m i s sdev addr v. manager_ok m \<and> find_session (session_id (cl_session ?c)) m = Some i \<and>
       sessions m ! i = Some s \<and> agree (cl_session ?c) s \<and> tun m = Some sdev \<and>
       datagram_next (manager_socket m) addr d v \<and> can_write v \<Longrightarrow>
       \<exists>v'. udp_listener_datagram demo_sodium demo_zstd m v = (m\<lparr>sessions := (sessions m)[i := Some (rebind addr s)]\<rparr>, v') \<and>
          tun_out v' = tun_out v @ [replicate 20 2]"
    by blast
  have "find_session (session_id (cl_session ?c)) (demo_manager {0}) = Some 0" "sessions (demo_manager {0}) ! 0 = Some (demo_slot 0)"
    using demo_find [of 0 "{0}"] c(4) by (simp_all add: MAX_SESSIONS_def)
  with all [of "demo_manager {0}" 0 "demo_slot 0" "\<lparr>dev_name = ''sencd0'', dev_fd = 4\<rparr>" no_addr "arrival 5 d"]
    demo_manager_ok demo_tunnel(4,6,7) obtain v' where
    "udp_listener_datagram demo_sodium demo_zstd (demo_manager {0}) (arrival 5 d) =
       ((demo_manager {0})\<lparr>sessions := (sessions (demo_manager {0}))[0 := Some (rebind no_addr (demo_slot 0))]\<rparr>, v')"
    "tun_out v' = tun_out (arrival 5 d) @ [replicate 20 2]" by auto
  with d c(3) demo_tunnel(5,8) show ?thesis by auto
qed

text \<open>
  C6. A packet of at least 20 bytes on the server's TUN device leaves in one datagram for the
  address from which the chosen session was last heard: the first established session whose
  octet is the last of the packet's destination. Every client that agrees with that session
  writes exactly the packet to its device when the datagram arrives.
\<close>

theorem downlink_delivers:
  assumes "manager_ok m" and "tun m = Some sdev" and "device_has sdev raw w" and "20 \<le> length raw"
    and "routes_to m raw i" and "sessions m ! i = Some s" and "fits raw" and "wf_crypto (crypto s)"
    and "aead_correct S" and "zstd_bounded Z" and "zstd_correct Z"
  shows "sess_state s = SESSION_ESTABLISHED \<and> peer_known (udp s) \<and> tunnel_ip_octet s = raw ! 19 \<and>
    (\<exists>d w'. tun_sender_packet S Z m w = (m\<lparr>sessions := (sessions m)[i := Some (advance s)]\<rparr>, w') \<and>
      udp_out w' = udp_out w @ [(manager_socket m, Some (peer_addr (udp s)), d)] \<and>
      (\<forall>c dev addr v. agree (cl_session c) s \<and> cl_tun c = Some dev \<and>
         datagram_next (udp_socket (udp (cl_session c))) addr d v \<and> can_write v \<longrightarrow>
         tun_out (client_udp_receiver_datagram S Z c v) = tun_out v @ [raw]))"
  by (rule downlink [OF assms])

theorem downlink_delivers_witness:
  "\<exists>m' w' d. tun_sender_packet demo_sodium demo_zstd (demo_manager {0}) (device_world 4 (replicate 20 2)) = (m', w') \<and>
     udp_out w' = [(5, Some (peer_addr (udp (demo_slot 0))), d)] \<and>
     tun_out (client_udp_receiver_datagram demo_sodium demo_zstd demo_client_end (arrival 6 d)) = [replicate 20 2]"
proof -
  let ?m = "demo_manager {0}" and ?w = "device_world 4 (replicate 20 2)" and ?dev = "\<lparr>dev_name = ''sencd0'', dev_fd = 4\<rparr>"
  have m: "tun ?m = Some ?dev" "sessions ?m ! 0 = Some (demo_slot 0)" "manager_socket ?m = 5"
    by (simp_all add: MAX_SESSIONS_def)
  have r: "routes_to ?m (replicate 20 2) 0"
    by (simp add: routes_to_def first_slot_0 MAX_SESSIONS_def is_target_def) (simp add: demo_slot_def)
  have l: "20 \<le> length (replicate 20 (2 :: byte))" by simp
  have c: "cl_tun demo_client_end = Some \<lparr>dev_name = ''sencd1'', dev_fd = 9\<rparr>"
      "udp_socket (udp (cl_session demo_client_end)) = 6"
    by (simp_all add: demo_client_end_def demo_idle_client_def)
  from downlink_delivers [OF demo_manager_ok m(1) demo_tunnel(1) l r m(2) demo_tunnel(3,2) demo_aead_correct
      demo_zstd_bounded demo_zstd_correct] obtain d w' where
    d: "tun_sender_packet demo_sodium demo_zstd ?m ?w = (?m\<lparr>sessions := (sessions ?m)[0 := Some (advance (demo_slot 0))]\<rparr>, w')"
      "udp_out w' = udp_out ?w @ [(manager_socket ?m, Some (peer_addr (udp (demo_slot 0))), d)]"
    and all: "\<And>c dev addr v. agree (cl_session c) (demo_slot 0) \<and> cl_tun c = Some dev \<and>
         datagram_next (udp_socket (udp (cl_session c))) addr d v \<and> can_write v \<Longrightarrow>
         tun_out (client_udp_receiver_datagram demo_sodium demo_zstd c v) = tun_out v @ [replicate 20 2]"
    by blast
  from all [of demo_client_end _ no_addr "arrival 6 d"] c demo_tunnel(4,6,7)
  have "tun_out (client_udp_receiver_datagram demo_sodium demo_zstd demo_client_end (arrival 6 d)) = [replicate 20 2]"
    by (simp add: demo_tunnel(8))
  with d m(3) demo_tunnel(5) show ?thesis by auto
qed

section \<open>Errors of the handshake\<close>

text \<open>
  C16. Whatever the peer sends and however the calls fail, both handshake functions return 0
  or 1, leave every other socket alone, close nothing, free every packet they allocate (only
  the text of each printed log line stays allocated), and keep the identity, the role, the
  address and the packet counters of the session.
\<close>

theorem handshake_frame:
  assumes "session_server_connect S s w = (r, s', w') \<or> session_client_connect S s w = (r, s', w')"
  shows "(r = 0 \<or> r = 1) \<and> closed w' = closed w \<and> bad_closes w' = bad_closes w \<and>
    (\<forall>fd. fd \<noteq> sess_socket s \<longrightarrow> socks w' fd = socks w fd) \<and> leaked w' = leaked w \<and>
    sess_socket s' = sess_socket s \<and> role s' = role s \<and> ip s' = ip s \<and>
    public_key (crypto s') = public_key (crypto s) \<and> private_key (crypto s') = private_key (crypto s) \<and>
    tx_nonce (crypto s') = tx_nonce (crypto s)"
proof -
  have "hs_step s w r s' w'"
    using assms session_server_connect_step session_client_connect_step by blast
  then show ?thesis by (simp add: hs_step_def socket_frame_def env_frame_def)
qed

theorem handshake_frame_witness:
  "\<exists>r s' w'. session_server_connect demo_sodium demo_server server_world = (r, s', w') \<and> leaked w' = leaked server_world"
proof -
  obtain r s' w' where run: "session_server_connect demo_sodium demo_server server_world = (r, s', w')"
    by (metis prod_cases3)
  with handshake_frame [OF disjI1 [OF run]] show ?thesis by blast
qed

end
